(* ===== verification/Prelude.thy ===== *)
theory Prelude
  imports Main "HOL-Library.State_Monad" "HOL-Library.Word"
begin

text \<open>
  The prelude of the development: the calculus in which the programs are verified
  (weakest preconditions, frames and execution lemmas for the state monad) and the
  generic facts on C strings, decimal numbers and paths that the components share.
  Nothing here models code of the repository.
\<close>

section \<open>A calculus for stateful programs\<close>

text \<open>
  A stateful C function is a value of the state monad. \<open>res m w\<close> is what it returns
  from the state \<open>w\<close>, \<open>post m w\<close> the state it leaves. \<open>wp m Q w\<close> says that running \<open>m\<close>
  from \<open>w\<close> ends in a result and a state that satisfy \<open>Q\<close>; every program of the
  development is a total function, so this is total correctness. \<open>keeps f m\<close> says that
  \<open>m\<close> does not change the part \<open>f\<close> of the state.
\<close>

abbreviation res :: "('s, 'a) state \<Rightarrow> 's \<Rightarrow> 'a" where
  "res m w \<equiv> fst (run_state m w)"

abbreviation post :: "('s, 'a) state \<Rightarrow> 's \<Rightarrow> 's" where
  "post m w \<equiv> snd (run_state m w)"

abbreviation ret :: "'a \<Rightarrow> ('s, 'a) state" where
  "ret \<equiv> State_Monad.return"

definition wp :: "('s, 'a) state \<Rightarrow> ('a \<Rightarrow> 's \<Rightarrow> bool) \<Rightarrow> 's \<Rightarrow> bool" where
  "wp m Q w \<longleftrightarrow> Q (res m w) (post m w)"

definition keeps :: "('s \<Rightarrow> 'b) \<Rightarrow> ('s, 'a) state \<Rightarrow> bool" where
  "keeps f m \<longleftrightarrow> (\<forall>w. f (post m w) = f w)"

definition gets :: "('s \<Rightarrow> 'a) \<Rightarrow> ('s, 'a) state" where
  "gets f = State (\<lambda>w. (f w, w))"

definition modify :: "('s \<Rightarrow> 's) \<Rightarrow> ('s, unit) state" where
  "modify f = State (\<lambda>w. ((), f w))"

fun for_each :: "('a \<Rightarrow> ('s, unit) state) \<Rightarrow> 'a list \<Rightarrow> ('s, unit) state" where
  "for_each f [] = ret ()"
| "for_each f (x # xs) = do { f x; for_each f xs }"

named_theorems wp_intros \<open>introduction rules of the weakest precondition calculus\<close>
named_theorems keep_intros \<open>frame rules\<close>
named_theorems prog_defs \<open>definitions of the operations of a component\<close>

lemma run_gets [simp]: "run_state (gets f) w = (f w, w)"
  by (simp add: gets_def)

lemma run_modify [simp]: "run_state (modify f) w = ((), f w)"
  by (simp add: modify_def)

lemma run_if: "run_state (if b then m else n) w = (if b then run_state m w else run_state n w)"
  by simp

lemma wpD: "wp m Q w \<Longrightarrow> run_state m w = (a, w') \<Longrightarrow> Q a w'"
  by (simp add: wp_def)

lemma wpI: "(\<And>a w'. run_state m w = (a, w') \<Longrightarrow> Q a w') \<Longrightarrow> wp m Q w"
  by (cases "run_state m w") (simp add: wp_def)

lemma wp_mono: "wp m Q w \<Longrightarrow> (\<And>a w'. Q a w' \<Longrightarrow> R a w') \<Longrightarrow> wp m R w"
  by (simp add: wp_def)

lemma wp_conj: "wp m Q w \<Longrightarrow> wp m R w \<Longrightarrow> wp m (\<lambda>a w'. Q a w' \<and> R a w') w"
  by (simp add: wp_def)

lemma wp_any: "(\<And>a w'. Q a w') \<Longrightarrow> wp m Q w"
  by (simp add: wp_def)

lemma wp_return [wp_intros]: "Q a w \<Longrightarrow> wp (ret a) Q w"
  by (simp add: wp_def)

lemma wp_bind_eq: "wp (State_Monad.bind m f) Q w \<longleftrightarrow> wp m (\<lambda>a. wp (f a) Q) w"
  by (simp add: wp_def split_def)

lemma wp_bind [wp_intros]: "wp m (\<lambda>a. wp (f a) Q) w \<Longrightarrow> wp (State_Monad.bind m f) Q w"
  by (simp add: wp_bind_eq)

lemma wp_gets [wp_intros]: "Q (f w) w \<Longrightarrow> wp (gets f) Q w"
  by (simp add: wp_def)

lemma wp_modify [wp_intros]: "Q () (f w) \<Longrightarrow> wp (modify f) Q w"
  by (simp add: wp_def)

lemma wp_if [wp_intros]:
  "(b \<Longrightarrow> wp m Q w) \<Longrightarrow> (\<not> b \<Longrightarrow> wp n Q w) \<Longrightarrow> wp (if b then m else n) Q w"
  by simp

lemma wp_option [wp_intros]:
  "(x = None \<Longrightarrow> wp m Q w) \<Longrightarrow> (\<And>y. x = Some y \<Longrightarrow> wp (f y) Q w)
    \<Longrightarrow> wp (case x of None \<Rightarrow> m | Some y \<Rightarrow> f y) Q w"
  by (cases x) simp_all

lemma wp_sum [wp_intros]:
  "(\<And>e. x = Inl e \<Longrightarrow> wp (f e) Q w) \<Longrightarrow> (\<And>y. x = Inr y \<Longrightarrow> wp (g y) Q w)
    \<Longrightarrow> wp (case x of Inl e \<Rightarrow> f e | Inr y \<Rightarrow> g y) Q w"
  by (cases x) simp_all

lemma wp_prod [wp_intros]:
  "(\<And>a b. x = (a, b) \<Longrightarrow> wp (f a b) Q w) \<Longrightarrow> wp (case x of (a, b) \<Rightarrow> f a b) Q w"
  by (cases x) simp

lemma wp_let [wp_intros]: "wp (f x) Q w \<Longrightarrow> wp (let y = x in f y) Q w"
  by simp

lemma keepsD: "keeps f m \<Longrightarrow> run_state m w = (a, w') \<Longrightarrow> f w' = f w"
  by (metis keeps_def snd_conv)

lemma keeps_post: "keeps f m \<Longrightarrow> f (post m w) = f w"
  by (simp add: keeps_def)

lemma keeps_comp: "keeps f m \<Longrightarrow> keeps (\<lambda>w. g (f w)) m"
  by (simp add: keeps_def)

lemma keeps_return [keep_intros]: "keeps f (ret a)"
  by (simp add: keeps_def)

lemma keeps_bind [keep_intros]:
  "keeps f m \<Longrightarrow> (\<And>a. keeps f (k a)) \<Longrightarrow> keeps f (State_Monad.bind m k)"
  by (simp add: keeps_def split_def)

lemma keeps_gets [keep_intros]: "keeps f (gets g)"
  by (simp add: keeps_def)

lemma keeps_if [keep_intros]:
  "(b \<Longrightarrow> keeps f m) \<Longrightarrow> (\<not> b \<Longrightarrow> keeps f n) \<Longrightarrow> keeps f (if b then m else n)"
  by simp

lemma keeps_option [keep_intros]:
  "keeps f m \<Longrightarrow> (\<And>y. keeps f (k y)) \<Longrightarrow> keeps f (case x of None \<Rightarrow> m | Some y \<Rightarrow> k y)"
  by (cases x) simp_all

lemma keeps_sum [keep_intros]:
  "(\<And>y. keeps f (j y)) \<Longrightarrow> (\<And>y. keeps f (k y))
    \<Longrightarrow> keeps f (case x of Inl y \<Rightarrow> j y | Inr y \<Rightarrow> k y)"
  by (cases x) simp_all

lemma keeps_prod [keep_intros]:
  "(\<And>a b. keeps f (k a b)) \<Longrightarrow> keeps f (case x of (a, b) \<Rightarrow> k a b)"
  by (cases x) simp

lemma keeps_let [keep_intros]: "(\<And>y. keeps f (k y)) \<Longrightarrow> keeps f (let y = x in k y)"
  by simp

lemma keeps_for_each [keep_intros]: "(\<And>x. keeps f (g x)) \<Longrightarrow> keeps f (for_each g xs)"
  by (induction xs) (auto intro!: keep_intros)

lemma keeps_modify: "(\<And>w. f (g w) = f w) \<Longrightarrow> keeps f (modify g)"
  by (simp add: keeps_def)

section \<open>Programs that respect a relation between states\<close>

text \<open>
  \<open>obeys R m\<close>: running \<open>m\<close> leads from a state to a state related to it. For a
  reflexive and transitive \<open>R\<close> the property is compositional, which is all that the
  invariants, the frames and the trace properties of the components need. The locale is
  interpreted where such a relation is defined.
\<close>

definition obeys :: "('s \<Rightarrow> 's \<Rightarrow> bool) \<Rightarrow> ('s, 'a) state \<Rightarrow> bool" where
  "obeys R m \<longleftrightarrow> (\<forall>w. R w (post m w))"

lemma obeysD: "obeys R m \<Longrightarrow> run_state m w = (a, w') \<Longrightarrow> R w w'"
  by (metis obeys_def snd_conv)

lemma obeys_post: "obeys R m \<Longrightarrow> R w (post m w)"
  by (simp add: obeys_def)

lemma obeys_mono: "obeys R m \<Longrightarrow> (\<And>w w'. R w w' \<Longrightarrow> S w w') \<Longrightarrow> obeys S m"
  by (simp add: obeys_def)

locale step_rel =
  fixes R :: "'s \<Rightarrow> 's \<Rightarrow> bool"
  assumes refl: "R w w"
    and trans: "R u v \<Longrightarrow> R v w \<Longrightarrow> R u w"
begin

lemma r_return: "obeys R (ret a)"
  by (simp add: obeys_def refl)

lemma r_gets: "obeys R (gets f)"
  by (simp add: obeys_def refl)

lemma r_bind:
  "obeys R m \<Longrightarrow> (\<And>a. obeys R (f a)) \<Longrightarrow> obeys R (State_Monad.bind m f)"
  unfolding obeys_def by (auto simp: split_def intro: trans)

lemma r_if:
  "(b \<Longrightarrow> obeys R m) \<Longrightarrow> (\<not> b \<Longrightarrow> obeys R n) \<Longrightarrow> obeys R (if b then m else n)"
  by simp

lemma r_option:
  "obeys R m \<Longrightarrow> (\<And>y. x = Some y \<Longrightarrow> obeys R (f y))
    \<Longrightarrow> obeys R (case x of None \<Rightarrow> m | Some y \<Rightarrow> f y)"
  by (cases x) simp_all

lemma r_sum:
  "(\<And>y. obeys R (f y)) \<Longrightarrow> (\<And>y. obeys R (g y))
    \<Longrightarrow> obeys R (case x of Inl y \<Rightarrow> f y | Inr y \<Rightarrow> g y)"
  by (cases x) simp_all

lemma r_prod:
  "(\<And>a b. obeys R (f a b)) \<Longrightarrow> obeys R (case x of (a, b) \<Rightarrow> f a b)"
  by (cases x) simp

lemma r_let: "(\<And>y. obeys R (f y)) \<Longrightarrow> obeys R (let y = x in f y)"
  by simp

lemma r_for_each: "(\<And>x. obeys R (f x)) \<Longrightarrow> obeys R (for_each f xs)"
  by (induction xs) (auto intro: r_return r_bind)

lemmas rules = r_return r_gets r_bind r_if r_option r_sum r_prod r_let r_for_each

end

section \<open>C strings\<close>

text \<open>
  A C string is a \<^typ>\<open>string\<close> without its terminating NUL; a pointer that may be NULL is
  a \<^typ>\<open>string option\<close>. \<open>snprintf_n n s\<close> is what a buffer of \<open>n\<close> bytes holds after
  \<open>snprintf\<close> of the text \<open>s\<close>; \<open>printed p\<close> is what glibc prints for \<open>%s\<close> and the
  pointer \<open>p\<close>.
\<close>

type_synonym cptr = "string option"

definition PATH_MAX :: nat where
  "PATH_MAX = 4096"

definition snprintf_n :: "nat \<Rightarrow> string \<Rightarrow> string" where
  "snprintf_n n s = take (n - 1) s"

definition printed :: "cptr \<Rightarrow> string" where
  "printed p = (case p of None \<Rightarrow> ''(null)'' | Some s \<Rightarrow> s)"

lemma snprintf_n_id: "length s < n \<Longrightarrow> snprintf_n n s = s"
  by (simp add: snprintf_n_def)

lemma length_snprintf_n: "0 < n \<Longrightarrow> length (snprintf_n n s) < n"
  by (simp add: snprintf_n_def)

lemma printed_simps [simp]: "printed None = ''(null)''" "printed (Some s) = s"
  by (simp_all add: printed_def)

text \<open>ASCII case folding, as \<open>strcasecmp\<close> uses it in the C locale.\<close>

definition to_lower :: "char \<Rightarrow> char" where
  "to_lower c =
     (case map_of (zip ''ABCDEFGHIJKLMNOPQRSTUVWXYZ'' ''abcdefghijklmnopqrstuvwxyz'') c of
        None \<Rightarrow> c | Some d \<Rightarrow> d)"

definition strcaseeq :: "string \<Rightarrow> string \<Rightarrow> bool" where
  "strcaseeq a b \<longleftrightarrow> map to_lower a = map to_lower b"

lemma strcaseeq_refl [simp]: "strcaseeq a a"
  by (simp add: strcaseeq_def)

subsection \<open>Decimal numbers\<close>

definition digit :: "nat \<Rightarrow> char" where
  "digit d = char_of (48 + d)"

fun dec :: "nat \<Rightarrow> string" where
  "dec n = (if n < 10 then [digit n] else dec (n div 10) @ [digit (n mod 10)])"

declare dec.simps [simp del]

definition dec_int :: "int \<Rightarrow> string" where
  "dec_int i = (if i < 0 then CHR ''-'' # dec (nat (- i)) else dec (nat i))"

text \<open>\<open>pad k n\<close> is \<open>n\<close> printed with at least \<open>k\<close> digits, as \<open>%0kd\<close> does.\<close>

definition pad :: "nat \<Rightarrow> nat \<Rightarrow> string" where
  "pad k n = replicate (k - length (dec n)) (CHR ''0'') @ dec n"

definition digit_val :: "char \<Rightarrow> nat option" where
  "digit_val c = (let n = (of_char c :: nat) in if 48 \<le> n \<and> n \<le> 57 then Some (n - 48) else None)"

definition undec_step :: "nat \<Rightarrow> char \<Rightarrow> nat" where
  "undec_step a c = 10 * a + (case digit_val c of None \<Rightarrow> 0 | Some d \<Rightarrow> d)"

definition undec :: "string \<Rightarrow> nat" where
  "undec s = foldl undec_step 0 s"

lemma digit_val_digit [simp]: "d < 10 \<Longrightarrow> digit_val (digit d) = Some d"
  by (simp add: digit_val_def digit_def Let_def of_char_of take_bit_eq_mod)

lemma undec_step_digit [simp]: "d < 10 \<Longrightarrow> undec_step a (digit d) = 10 * a + d"
  by (simp add: undec_step_def)

lemma digit_simps [simp]:
  "digit 0 = CHR ''0''" "digit 1 = CHR ''1''" "digit (Suc 0) = CHR ''1''" "digit 2 = CHR ''2''"
  "digit 3 = CHR ''3''" "digit 4 = CHR ''4''" "digit 5 = CHR ''5''" "digit 6 = CHR ''6''"
  "digit 7 = CHR ''7''" "digit 8 = CHR ''8''" "digit 9 = CHR ''9''"
  by code_simp+

lemma undec_dec: "undec (dec n) = n"
  unfolding undec_def
proof (induction n rule: dec.induct)
  case (1 n)
  show ?case
  proof (cases "n < 10")
    case True
    then show ?thesis by (subst dec.simps) simp
  next
    case False
    with 1 show ?thesis by (subst dec.simps) simp
  qed
qed

lemma dec_inject [simp]: "dec m = dec n \<longleftrightarrow> m = n"
  by (metis undec_dec)

lemma dec_digits: "c \<in> set (dec n) \<Longrightarrow> \<exists>d < 10. c = digit d"
proof (induction n rule: dec.induct)
  case (1 n)
  then show ?case
    by (subst (asm) dec.simps) (auto split: if_splits intro: exI [of _ "n mod 10"])
qed

lemma dec_not_Nil [simp]: "dec n \<noteq> []"
  by (subst dec.simps) simp

lemma length_pad: "k \<le> length (pad k n)"
  by (simp add: pad_def)

section \<open>Paths\<close>

text \<open>
  The components of a path name: the names between slashes, without the empty ones and
  the \<open>.\<close> entries, which path resolution skips.
\<close>

fun split_slash :: "string \<Rightarrow> string list" where
  "split_slash [] = [[]]"
| "split_slash (c # cs) =
     (if c = CHR ''/'' then [] # split_slash cs
      else (case split_slash cs of [] \<Rightarrow> [[c]] | x # xs \<Rightarrow> (c # x) # xs))"

definition comps :: "string \<Rightarrow> string list" where
  "comps s = filter (\<lambda>c. c \<noteq> [] \<and> c \<noteq> ''.'') (split_slash s)"

definition absolute :: "string \<Rightarrow> bool" where
  "absolute s \<longleftrightarrow> (case s of [] \<Rightarrow> False | c # _ \<Rightarrow> c = CHR ''/'')"

text \<open>A name that is one ordinary component: no slash, not empty, not a dot entry.\<close>

definition plain_name :: "string \<Rightarrow> bool" where
  "plain_name s \<longleftrightarrow> comps s = [s] \<and> s \<noteq> ''..''"

lemma split_slash_not_Nil [simp]: "split_slash s \<noteq> []"
  by (cases s) (auto split: list.splits)

lemma split_slash_append: "split_slash (a @ CHR ''/'' # b) = split_slash a @ split_slash b"
  by (induction a) (auto split: list.splits)

lemma comps_append_slash: "comps (a @ CHR ''/'' # b) = comps a @ comps b"
  by (simp add: comps_def split_slash_append)

lemma comps_Nil [simp]: "comps [] = []"
  by (simp add: comps_def)

lemma absolute_append: "a \<noteq> [] \<Longrightarrow> absolute (a @ b) = absolute a"
  by (cases a) (simp_all add: absolute_def)

lemma plain_nameD: "plain_name s \<Longrightarrow> comps s = [s]"
  by (simp add: plain_name_def)

lemma plain_name_not_dotdot: "plain_name s \<Longrightarrow> s \<noteq> ''..''"
  by (simp add: plain_name_def)

end
