(* ===== verification/World.thy ===== *)
theory World
  imports Prelude "HOL-Library.AList"
begin

text \<open>
  The world the runtime runs in: the host's file system, the environment of the process,
  the standard streams and the kernel. None of this is code of the repository; it is the
  behaviour of the C library and of the system calls that the code uses.

  Two kinds of system call are distinguished. The calls of the state store and of the
  bundle loader (\<open>stat\<close>, \<open>mkdir\<close>, \<open>fopen\<close>, \<open>fwrite\<close>, \<open>fclose\<close>, \<open>unlink\<close>, \<open>rmdir\<close>) act on
  a concrete file system. All others (processes, mounts, namespaces, cgroup files) are
  answered by the kernel as it pleases. In both cases the kernel may refuse the call: the
  \<open>n\<close>-th call of a run asks an arbitrary oracle, which sees \<open>n\<close>, the process and the call, so a statement
  that holds for every oracle holds for every failure of every call. Each call is recorded,
  with the error it returned, in a trace.
\<close>

section \<open>Errors, calls and answers\<close>

datatype (plugins only: code) errno =
    EPERM | ENOENT | ESRCH | EINTR | EIO | ENOEXEC | EACCES | EBUSY | EEXIST | ENOTDIR
  | EISDIR | EINVAL | ENOSPC | ENOTEMPTY | EFAULT | ECHILD | ENOMEM | Errno nat

datatype signal = SIGTERM | SIGKILL | SIG0

text \<open>Which process makes a call: the runtime, the container's init, or the exec helper.\<close>

datatype proc = Runtime | Init | Helper

datatype (plugins only: code) call =
    Stat string
  | Mkdir string
  | FopenR string
  | FopenW string
  | Fseek string
  | Ftell string
  | Fread string
  | Fwrite string string
  | Fclose string
  | Unlink string
  | Rmdir string
  | Malloc
  | Access string
  | Open string
  | Write string string
  | Mount cptr string cptr "64 word" cptr
  | Mknod string "32 word" "64 word"
  | Symlink string string
  | PivotRoot string string
  | Chdir string
  | Umount string
  | Sethostname string
  | Setns "32 word" string
  | Setsid
  | Capng string
  | Setrlimit nat
  | Setgid "32 word"
  | Setuid "32 word"
  | Pipe
  | PipeWrite char
  | PipeRead
  | Clone "32 word"
  | Fork
  | Execve "cptr list" "cptr list"
  | Execvp string "cptr list"
  | Waitpid int
  | Kill int signal
  | Usleep nat

text \<open>
  One answer of the kernel: the error it refuses the call with, if any, and a number, which
  is the result of a call that returns one (a pid, a wait status) or, for a failing write,
  how many bytes still reached the file.
\<close>

record answer =
  a_err :: "errno option"
  a_val :: int

text \<open>
  What one line of the log is made of beside the arguments of the call: the wall clock and
  the text that \<open>vsnprintf\<close> makes of the format and its arguments.
\<close>

record log_input =
  l_hour :: nat
  l_min :: nat
  l_sec :: nat
  l_nsec :: nat
  l_text :: string

section \<open>Logging state\<close>

text \<open>
  The levels and roles of \<open>include/nk_log.h\<close>, and the globals of \<open>src/common/log.c\<close>
  together with the lines written to standard error so far.
\<close>

datatype nk_log_level = NK_LOG_DEBUG | NK_LOG_INFO | NK_LOG_WARN | NK_LOG_ERROR

datatype nk_log_role = NK_LOG_ROLE_HOST | NK_LOG_ROLE_PARENT | NK_LOG_ROLE_CHILD

record log_state =
  nk_log_level :: nk_log_level
  nk_log_enabled :: bool
  nk_log_educational :: bool
  nk_log_role :: nk_log_role
  nk_log_env_applied :: bool
  log_lines :: "string list"

section \<open>The world\<close>

datatype node = Dir | Reg string | Special

type_synonym fs = "(string list \<times> node) list"

text \<open>
  \<open>w_tty\<close>: standard error is a terminal. \<open>w_libcapng\<close>: the program was built with libcap-ng,
  a library whose calls the kernel's oracle answers as well.
\<close>

record world =
  w_fs :: fs
  w_cwd :: "string list"
  w_env :: "string \<Rightarrow> string option"
  w_euid :: nat
  w_tty :: bool
  w_libcapng :: bool
  w_oracle :: "nat \<Rightarrow> proc \<Rightarrow> call \<Rightarrow> answer"
  w_inputs :: "nat \<Rightarrow> log_input"
  w_calls :: nat
  w_trace :: "(proc \<times> call \<times> errno option) list"
  w_proc :: proc
  w_stdout :: "string list"
  w_log :: log_state

type_synonym 'a prog = "(world, 'a) state"

definition getenv :: "string \<Rightarrow> cptr prog" where
  "getenv k = gets (\<lambda>w. w_env w k)"

definition geteuid :: "nat prog" where
  "geteuid = gets w_euid"

definition printf_line :: "string \<Rightarrow> unit prog" where
  "printf_line s = modify (\<lambda>w. w\<lparr>w_stdout := w_stdout w @ [s]\<rparr>)"

text \<open>The calls of the state store and of the bundle loader.\<close>

fun store_call :: "call \<Rightarrow> bool" where
  "store_call (Stat p) = True" | "store_call (Mkdir p) = True" | "store_call (FopenR p) = True"
| "store_call (FopenW p) = True" | "store_call (Fseek p) = True" | "store_call (Ftell p) = True"
| "store_call (Fread p) = True" | "store_call (Fwrite p s) = True"
| "store_call (Fclose p) = True" | "store_call (Unlink p) = True" | "store_call (Rmdir p) = True"
| "store_call Malloc = True" | "store_call _ = False"

text \<open>The kernel refuses no call.\<close>

definition faultless :: "world \<Rightarrow> bool" where
  "faultless w \<longleftrightarrow> (\<forall>n p c. a_err (w_oracle w n p c) = None)"

text \<open>
  The runtime is running and the kernel refuses it none of the calls of the store; every
  other call, and every call of another process, may still fail.
\<close>

definition reliable :: "world \<Rightarrow> bool" where
  "reliable w \<longleftrightarrow> w_proc w = Runtime \<and>
     (\<forall>n c. store_call c \<longrightarrow> a_err (w_oracle w n Runtime c) = None)"

section \<open>Making a call\<close>

text \<open>
  \<open>tick c e w\<close> is the world after the call \<open>c\<close> returned the error \<open>e\<close> (or none).
  \<open>syscall c f\<close> makes the call: the kernel's answer refuses it, or \<open>f\<close> gives the result
  and the new file system.
\<close>

definition tick :: "call \<Rightarrow> errno option \<Rightarrow> world \<Rightarrow> world" where
  "tick c e w = w\<lparr>w_calls := Suc (w_calls w), w_trace := w_trace w @ [(w_proc w, c, e)]\<rparr>"

definition next_answer :: "call \<Rightarrow> world \<Rightarrow> answer" where
  "next_answer c w = w_oracle w (w_calls w) (w_proc w) c"

fun err_of :: "errno + 'a \<Rightarrow> errno option" where
  "err_of (Inl e) = Some e"
| "err_of (Inr _) = None"

definition syscall ::
  "call \<Rightarrow> (world \<Rightarrow> (errno + 'a) \<times> fs) \<Rightarrow> (world \<Rightarrow> errno \<Rightarrow> fs) \<Rightarrow> (errno + 'a) prog" where
  "syscall c f g = State (\<lambda>w.
     let (r, fs) = (case a_err (next_answer c w) of
                      Some e \<Rightarrow> (Inl e, g w e)
                    | None \<Rightarrow> f w)
     in (r, (tick c (err_of r) w)\<lparr>w_fs := fs\<rparr>))"

text \<open>A call answered by the kernel alone.\<close>

definition kernel :: "call \<Rightarrow> (errno + int) prog" where
  "kernel c = syscall c (\<lambda>w. (Inr (a_val (next_answer c w)), w_fs w)) (\<lambda>w _. w_fs w)"

text \<open>\<open>malloc\<close>, \<open>calloc\<close>, \<open>asprintf\<close> and \<open>json_object\<close>: False when they return NULL.\<close>

definition alloc :: "bool prog" where
  "alloc = do { r \<leftarrow> kernel Malloc; ret (case r of Inl _ \<Rightarrow> False | Inr _ \<Rightarrow> True) }"

text \<open>\<open>strdup\<close>: NULL when the allocation fails.\<close>

definition strdup :: "cptr \<Rightarrow> cptr prog" where
  "strdup s = do { ok \<leftarrow> alloc; ret (if ok then s else None) }"

section \<open>The file system\<close>

text \<open>
  A file system maps resolved paths (component lists from the root) to nodes. The root is
  always a directory. \<open>walk\<close> resolves a path as the kernel does: every name but the last
  must lead through an existing directory.
\<close>

definition node_at :: "fs \<Rightarrow> string list \<Rightarrow> node option" where
  "node_at fs k = (if k = [] then Some Dir else map_of fs k)"

fun walk :: "fs \<Rightarrow> string list \<Rightarrow> string list \<Rightarrow> errno + string list" where
  "walk fs cur [] = Inr cur"
| "walk fs cur (c # cs) =
     (case node_at fs cur of
        None \<Rightarrow> Inl ENOENT
      | Some Dir \<Rightarrow> walk fs (if c = ''..'' then butlast cur else cur @ [c]) cs
      | Some _ \<Rightarrow> Inl ENOTDIR)"

definition start_of :: "world \<Rightarrow> string \<Rightarrow> string list" where
  "start_of w p = (if absolute p then [] else w_cwd w)"

definition resolve :: "world \<Rightarrow> string \<Rightarrow> errno + string list" where
  "resolve w p =
     (let b = start_of w p in
      if p = [] \<or> (comps p = [] \<and> node_at (w_fs w) b = None) then Inl ENOENT
      else walk (w_fs w) b (comps p))"

definition lookup :: "world \<Rightarrow> string \<Rightarrow> errno + node" where
  "lookup w p =
     (case resolve w p of
        Inl e \<Rightarrow> Inl e
      | Inr k \<Rightarrow> (case node_at (w_fs w) k of None \<Rightarrow> Inl ENOENT | Some nd \<Rightarrow> Inr nd))"

definition put_node :: "string list \<Rightarrow> node \<Rightarrow> fs \<Rightarrow> fs" where
  "put_node k nd fs = AList.update k nd fs"

definition del_node :: "string list \<Rightarrow> fs \<Rightarrow> fs" where
  "del_node k fs = AList.delete k fs"

definition has_child :: "fs \<Rightarrow> string list \<Rightarrow> bool" where
  "has_child fs k \<longleftrightarrow> list_ex (\<lambda>(p, _). p \<noteq> [] \<and> butlast p = k) fs"

definition append_file :: "string list \<Rightarrow> string \<Rightarrow> fs \<Rightarrow> fs" where
  "append_file k s fs = (case node_at fs k of Some (Reg old) \<Rightarrow> put_node k (Reg (old @ s)) fs | _ \<Rightarrow> fs)"

definition cut_file :: "string list \<Rightarrow> nat \<Rightarrow> fs \<Rightarrow> fs" where
  "cut_file k n fs = (case node_at fs k of Some (Reg old) \<Rightarrow> put_node k (Reg (take n old)) fs | _ \<Rightarrow> fs)"

definition sys_stat :: "string \<Rightarrow> (errno + node) prog" where
  "sys_stat p = syscall (Stat p) (\<lambda>w. (lookup w p, w_fs w)) (\<lambda>w _. w_fs w)"

definition sys_mkdir :: "string \<Rightarrow> (errno + unit) prog" where
  "sys_mkdir p = syscall (Mkdir p) (\<lambda>w.
     case resolve w p of
       Inl e \<Rightarrow> (Inl e, w_fs w)
     | Inr k \<Rightarrow> (case node_at (w_fs w) k of
                  Some _ \<Rightarrow> (Inl EEXIST, w_fs w)
                | None \<Rightarrow> (Inr (), put_node k Dir (w_fs w)))) (\<lambda>w _. w_fs w)"

definition sys_unlink :: "string \<Rightarrow> (errno + unit) prog" where
  "sys_unlink p = syscall (Unlink p) (\<lambda>w.
     case resolve w p of
       Inl e \<Rightarrow> (Inl e, w_fs w)
     | Inr k \<Rightarrow> (case node_at (w_fs w) k of
                  None \<Rightarrow> (Inl ENOENT, w_fs w)
                | Some Dir \<Rightarrow> (Inl EISDIR, w_fs w)
                | Some _ \<Rightarrow> (Inr (), del_node k (w_fs w)))) (\<lambda>w _. w_fs w)"

definition sys_rmdir :: "string \<Rightarrow> (errno + unit) prog" where
  "sys_rmdir p = syscall (Rmdir p) (\<lambda>w.
     case resolve w p of
       Inl e \<Rightarrow> (Inl e, w_fs w)
     | Inr k \<Rightarrow> (case node_at (w_fs w) k of
                  None \<Rightarrow> (Inl ENOENT, w_fs w)
                | Some Dir \<Rightarrow>
                    if k = [] then (Inl EBUSY, w_fs w)
                    else if has_child (w_fs w) k then (Inl ENOTEMPTY, w_fs w)
                    else (Inr (), del_node k (w_fs w))
                | Some _ \<Rightarrow> (Inl ENOTDIR, w_fs w))) (\<lambda>w _. w_fs w)"

text \<open>
  A stream opened for reading is the contents of the file; reading a directory fails with
  EISDIR, and a failing read delivers only a prefix. A stream opened for writing is the
  resolved path of the file, which opening creates or truncates. What is written is
  buffered: a write that is reported as done may still be lost when \<open>fclose\<close> flushes the
  buffer, so a refused \<open>fwrite\<close> or \<open>fclose\<close> leaves a prefix in the file.
\<close>

definition sys_fopen_r :: "string \<Rightarrow> (errno + node) prog" where
  "sys_fopen_r p = syscall (FopenR p) (\<lambda>w. (lookup w p, w_fs w)) (\<lambda>w _. w_fs w)"

text \<open>
  \<open>fseek\<close> and \<open>ftell\<close> at the end of a stream: a regular file has its length, a directory
  reports \<open>LONG_MAX\<close>, as on ext4, and a stream that cannot be positioned has no offset.
\<close>

definition LONG_MAX :: int where
  "LONG_MAX = 9223372036854775807"

fun end_offset :: "node \<Rightarrow> errno + int" where
  "end_offset (Reg s) = Inr (int (length s))"
| "end_offset Dir = Inr LONG_MAX"
| "end_offset Special = Inl EINVAL"

definition sys_fseek :: "string \<Rightarrow> node \<Rightarrow> (errno + int) prog" where
  "sys_fseek p nd = syscall (Fseek p) (\<lambda>w. (end_offset nd, w_fs w)) (\<lambda>w _. w_fs w)"

definition sys_ftell :: "string \<Rightarrow> node \<Rightarrow> (errno + int) prog" where
  "sys_ftell p nd = syscall (Ftell p) (\<lambda>w. (end_offset nd, w_fs w)) (\<lambda>w _. w_fs w)"

definition sys_fread :: "string \<Rightarrow> node \<Rightarrow> (errno + string) prog" where
  "sys_fread p nd = syscall (Fread p) (\<lambda>w.
     (case nd of Reg s \<Rightarrow> Inr s | Dir \<Rightarrow> Inl EISDIR | Special \<Rightarrow> Inl EIO, w_fs w)) (\<lambda>w _. w_fs w)"

definition sys_fopen_w :: "string \<Rightarrow> (errno + string list) prog" where
  "sys_fopen_w p = syscall (FopenW p) (\<lambda>w.
     case resolve w p of
       Inl e \<Rightarrow> (Inl e, w_fs w)
     | Inr k \<Rightarrow> (case node_at (w_fs w) k of
                  Some Dir \<Rightarrow> (Inl EISDIR, w_fs w)
                | Some Special \<Rightarrow> (Inr k, w_fs w)
                | _ \<Rightarrow> (Inr k, put_node k (Reg []) (w_fs w)))) (\<lambda>w _. w_fs w)"

definition sys_fwrite :: "string \<Rightarrow> string list \<Rightarrow> string \<Rightarrow> (errno + unit) prog" where
  "sys_fwrite p k s = syscall (Fwrite p s) (\<lambda>w. (Inr (), append_file k s (w_fs w)))
     (\<lambda>w _. append_file k (take (nat (a_val (next_answer (Fwrite p s) w))) s) (w_fs w))"

definition sys_fclose_w :: "string \<Rightarrow> string list \<Rightarrow> (errno + unit) prog" where
  "sys_fclose_w p k = syscall (Fclose p) (\<lambda>w. (Inr (), w_fs w))
     (\<lambda>w _. cut_file k (nat (a_val (next_answer (Fclose p) w))) (w_fs w))"

section \<open>Laws of the calls\<close>

lemma tick_simps [simp]:
  "w_fs (tick c e w) = w_fs w" "w_cwd (tick c e w) = w_cwd w" "w_env (tick c e w) = w_env w"
  "w_euid (tick c e w) = w_euid w" "w_oracle (tick c e w) = w_oracle w"
  "w_inputs (tick c e w) = w_inputs w" "w_calls (tick c e w) = Suc (w_calls w)"
  "w_trace (tick c e w) = w_trace w @ [(w_proc w, c, e)]" "w_proc (tick c e w) = w_proc w"
  "w_stdout (tick c e w) = w_stdout w" "w_log (tick c e w) = w_log w"
  "w_tty (tick c e w) = w_tty w" "w_libcapng (tick c e w) = w_libcapng w"
  by (simp_all add: tick_def)

lemma tick_same_fs [simp]: "(tick c e w)\<lparr>w_fs := w_fs w\<rparr> = tick c e w"
  by (simp add: tick_def)

lemma run_syscall:
  "run_state (syscall c f g) w =
     (let (r, fs) = (case a_err (next_answer c w) of Some e \<Rightarrow> (Inl e, g w e) | None \<Rightarrow> f w)
      in (r, (tick c (err_of r) w)\<lparr>w_fs := fs\<rparr>))"
  by (simp add: syscall_def)

lemma wp_syscall:
  assumes "\<And>e. a_err (next_answer c w) = Some e \<Longrightarrow> Q (Inl e) ((tick c (Some e) w)\<lparr>w_fs := g w e\<rparr>)"
    and "\<And>r fs. a_err (next_answer c w) = None \<Longrightarrow> f w = (r, fs) \<Longrightarrow>
      Q r ((tick c (err_of r) w)\<lparr>w_fs := fs\<rparr>)"
  shows "wp (syscall c f g) Q w"
  using assms by (auto simp: wp_def run_syscall Let_def split: option.splits prod.splits)

lemma wp_kernel [wp_intros]:
  assumes "\<And>e. Q (Inl e) (tick c (Some e) w)" and "\<And>v. Q (Inr v) (tick c None w)"
  shows "wp (kernel c) Q w"
  unfolding kernel_def by (intro wp_syscall) (auto simp: assms)

lemma wp_kernel_val:
  "(\<And>e. Q (Inl e) (tick c (Some e) w)) \<Longrightarrow> Q (Inr (a_val (next_answer c w))) (tick c None w) \<Longrightarrow> wp (kernel c) Q w"
  unfolding kernel_def by (intro wp_syscall) auto

text \<open>Everything but the file system, the call counter and the trace is framed.\<close>

lemma keeps_syscall:
  "(\<And>w c e fs. f ((tick c e w)\<lparr>w_fs := fs\<rparr>) = f w) \<Longrightarrow> keeps f (syscall c h g)"
  by (auto simp: keeps_def run_syscall Let_def split: option.splits prod.splits)

lemmas sys_defs =
  sys_stat_def sys_mkdir_def sys_unlink_def sys_rmdir_def sys_fopen_r_def sys_fread_def
  sys_fopen_w_def sys_fwrite_def sys_fclose_w_def sys_fseek_def sys_ftell_def

lemma faultless_tick [simp]: "faultless (tick c e w) = faultless w"
  by (simp add: faultless_def)

lemma faultless_answer [simp]: "faultless w \<Longrightarrow> a_err (next_answer c w) = None"
  by (simp add: faultless_def next_answer_def)

lemma reliable_tick [simp]: "reliable (tick c e w) = reliable w"
  by (simp add: reliable_def)

lemma reliable_answer [simp]: "reliable w \<Longrightarrow> store_call c \<Longrightarrow> a_err (next_answer c w) = None"
  by (simp add: reliable_def next_answer_def)

lemma faultless_reliable: "faultless w \<Longrightarrow> w_proc w = Runtime \<Longrightarrow> reliable w"
  by (simp add: faultless_def reliable_def)

subsection \<open>Nodes\<close>

lemma node_at_Nil [simp]: "node_at fs [] = Some Dir"
  by (simp add: node_at_def)

lemma node_at_put [simp]:
  "k \<noteq> [] \<Longrightarrow> node_at (put_node k nd fs) k' = (if k' = k then Some nd else node_at fs k')"
  by (simp add: node_at_def put_node_def update_conv')

lemma node_at_del [simp]:
  "k \<noteq> [] \<Longrightarrow> node_at (del_node k fs) k' = (if k' = k then None else node_at fs k')"
  by (simp add: node_at_def del_node_def delete_conv')

lemma has_child_iff: "has_child fs k \<longleftrightarrow> (\<exists>x. node_at fs (k @ [x]) \<noteq> None)"
proof
  assume "has_child fs k"
  then obtain p nd where p: "(p, nd) \<in> set fs" "p \<noteq> []" "butlast p = k"
    by (auto simp: has_child_def list_ex_iff)
  then have k: "k @ [last p] = p" by auto
  from p(1) have "p \<in> fst ` set fs" by force
  then have "map_of fs (k @ [last p]) \<noteq> None"
    by (simp add: k map_of_eq_None_iff)
  then show "\<exists>x. node_at fs (k @ [x]) \<noteq> None"
    by (auto simp: node_at_def)
next
  assume "\<exists>x. node_at fs (k @ [x]) \<noteq> None"
  then obtain x nd where "map_of fs (k @ [x]) = Some nd"
    by (auto simp: node_at_def)
  then have "(k @ [x], nd) \<in> set fs" by (rule map_of_SomeD)
  then show "has_child fs k"
    by (force simp: has_child_def list_ex_iff)
qed

text \<open>
  Resolution of a path without \<open>..\<close>: it ends at the path itself, if every proper prefix
  is a directory.
\<close>

definition dirs_upto :: "fs \<Rightarrow> string list \<Rightarrow> string list \<Rightarrow> bool" where
  "dirs_upto fs b cs \<longleftrightarrow> (\<forall>n < length cs. node_at fs (b @ take n cs) = Some Dir)"

lemma dirs_upto_Nil [simp]: "dirs_upto fs b []"
  by (simp add: dirs_upto_def)

lemma dirs_upto_Cons:
  "dirs_upto fs b (c # cs) \<longleftrightarrow> node_at fs b = Some Dir \<and> dirs_upto fs (b @ [c]) cs"
  unfolding dirs_upto_def by (auto simp: less_Suc_eq_0_disj)

lemma dirs_upto_append:
  "dirs_upto fs b (cs @ ds) \<longleftrightarrow> dirs_upto fs b cs \<and> dirs_upto fs (b @ cs) ds"
  by (induction cs arbitrary: b) (auto simp: dirs_upto_Cons)

lemma walk_Inr:
  "''..'' \<notin> set cs \<Longrightarrow> walk fs b cs = Inr k \<longleftrightarrow> dirs_upto fs b cs \<and> k = b @ cs"
  by (induction cs arbitrary: b) (auto simp: dirs_upto_Cons split: option.splits node.splits)

lemma walk_eq: "''..'' \<notin> set cs \<Longrightarrow> dirs_upto fs b cs \<Longrightarrow> walk fs b cs = Inr (b @ cs)"
  by (simp add: walk_Inr)

lemma walk_append:
  "walk fs b (cs @ [c]) =
     (case walk fs b cs of
        Inl e \<Rightarrow> Inl e
      | Inr cur \<Rightarrow> walk fs cur [c])"
  by (induction cs arbitrary: b) (auto split: option.splits node.splits)

text \<open>All directories on the way, the end included.\<close>

definition all_dirs :: "fs \<Rightarrow> string list \<Rightarrow> string list \<Rightarrow> bool" where
  "all_dirs fs b cs \<longleftrightarrow> dirs_upto fs b cs \<and> node_at fs (b @ cs) = Some Dir"

lemma all_dirs_snoc: "all_dirs fs b (cs @ [c]) \<longleftrightarrow> all_dirs fs b cs \<and> node_at fs (b @ cs @ [c]) = Some Dir"
  by (auto simp: all_dirs_def dirs_upto_append dirs_upto_Cons)

lemma dirs_upto_snoc: "dirs_upto fs b (cs @ [c]) \<longleftrightarrow> all_dirs fs b cs"
  by (auto simp: all_dirs_def dirs_upto_append dirs_upto_Cons)

lemma all_dirs_Nil [simp]: "all_dirs fs b [] \<longleftrightarrow> node_at fs b = Some Dir"
  by (simp add: all_dirs_def)

section \<open>The tree invariant and growth\<close>

text \<open>
  Every node but the root stands in a directory. Every call keeps this. \<open>grows\<close> says that
  a program at most creates directories.
\<close>

definition fs_wf :: "fs \<Rightarrow> bool" where
  "fs_wf fs \<longleftrightarrow> (\<forall>k x. node_at fs (k @ [x]) \<noteq> None \<longrightarrow> node_at fs k = Some Dir)"

definition grows :: "fs \<Rightarrow> fs \<Rightarrow> bool" where
  "grows fs fs' \<longleftrightarrow> (\<forall>k. node_at fs' k = node_at fs k \<or> (node_at fs k = None \<and> node_at fs' k = Some Dir))"

lemma grows_refl [simp]: "grows fs fs"
  by (simp add: grows_def)

lemma grows_trans: "grows a b \<Longrightarrow> grows b c \<Longrightarrow> grows a c"
  unfolding grows_def by metis

lemma grows_put: "k \<noteq> [] \<Longrightarrow> node_at fs k = None \<Longrightarrow> grows fs (put_node k Dir fs)"
  by (simp add: grows_def)

lemma grows_Some: "grows fs fs' \<Longrightarrow> node_at fs k = Some nd \<Longrightarrow> node_at fs' k = Some nd"
  unfolding grows_def by (metis option.distinct(1))

lemma grows_file: "grows fs fs' \<Longrightarrow> node_at fs' k = Some nd \<Longrightarrow> nd \<noteq> Dir \<Longrightarrow> node_at fs k = Some nd"
  unfolding grows_def by (metis option.inject)

lemma grows_dirs_upto: "grows fs fs' \<Longrightarrow> dirs_upto fs b cs \<Longrightarrow> dirs_upto fs' b cs"
  unfolding dirs_upto_def by (blast intro: grows_Some)

lemma grows_all_dirs: "grows fs fs' \<Longrightarrow> all_dirs fs b cs \<Longrightarrow> all_dirs fs' b cs"
  unfolding all_dirs_def by (blast intro: grows_Some grows_dirs_upto)

lemma fs_wf_parent: "fs_wf fs \<Longrightarrow> node_at fs (k @ [x]) = Some nd \<Longrightarrow> node_at fs k = Some Dir"
  by (auto simp: fs_wf_def)

lemma fs_wf_butlast: "fs_wf fs \<Longrightarrow> node_at fs k = Some nd \<Longrightarrow> node_at fs (butlast k) = Some Dir"
  by (cases k rule: rev_cases) (auto dest: fs_wf_parent)

lemma fs_wf_no_child:
  "fs_wf fs \<Longrightarrow> node_at fs k \<noteq> Some Dir \<Longrightarrow> node_at fs (k @ [x]) = None"
  unfolding fs_wf_def by blast

lemma fs_wf_dirs_upto:
  "fs_wf fs \<Longrightarrow> node_at fs (b @ cs) = Some nd \<Longrightarrow> dirs_upto fs b cs"
proof (induction cs arbitrary: nd rule: rev_induct)
  case Nil
  then show ?case by simp
next
  case (snoc c cs)
  then have "node_at fs (b @ cs) = Some Dir"
    using fs_wf_parent [of fs "b @ cs" c nd] by simp
  with snoc show ?case by (simp add: dirs_upto_snoc all_dirs_def)
qed

lemma fs_wf_put:
  assumes "fs_wf fs" and "k \<noteq> []" and "node_at fs (butlast k) = Some Dir" and "node_at fs k \<noteq> Some Dir"
  shows "fs_wf (put_node k nd fs)"
proof -
  have none: "node_at fs (k @ [x]) = None" for x
    using assms(1,4) by (rule fs_wf_no_child)
  show ?thesis
    unfolding fs_wf_def
  proof (intro allI impI)
    fix p x
    assume "node_at (put_node k nd fs) (p @ [x]) \<noteq> None"
    then have x: "p @ [x] = k \<or> node_at fs (p @ [x]) \<noteq> None"
      using assms(2) by (auto split: if_splits)
    have "p \<noteq> k" if "node_at fs (p @ [x]) \<noteq> None" using none that by auto
    moreover have "node_at fs p = Some Dir"
      using x assms(1,3) by (auto simp: fs_wf_def)
    ultimately show "node_at (put_node k nd fs) p = Some Dir"
      using x assms(2) by auto
  qed
qed

lemma fs_wf_del:
  assumes "fs_wf fs" and "k \<noteq> []" and "\<And>x. node_at fs (k @ [x]) = None"
  shows "fs_wf (del_node k fs)"
  using assms by (auto simp: fs_wf_def)

text \<open>What resolution promises about the node it ends at.\<close>

lemma walk_new:
  assumes "walk fs b cs = Inr k" and "cs \<noteq> []" and "fs_wf fs" and "node_at fs k = None"
  shows "k \<noteq> [] \<and> node_at fs (butlast k) = Some Dir"
proof -
  obtain ds c where cs: "cs = ds @ [c]" using assms(2) by (metis rev_exhaust)
  with assms(1) obtain cur where cur: "walk fs b ds = Inr cur" "walk fs cur [c] = Inr k"
    by (auto simp: walk_append split: sum.splits)
  then have dir: "node_at fs cur = Some Dir" and k: "k = (if c = ''..'' then butlast cur else cur @ [c])"
    by (auto split: option.splits node.splits)
  from dir have "node_at fs (butlast cur) = Some Dir" by (rule fs_wf_butlast [OF assms(3)])
  with k dir assms(4) show ?thesis by (auto split: if_splits)
qed

lemma resolve_new:
  assumes "resolve w p = Inr k" and "fs_wf (w_fs w)" and "node_at (w_fs w) k = None"
  shows "k \<noteq> [] \<and> node_at (w_fs w) (butlast k) = Some Dir"
proof -
  have "walk (w_fs w) (start_of w p) (comps p) = Inr k" "comps p \<noteq> []"
    using assms by (auto simp: resolve_def Let_def split: if_splits)
  with assms(2,3) show ?thesis by (blast dest: walk_new)
qed

text \<open>Writing a file does not change how its own path, or any other, resolves.\<close>

lemma walk_put_file:
  assumes "walk fs b cs = Inr k'" and "node_at fs k \<noteq> Some Dir" and "k \<noteq> []" and "nd \<noteq> Dir"
  shows "walk (put_node k nd fs) b cs = Inr k'"
  using assms by (induction cs arbitrary: b) (auto split: option.splits node.splits)

lemma resolve_put_file:
  assumes "resolve w p = Inr k'" and "node_at (w_fs w) k \<noteq> Some Dir" and "k \<noteq> []" and "nd \<noteq> Dir"
    and "w_cwd w' = w_cwd w" and "w_fs w' = put_node k nd (w_fs w)"
  shows "resolve w' p = Inr k'"
  using assms walk_put_file [of "w_fs w" "start_of w p" "comps p" k' k nd]
  by (auto simp: resolve_def start_of_def Let_def split: if_splits)

section \<open>The relations every program obeys\<close>

text \<open>
  \<open>same_fs\<close>: the file system stays. \<open>tree_rel\<close>: the tree invariant is kept. \<open>grow_rel\<close>: moreover the program creates at
  most directories. \<open>static_rel\<close>: the surroundings of the process (environment, working
  directory, identity, kernel) stay. \<open>calls_rel C\<close>: the trace grows, by calls in \<open>C\<close> only.
\<close>

definition same_fs :: "world \<Rightarrow> world \<Rightarrow> bool" where
  "same_fs w w' \<longleftrightarrow> w_fs w' = w_fs w"

definition tree_rel :: "world \<Rightarrow> world \<Rightarrow> bool" where
  "tree_rel w w' \<longleftrightarrow> (fs_wf (w_fs w) \<longrightarrow> fs_wf (w_fs w'))"

definition grow_rel :: "world \<Rightarrow> world \<Rightarrow> bool" where
  "grow_rel w w' \<longleftrightarrow> (fs_wf (w_fs w) \<longrightarrow> fs_wf (w_fs w') \<and> grows (w_fs w) (w_fs w'))"

definition static_rel :: "world \<Rightarrow> world \<Rightarrow> bool" where
  "static_rel w w' \<longleftrightarrow> w_cwd w' = w_cwd w \<and> w_env w' = w_env w \<and> w_euid w' = w_euid w
     \<and> w_tty w' = w_tty w \<and> w_libcapng w' = w_libcapng w \<and> w_proc w' = w_proc w
     \<and> w_oracle w' = w_oracle w \<and> w_inputs w' = w_inputs w"

definition calls_rel :: "(call \<Rightarrow> bool) \<Rightarrow> world \<Rightarrow> world \<Rightarrow> bool" where
  "calls_rel C w w' \<longleftrightarrow> (\<exists>es. w_trace w' = w_trace w @ es \<and> list_all (\<lambda>(_, c, _). C c) es)"

interpretation same: step_rel same_fs
  by unfold_locales (simp_all add: same_fs_def)

interpretation tree: step_rel tree_rel
  by unfold_locales (auto simp: tree_rel_def)

interpretation grow: step_rel grow_rel
  by unfold_locales (auto simp: grow_rel_def intro: grows_trans)

interpretation static: step_rel static_rel
  by unfold_locales (auto simp: static_rel_def)

interpretation calls: step_rel "calls_rel C" for C
  by unfold_locales (fastforce simp: calls_rel_def)+

named_theorems same_intros \<open>programs that leave the file system alone\<close>
named_theorems tree_intros \<open>programs that keep the tree invariant\<close>
named_theorems grow_intros \<open>programs that only create directories\<close>
named_theorems static_intros \<open>programs that keep the surroundings\<close>
named_theorems calls_intros \<open>programs that make certain calls only\<close>

declare same.rules [same_intros] tree.rules [tree_intros] grow.rules [grow_intros] static.rules [static_intros]
  calls.rules [calls_intros]

lemma grow_tree: "obeys grow_rel m \<Longrightarrow> obeys tree_rel m"
  by (erule obeys_mono) (auto simp: grow_rel_def tree_rel_def)

lemma calls_mono: "obeys (calls_rel C) m \<Longrightarrow> (\<And>c. C c \<Longrightarrow> D c) \<Longrightarrow> obeys (calls_rel D) m"
  by (erule obeys_mono) (auto simp: calls_rel_def elim!: list.pred_mono_strong)

lemma static_faultless: "static_rel w w' \<Longrightarrow> faultless w' = faultless w"
  by (simp add: static_rel_def faultless_def)

lemma static_reliable: "static_rel w w' \<Longrightarrow> reliable w' = reliable w"
  by (simp add: static_rel_def reliable_def)

text \<open>Every call obeys them.\<close>

lemma obeys_syscall:
  assumes "\<And>w e. R w ((tick c (Some e) w)\<lparr>w_fs := g w e\<rparr>)"
    and "\<And>w r fs. f w = (r, fs) \<Longrightarrow> R w ((tick c (err_of r) w)\<lparr>w_fs := fs\<rparr>)"
  shows "obeys R (syscall c f g)"
  using assms
  by (auto simp: obeys_def run_syscall Let_def split: option.splits prod.splits)

lemma static_syscall: "obeys static_rel (syscall c f g)"
  by (rule obeys_syscall) (simp_all add: static_rel_def)

lemma calls_syscall: "C c \<Longrightarrow> obeys (calls_rel C) (syscall c f g)"
  by (rule obeys_syscall) (simp_all add: calls_rel_def)

lemma static_kernel: "obeys static_rel (kernel c)"
  unfolding kernel_def by (rule static_syscall)

lemma calls_kernel: "C c \<Longrightarrow> obeys (calls_rel C) (kernel c)"
  unfolding kernel_def by (rule calls_syscall)

lemma grow_kernel: "obeys grow_rel (kernel c)"
  unfolding kernel_def by (rule obeys_syscall) (auto simp: grow_rel_def)

lemma run_kernel:
  "run_state (kernel c) w =
     (case a_err (next_answer c w) of
        Some e \<Rightarrow> (Inl e, tick c (Some e) w)
      | None \<Rightarrow> (Inr (a_val (next_answer c w)), tick c None w))"
  by (simp add: kernel_def run_syscall split: option.splits)

lemmas fs_calls = sys_stat_def sys_mkdir_def sys_unlink_def sys_rmdir_def sys_fopen_r_def
  sys_fread_def sys_fopen_w_def sys_fwrite_def sys_fclose_w_def sys_fseek_def sys_ftell_def

lemma static_fs_calls:
  "obeys static_rel (sys_stat p)" "obeys static_rel (sys_mkdir p)"
  "obeys static_rel (sys_unlink p)" "obeys static_rel (sys_rmdir p)"
  "obeys static_rel (sys_fopen_r p)" "obeys static_rel (sys_fread p nd)"
  "obeys static_rel (sys_fopen_w p)" "obeys static_rel (sys_fwrite p k s)"
  "obeys static_rel (sys_fclose_w p k)" "obeys static_rel (sys_fseek p nd)" "obeys static_rel (sys_ftell p nd)"
  unfolding fs_calls by (rule static_syscall)+

lemma calls_fs_calls:
  "C (Stat p) \<Longrightarrow> obeys (calls_rel C) (sys_stat p)"
  "C (Mkdir p) \<Longrightarrow> obeys (calls_rel C) (sys_mkdir p)"
  "C (Unlink p) \<Longrightarrow> obeys (calls_rel C) (sys_unlink p)"
  "C (Rmdir p) \<Longrightarrow> obeys (calls_rel C) (sys_rmdir p)"
  "C (FopenR p) \<Longrightarrow> obeys (calls_rel C) (sys_fopen_r p)"
  "C (Fread p) \<Longrightarrow> obeys (calls_rel C) (sys_fread p nd)"
  "C (FopenW p) \<Longrightarrow> obeys (calls_rel C) (sys_fopen_w p)"
  "C (Fwrite p s) \<Longrightarrow> obeys (calls_rel C) (sys_fwrite p k s)"
  "C (Fclose p) \<Longrightarrow> obeys (calls_rel C) (sys_fclose_w p k)"
  "C (Fseek p) \<Longrightarrow> obeys (calls_rel C) (sys_fseek p nd)"
  "C (Ftell p) \<Longrightarrow> obeys (calls_rel C) (sys_ftell p nd)"
  unfolding fs_calls by (simp_all add: calls_syscall)

lemma grow_fs_calls:
  "obeys grow_rel (sys_stat p)" "obeys grow_rel (sys_fopen_r p)"
  "obeys grow_rel (sys_fread p nd)" "obeys grow_rel (sys_mkdir p)"
  "obeys grow_rel (sys_fseek p nd)" "obeys grow_rel (sys_ftell p nd)"
proof -
  show "obeys grow_rel (sys_stat p)" "obeys grow_rel (sys_fopen_r p)"
    "obeys grow_rel (sys_fread p nd)" "obeys grow_rel (sys_fseek p nd)" "obeys grow_rel (sys_ftell p nd)"
    unfolding fs_calls by (rule obeys_syscall; auto simp: grow_rel_def)+
  show "obeys grow_rel (sys_mkdir p)"
    unfolding fs_calls
    by (rule obeys_syscall)
      (auto simp: grow_rel_def grows_put fs_wf_put dest: resolve_new
        split: sum.splits option.splits)
qed

lemma node_append_file:
  "node_at (append_file k s fs) k' =
     (case node_at fs k of
        Some (Reg old) \<Rightarrow> if k' = k then Some (Reg (old @ s)) else node_at fs k'
      | _ \<Rightarrow> node_at fs k')"
  by (cases "k = []") (auto simp: append_file_def split: option.splits node.splits)

lemma node_cut_file:
  "node_at (cut_file k n fs) k' =
     (case node_at fs k of
        Some (Reg old) \<Rightarrow> if k' = k then Some (Reg (take n old)) else node_at fs k'
      | _ \<Rightarrow> node_at fs k')"
  by (cases "k = []") (auto simp: cut_file_def split: option.splits node.splits)

lemma fs_wf_file_edit:
  assumes "fs_wf fs"
  shows "fs_wf (append_file k s fs)" "fs_wf (cut_file k n fs)"
proof -
  have *: "fs_wf (put_node k (Reg t) fs)" if "node_at fs k = Some (Reg old)" for t old
    using that fs_wf_butlast [OF assms that] by (intro fs_wf_put assms) auto
  show "fs_wf (append_file k s fs)" "fs_wf (cut_file k n fs)"
    using assms by (auto simp: append_file_def cut_file_def * split: option.splits node.splits)
qed

lemma tree_fs_calls:
  "obeys tree_rel (sys_fopen_w p)" "obeys tree_rel (sys_fwrite p k s)"
  "obeys tree_rel (sys_fclose_w p k)" "obeys tree_rel (sys_unlink p)"
  "obeys tree_rel (sys_rmdir p)"
proof -
  have new: "fs_wf (put_node k (Reg t) (w_fs w))"
    if "fs_wf (w_fs w)" "resolve w p = Inr k" "node_at (w_fs w) k \<noteq> Some Dir" for w k t
  proof -
    have "k \<noteq> [] \<and> node_at (w_fs w) (butlast k) = Some Dir"
    proof (cases "node_at (w_fs w) k")
      case None
      then show ?thesis using that by (blast dest: resolve_new)
    next
      case (Some nd)
      then show ?thesis using that fs_wf_butlast by fastforce
    qed
    with that show ?thesis by (blast intro: fs_wf_put)
  qed
  show "obeys tree_rel (sys_fopen_w p)"
    unfolding fs_calls
    by (rule obeys_syscall) (auto simp: tree_rel_def new split: sum.splits option.splits node.splits)
  show "obeys tree_rel (sys_fwrite p k s)" "obeys tree_rel (sys_fclose_w p k)"
    unfolding fs_calls by (rule obeys_syscall; auto simp: tree_rel_def fs_wf_file_edit)+
  show "obeys tree_rel (sys_unlink p)"
    unfolding fs_calls
    by (rule obeys_syscall)
      (auto simp: tree_rel_def fs_wf_no_child intro!: fs_wf_del split: sum.splits option.splits node.splits)
  show "obeys tree_rel (sys_rmdir p)"
    unfolding fs_calls
    by (rule obeys_syscall)
      (auto simp: tree_rel_def has_child_iff intro!: fs_wf_del
        split: sum.splits option.splits node.splits if_splits)
qed

lemma same_fs_calls:
  "obeys same_fs (kernel c)" "obeys same_fs (sys_stat p)" "obeys same_fs (sys_fopen_r p)"
  "obeys same_fs (sys_fread p nd)" "obeys same_fs (sys_fseek p nd)" "obeys same_fs (sys_ftell p nd)"
  unfolding kernel_def fs_calls by (rule obeys_syscall; auto simp: same_fs_def)+

lemmas [same_intros] = same_fs_calls
lemmas [static_intros] = static_kernel static_fs_calls
lemmas [calls_intros] = calls_kernel calls_fs_calls
lemmas [grow_intros] = grow_kernel grow_fs_calls
lemmas [tree_intros] = tree_fs_calls grow_kernel [THEN grow_tree] grow_fs_calls [THEN grow_tree]

lemma static_alloc [static_intros]: "obeys static_rel alloc"
  unfolding alloc_def by (intro static_intros)

lemma calls_alloc [calls_intros]: "C Malloc \<Longrightarrow> obeys (calls_rel C) alloc"
  unfolding alloc_def by (intro calls_intros)

lemma grow_alloc [grow_intros]: "obeys grow_rel alloc"
  unfolding alloc_def by (intro grow_intros)

lemma same_alloc [same_intros]: "obeys same_fs alloc"
  unfolding alloc_def by (intro same_intros)

lemma tree_alloc [tree_intros]: "obeys tree_rel alloc"
  by (rule grow_alloc [THEN grow_tree])

lemma strdup_obeys:
  "obeys static_rel (strdup s)" "C Malloc \<Longrightarrow> obeys (calls_rel C) (strdup s)" "obeys grow_rel (strdup s)"
  "obeys same_fs (strdup s)" "obeys tree_rel (strdup s)"
  unfolding strdup_def
  by (intro static_intros, intro calls_intros, assumption, intro grow_intros, intro same_intros, intro tree_intros)

declare strdup_obeys(1) [static_intros] strdup_obeys(2) [calls_intros] strdup_obeys(3) [grow_intros]
  strdup_obeys(4) [same_intros] strdup_obeys(5) [tree_intros]

lemma same_environment [same_intros]:
  "obeys same_fs (printf_line s)" "obeys same_fs (getenv k)" "obeys same_fs geteuid"
  by (simp_all add: printf_line_def getenv_def geteuid_def obeys_def same_fs_def)

lemma printf_line_obeys:
  "obeys static_rel (printf_line s)" "obeys grow_rel (printf_line s)" "obeys tree_rel (printf_line s)"
  "obeys (calls_rel C) (printf_line s)"
  by (simp_all add: printf_line_def obeys_def static_rel_def grow_rel_def tree_rel_def calls_rel_def)

declare printf_line_obeys(1) [static_intros] printf_line_obeys(2) [grow_intros]
  printf_line_obeys(3) [tree_intros] printf_line_obeys(4) [calls_intros]

lemma environment_obeys:
  "obeys static_rel (getenv k)" "obeys grow_rel (getenv k)" "obeys tree_rel (getenv k)"
  "obeys (calls_rel C) (getenv k)"
  "obeys static_rel geteuid" "obeys grow_rel geteuid" "obeys tree_rel geteuid"
  "obeys (calls_rel C) geteuid"
  unfolding getenv_def geteuid_def
  by (rule static.r_gets grow.r_gets tree.r_gets calls.r_gets)+

declare environment_obeys(1,5) [static_intros] environment_obeys(2,6) [grow_intros]
  environment_obeys(3,7) [tree_intros] environment_obeys(4,8) [calls_intros]

section \<open>Store calls the kernel does not refuse\<close>

lemma run_stat: "reliable w \<Longrightarrow>
    run_state (sys_stat p) w = (lookup w p, tick (Stat p) (err_of (lookup w p)) w)"
  by (simp add: sys_stat_def run_syscall)

lemma run_fopen_r: "reliable w \<Longrightarrow>
    run_state (sys_fopen_r p) w = (lookup w p, tick (FopenR p) (err_of (lookup w p)) w)"
  by (simp add: sys_fopen_r_def run_syscall)

lemma run_fread: "reliable w \<Longrightarrow>
    run_state (sys_fread p (Reg s)) w = (Inr s, tick (Fread p) None w)"
  by (simp add: sys_fread_def run_syscall)

lemma run_alloc: "reliable w \<Longrightarrow> run_state alloc w = (True, tick Malloc None w)"
  by (simp add: alloc_def run_kernel)

lemma wp_strdup: "reliable w \<Longrightarrow> Q s (tick Malloc None w) \<Longrightarrow> wp (strdup s) Q w"
  by (simp add: strdup_def wp_def run_alloc)

lemma wp_strdup_any:
  "(\<And>e. Q None (tick Malloc (Some e) w)) \<Longrightarrow> Q s (tick Malloc None w) \<Longrightarrow> wp (strdup s) Q w"
  by (simp add: strdup_def alloc_def wp_def run_kernel split: option.split)

lemma lookup_cong:
  "w_fs w' = w_fs w \<Longrightarrow> w_cwd w' = w_cwd w \<Longrightarrow> lookup w' p = lookup w p"
  "w_fs w' = w_fs w \<Longrightarrow> w_cwd w' = w_cwd w \<Longrightarrow> resolve w' p = resolve w p"
  by (auto simp: lookup_def resolve_def start_of_def Let_def split: sum.split)

lemma lookup_Inr: "lookup w p = Inr nd \<longleftrightarrow> (\<exists>k. resolve w p = Inr k \<and> node_at (w_fs w) k = Some nd)"
  by (auto simp: lookup_def split: sum.splits option.splits)

section \<open>Events\<close>

text \<open>The new events of a run: the calls with their errors.\<close>

definition events :: "world \<Rightarrow> world \<Rightarrow> (call \<times> errno option) list" where
  "events w w' = map (\<lambda>(_, c, e). (c, e)) (drop (length (w_trace w)) (w_trace w'))"

definition extends :: "world \<Rightarrow> world \<Rightarrow> bool" where
  "extends w w' \<longleftrightarrow> (\<exists>es. w_trace w' = w_trace w @ es)"

lemma events_same [simp]: "w_trace w' = w_trace w \<Longrightarrow> events w w' = []"
  by (simp add: events_def)

lemma events_tick [simp]: "extends w w1 \<Longrightarrow> events w (tick c e w1) = events w w1 @ [(c, e)]"
  by (auto simp: events_def extends_def)

lemma events_log [simp]: "events w (w1\<lparr>w_log := l\<rparr>) = events w w1" "events (w\<lparr>w_log := l\<rparr>) w1 = events w w1"
  by (simp_all add: events_def)

lemma extends_simps [simp]:
  "extends w w" "extends w w1 \<Longrightarrow> extends w (tick c e w1)"
  "extends w (w1\<lparr>w_log := l\<rparr>) = extends w w1" "extends (w\<lparr>w_log := l\<rparr>) w1 = extends w w1"
  by (auto simp: extends_def)

lemma extends_trans: "extends u v \<Longrightarrow> extends v w \<Longrightarrow> extends u w"
  by (auto simp: extends_def)

lemma events_trans: "extends u v \<Longrightarrow> extends v w \<Longrightarrow> events u w = events u v @ events v w"
  by (auto simp: events_def extends_def)

lemma calls_extends: "calls_rel C w w' \<Longrightarrow> extends w w'"
  by (auto simp: calls_rel_def extends_def)

end
