(* ===== verification/NkLog.thy ===== *)
theory NkLog
  imports World
begin

text \<open>
  The logging component: \<open>src/common/log.c\<close> and \<open>include/nk_log.h\<close>. Its state is the
  record \<^typ>\<open>log_state\<close> (the globals of \<open>log.c\<close> and the lines printed so far). The
  other components call \<open>nk_log_at\<close>, \<open>nk_log_stderr_at\<close> and \<open>nk_log_explain_at\<close>
  with the file and the line of the call site; the text that \<open>vsnprintf\<close> makes of the
  format and its arguments is an input of the world. The lemmas show when a line is
  printed and what it looks like, how the environment overrides the configuration, and
  that logging changes nothing but the logging state (\<open>only_log\<close>), the frame every other
  component relies on.
\<close>

section \<open>Levels, roles and their names\<close>

definition level_num :: "nk_log_level \<Rightarrow> nat" where
  "level_num l = (case l of NK_LOG_DEBUG \<Rightarrow> 0 | NK_LOG_INFO \<Rightarrow> 1 | NK_LOG_WARN \<Rightarrow> 2 | NK_LOG_ERROR \<Rightarrow> 3)"

instantiation nk_log_level :: linorder
begin
definition "a \<le> b \<longleftrightarrow> level_num a \<le> level_num b"
definition "a < b \<longleftrightarrow> level_num a < level_num b"
instance
  by standard (auto simp: less_eq_nk_log_level_def less_nk_log_level_def level_num_def
    split: nk_log_level.splits)
end

definition esc :: "string \<Rightarrow> string" where
  "esc s = CHR 0x1B # s"

definition level_names :: "nk_log_level \<Rightarrow> string" where
  "level_names l = (case l of
     NK_LOG_DEBUG \<Rightarrow> ''DEBUG'' | NK_LOG_INFO \<Rightarrow> ''INFO''
   | NK_LOG_WARN \<Rightarrow> ''WARN'' | NK_LOG_ERROR \<Rightarrow> ''ERROR'')"

definition level_colors :: "nk_log_level \<Rightarrow> string" where
  "level_colors l = (case l of
     NK_LOG_DEBUG \<Rightarrow> esc ''[0;36m'' | NK_LOG_INFO \<Rightarrow> esc ''[0;32m''
   | NK_LOG_WARN \<Rightarrow> esc ''[1;33m'' | NK_LOG_ERROR \<Rightarrow> esc ''[0;31m'')"

definition role_names :: "nk_log_role \<Rightarrow> string" where
  "role_names r = (case r of
     NK_LOG_ROLE_HOST \<Rightarrow> ''HOST'' | NK_LOG_ROLE_PARENT \<Rightarrow> ''PARENT''
   | NK_LOG_ROLE_CHILD \<Rightarrow> ''CHILD'')"

definition role_colors :: "nk_log_role \<Rightarrow> string" where
  "role_colors r = (case r of
     NK_LOG_ROLE_HOST \<Rightarrow> esc ''[0;37m'' | NK_LOG_ROLE_PARENT \<Rightarrow> esc ''[0;34m''
   | NK_LOG_ROLE_CHILD \<Rightarrow> esc ''[0;35m'')"

definition color_reset :: string where
  "color_reset = esc ''[0m''"

text \<open>The globals as the program starts.\<close>

definition nk_log_init :: log_state where
  "nk_log_init = \<lparr>nk_log_level = NK_LOG_INFO, nk_log_enabled = True, nk_log_educational = False,
     nk_log_role = NK_LOG_ROLE_HOST, nk_log_env_applied = False, log_lines = []\<rparr>"

text \<open>\<open>strrchr\<close>: the suffix that starts at the last occurrence of the character.\<close>

fun strrchr :: "string \<Rightarrow> char \<Rightarrow> string option" where
  "strrchr [] c = None"
| "strrchr (x # xs) c =
     (case strrchr xs c of Some s \<Rightarrow> Some s | None \<Rightarrow> if x = c then Some (x # xs) else None)"

definition nk_basename :: "cptr \<Rightarrow> string" where
  "nk_basename path = (case path of
     None \<Rightarrow> ''?''
   | Some p \<Rightarrow> (case strrchr p (CHR ''/'') of Some s \<Rightarrow> drop 1 s | None \<Rightarrow> p))"

section \<open>Configuration\<close>

text \<open>
  The parsers of the environment variables: \<open>None\<close> when the C function returns false,
  \<open>Some\<close> of what it stores through \<open>out\<close> when it returns true.
\<close>

definition nk_parse_env_bool :: "cptr \<Rightarrow> bool option" where
  "nk_parse_env_bool value = (case value of
     None \<Rightarrow> None
   | Some v \<Rightarrow>
       if v = ''1'' \<or> strcaseeq v ''true'' \<or> strcaseeq v ''yes'' \<or> strcaseeq v ''on''
       then Some True
       else if v = ''0'' \<or> strcaseeq v ''false'' \<or> strcaseeq v ''no'' \<or> strcaseeq v ''off''
       then Some False
       else None)"

definition nk_parse_env_level :: "cptr \<Rightarrow> nk_log_level option" where
  "nk_parse_env_level value = (case value of
     None \<Rightarrow> None
   | Some v \<Rightarrow>
       if strcaseeq v ''debug'' \<or> v = ''0'' then Some NK_LOG_DEBUG
       else if strcaseeq v ''info'' \<or> v = ''1'' then Some NK_LOG_INFO
       else if strcaseeq v ''warn'' \<or> strcaseeq v ''warning'' \<or> v = ''2'' then Some NK_LOG_WARN
       else if strcaseeq v ''error'' \<or> v = ''3'' then Some NK_LOG_ERROR
       else None)"

definition set_log :: "(log_state \<Rightarrow> log_state) \<Rightarrow> unit prog" where
  "set_log f = modify (\<lambda>w. w\<lparr>w_log := f (w_log w)\<rparr>)"

definition nk_log_set_level :: "nk_log_level \<Rightarrow> unit prog" where
  "nk_log_set_level level = set_log (nk_log_level_update (\<lambda>_. level))"

definition nk_log_enable :: "bool \<Rightarrow> unit prog" where
  "nk_log_enable enabled = set_log (nk_log_enabled_update (\<lambda>_. enabled))"

definition nk_log_set_educational :: "bool \<Rightarrow> unit prog" where
  "nk_log_set_educational enabled = set_log (nk_log_educational_update (\<lambda>_. enabled))"

definition nk_log_set_role :: "nk_log_role \<Rightarrow> unit prog" where
  "nk_log_set_role role = set_log (nk_log_role_update (\<lambda>_. role))"

definition nk_log_apply_env :: "unit prog" where
  "nk_log_apply_env = do {
     applied \<leftarrow> gets (\<lambda>w. nk_log_env_applied (w_log w));
     if applied then ret ()
     else do {
       set_log (nk_log_env_applied_update (\<lambda>_. True));
       env \<leftarrow> getenv ''NK_LOG_ENABLED'';
       (case nk_parse_env_bool env of
          None \<Rightarrow> ret ()
        | Some enabled \<Rightarrow> set_log (nk_log_enabled_update (\<lambda>_. enabled)));
       env \<leftarrow> getenv ''NK_LOG_LEVEL'';
       (case nk_parse_env_level env of
          None \<Rightarrow> ret ()
        | Some level \<Rightarrow> set_log (nk_log_level_update (\<lambda>_. level)));
       env \<leftarrow> getenv ''NK_LOG_EDUCATIONAL'';
       (case nk_parse_env_bool env of
          None \<Rightarrow> ret ()
        | Some enabled \<Rightarrow> set_log (nk_log_educational_update (\<lambda>_. enabled)))
     }
   }"

section \<open>Printing\<close>

definition fprintf_stderr :: "string \<Rightarrow> unit prog" where
  "fprintf_stderr s = set_log (log_lines_update (\<lambda>ls. ls @ [s]))"

text \<open>The clock and the formatted text of the line about to be printed.\<close>

definition log_input :: "log_input prog" where
  "log_input = gets (\<lambda>w. w_inputs w (length (log_lines (w_log w))))"

definition timestamp_text :: "log_input \<Rightarrow> string" where
  "timestamp_text i = snprintf_n 64
     (pad 2 (l_hour i) @ '':'' @ pad 2 (l_min i) @ '':'' @ pad 2 (l_sec i) @ ''.''
      @ pad 3 (l_nsec i div 1000000))"

definition site_text :: "string \<Rightarrow> nat \<Rightarrow> string" where
  "site_text file line = ''['' @ nk_basename (Some file) @ '':'' @ dec line @ '']''"

definition log_line :: "bool \<Rightarrow> nk_log_role \<Rightarrow> nk_log_level \<Rightarrow> string \<Rightarrow> nat \<Rightarrow> log_input \<Rightarrow> string" where
  "log_line tty role level file line i =
     (let timestamp = timestamp_text i; msg = snprintf_n 1024 (l_text i) in
      if tty then
        esc ''[0;90m'' @ ''['' @ timestamp @ '']'' @ color_reset
        @ '' ['' @ role_colors role @ role_names role @ color_reset
        @ ''] ['' @ level_colors level @ level_names level @ color_reset
        @ ''] '' @ site_text file line @ '' '' @ esc ''[0m'' @ msg @ color_reset @ [CHR 10]
      else
        ''['' @ timestamp @ ''] ['' @ role_names role @ ''] ['' @ level_names level @ ''] ''
        @ site_text file line @ '' '' @ msg @ [CHR 10])"

definition nk_log_at :: "nk_log_level \<Rightarrow> string \<Rightarrow> nat \<Rightarrow> unit prog" where
  "nk_log_at level file line = do {
     nk_log_apply_env;
     l \<leftarrow> gets w_log;
     if \<not> nk_log_enabled l \<or> level < nk_log_level l then ret ()
     else do {
       i \<leftarrow> log_input;
       tty \<leftarrow> gets w_tty;
       fprintf_stderr (log_line tty (nk_log_role l) level file line i)
     }
   }"

text \<open>\<open>strstr(hay, needle) != NULL\<close>.\<close>

fun is_prefix :: "string \<Rightarrow> string \<Rightarrow> bool" where
  "is_prefix [] hay = True"
| "is_prefix (x # xs) [] = False"
| "is_prefix (x # xs) (y # ys) = (x = y \<and> is_prefix xs ys)"

fun contains :: "string \<Rightarrow> string \<Rightarrow> bool" where
  "contains needle [] = (needle = [])"
| "contains needle (y # ys) = (is_prefix needle (y # ys) \<or> contains needle ys)"

definition educational_notes :: "(string \<times> string) list" where
  "educational_notes = [
    (''Loading OCI spec'',
     ''The OCI spec defines everything about the container: what to run, filesystem, namespaces, and resource limits''),
    (''Validating OCI spec'',
     ''Ensuring the config.json has all required fields like process args, root filesystem, and OCI version''),
    (''Creating container state'',
     ''Saving container metadata to disk so we can manage it later (start/stop/delete)''),
    (''Parsing namespaces'',
     ''Namespaces isolate container from host: PID namespace gives container its own PID 1''),
    (''Setting up root filesystem'',
     ''Container needs its own filesystem view. We'll mount /proc, /sys, /dev and use pivot_root''),
    (''Creating cgroup'',
     ''Cgroups limit container resources (CPU, memory, PIDs). Different from namespaces which isolate''),
    (''Mounting proc'',
     ''The /proc filesystem gives process info. Container's /proc shows only container's processes''),
    (''Mounting sysfs'',
     ''/sys exposes kernel info. Container gets limited view for hardware and kernel parameters''),
    (''Mounting dev'',
     ''Device nodes (/dev/null, /dev/zero, etc.) needed for most programs. Creating minimal set''),
    (''Pivoting root'',
     ''Atomic swap of root filesystem. pivot_root() is safer than chroot() for container isolation''),
    (''Setting hostname'',
     ''In UTS namespace, container can have its own hostname without affecting host''),
    (''Dropping capabilities'',
     ''Linux capabilities are fine-grained privileges. Container runs with reduced privileges even as root''),
    (''Calling clone()'',
     ''clone() system call creates new process WITH namespaces. Returns twice: parent gets PID, child gets 0''),
    (''Executing container process'',
     ''execve() replaces current process with container binary. PID stays same, memory is replaced'')]"

definition lookup_note :: "string \<Rightarrow> cptr" where
  "lookup_note what = map_option snd (find (\<lambda>(op, _). contains op what) educational_notes)"

text \<open>The bytes of the box-drawing bar the explanation starts with, in UTF-8.\<close>

definition bar :: string where
  "bar = ''      '' @ [CHR 0xE2, CHR 0x94, CHR 0x82]"

definition nk_log_explain_at :: "string \<Rightarrow> nat \<Rightarrow> string \<Rightarrow> cptr \<Rightarrow> unit prog" where
  "nk_log_explain_at file line what why = do {
     nk_log_apply_env;
     l \<leftarrow> gets w_log;
     if \<not> nk_log_educational l then ret ()
     else (case (case why of None \<Rightarrow> lookup_note what | Some y \<Rightarrow> Some y) of
       None \<Rightarrow> ret ()
     | Some explanation \<Rightarrow> do {
         tty \<leftarrow> gets w_tty;
         fprintf_stderr
           (if tty then
              esc ''[0;90m'' @ bar @ '' ['' @ role_colors (nk_log_role l) @ role_names (nk_log_role l)
              @ color_reset @ ''] '' @ site_text file line @ '' '' @ esc ''[0;37m'' @ explanation
              @ color_reset @ [CHR 10]
            else
              bar @ '' ['' @ role_names (nk_log_role l) @ ''] '' @ site_text file line @ '' ''
              @ explanation @ [CHR 10])
       })
   }"

text \<open>
  The prefix and the text are two prints of the same line; the text brings its own newline.
\<close>

definition nk_log_stderr_at :: "string \<Rightarrow> nat \<Rightarrow> unit prog" where
  "nk_log_stderr_at file line = do {
     nk_log_apply_env;
     l \<leftarrow> gets w_log;
     if \<not> nk_log_enabled l then ret ()
     else do {
       i \<leftarrow> log_input;
       tty \<leftarrow> gets w_tty;
       fprintf_stderr
         ((if tty then
             ''['' @ role_colors (nk_log_role l) @ role_names (nk_log_role l) @ color_reset @ ''] ''
             @ site_text file line @ '' ''
           else ''['' @ role_names (nk_log_role l) @ ''] '' @ site_text file line @ '' '')
          @ l_text i)
     }
   }"

text \<open>The macros \<open>nk_log_step\<close> and \<open>nk_log_explain_op\<close>.\<close>

definition nk_log_step :: "string \<Rightarrow> nat \<Rightarrow> string \<Rightarrow> unit prog" where
  "nk_log_step file line what = do {
     nk_log_at NK_LOG_INFO file line;
     edu \<leftarrow> gets (\<lambda>w. nk_log_educational (w_log w));
     if edu then nk_log_explain_at file line what None else ret ()
   }"

definition nk_log_explain_op :: "string \<Rightarrow> nat \<Rightarrow> string \<Rightarrow> string \<Rightarrow> unit prog" where
  "nk_log_explain_op file line what why = do {
     nk_log_at NK_LOG_INFO file line;
     edu \<leftarrow> gets (\<lambda>w. nk_log_educational (w_log w));
     if edu then nk_log_explain_at file line what (Some why) else ret ()
   }"

section \<open>The frame: logging changes only the logging state\<close>

definition only_log :: "'a prog \<Rightarrow> bool" where
  "only_log m \<longleftrightarrow> (\<forall>w. \<exists>l. post m w = w\<lparr>w_log := l\<rparr>)"

named_theorems log_intros \<open>programs that only log\<close>

lemma only_log_return [log_intros]: "only_log (ret a)"
  unfolding only_log_def by (simp, metis world.surjective world.update_convs(13))

lemma only_log_gets [log_intros]: "only_log (gets f)"
  unfolding only_log_def by (simp, metis world.surjective world.update_convs(13))

lemma only_log_bind [log_intros]:
  assumes "only_log m" and "\<And>a. only_log (f a)"
  shows "only_log (State_Monad.bind m f)"
  unfolding only_log_def
proof
  fix w
  obtain a l where 1: "run_state m w = (a, w\<lparr>w_log := l\<rparr>)"
    using assms(1) unfolding only_log_def by (metis prod.collapse)
  obtain l' where "post (f a) (w\<lparr>w_log := l\<rparr>) = (w\<lparr>w_log := l\<rparr>)\<lparr>w_log := l'\<rparr>"
    using assms(2) unfolding only_log_def by blast
  with 1 show "\<exists>l. post (State_Monad.bind m f) w = w\<lparr>w_log := l\<rparr>"
    by auto
qed

lemma only_log_if [log_intros]: "only_log m \<Longrightarrow> only_log n \<Longrightarrow> only_log (if b then m else n)"
  by simp

lemma only_log_option [log_intros]:
  "only_log m \<Longrightarrow> (\<And>y. only_log (f y)) \<Longrightarrow> only_log (case x of None \<Rightarrow> m | Some y \<Rightarrow> f y)"
  by (cases x) simp_all

lemma only_log_for_each [log_intros]: "(\<And>x. only_log (f x)) \<Longrightarrow> only_log (for_each f xs)"
  by (induction xs) (auto intro!: log_intros)

lemma only_log_set_log [log_intros]: "only_log (set_log f)"
  by (auto simp: only_log_def set_log_def)

lemma only_log_getenv [log_intros]: "only_log (getenv k)"
  unfolding getenv_def by (rule log_intros)

lemma only_log_apply_env [log_intros]: "only_log nk_log_apply_env"
  unfolding nk_log_apply_env_def by (intro log_intros)

lemma only_log_calls [log_intros]:
  "only_log (nk_log_at level file line)" "only_log (nk_log_stderr_at file line)"
  "only_log (nk_log_explain_at file line what why)"
  unfolding nk_log_at_def nk_log_stderr_at_def nk_log_explain_at_def log_input_def fprintf_stderr_def
  by (intro log_intros)+

lemma only_log_steps [log_intros]:
  "only_log (nk_log_step file line what)" "only_log (nk_log_explain_op file line what why)"
  unfolding nk_log_step_def nk_log_explain_op_def by (intro log_intros)+

lemma only_log_config [log_intros]:
  "only_log (nk_log_set_level l)" "only_log (nk_log_enable b)" "only_log (nk_log_set_educational b)"
  "only_log (nk_log_set_role r)"
  unfolding nk_log_set_level_def nk_log_enable_def nk_log_set_educational_def nk_log_set_role_def
  by (rule log_intros)+

lemma wp_only_log: "only_log m \<Longrightarrow> (\<And>a l. Q a (w\<lparr>w_log := l\<rparr>)) \<Longrightarrow> wp m Q w"
  unfolding only_log_def wp_def by metis

lemma keeps_only_log: "only_log m \<Longrightarrow> (\<And>w l. f (w\<lparr>w_log := l\<rparr>) = f w) \<Longrightarrow> keeps f m"
  unfolding only_log_def keeps_def by metis

lemmas wp_log_calls [wp_intros] =
  only_log_calls [THEN wp_only_log] only_log_steps [THEN wp_only_log]
  only_log_config [THEN wp_only_log]

lemma obeys_only_log: "only_log m \<Longrightarrow> (\<And>w l. R w (w\<lparr>w_log := l\<rparr>)) \<Longrightarrow> obeys R m"
  unfolding only_log_def obeys_def by metis

lemma only_log_rels:
  assumes "only_log m"
  shows "obeys static_rel m" "obeys grow_rel m" "obeys tree_rel m" "obeys (calls_rel C) m"
    "obeys same_fs m"
  by (rule obeys_only_log [OF assms];
    simp add: same_fs_def static_rel_def grow_rel_def tree_rel_def calls_rel_def)+

lemmas log_programs = only_log_calls only_log_steps only_log_config

lemmas [static_intros] = log_programs [THEN only_log_rels(1)]
lemmas [grow_intros] = log_programs [THEN only_log_rels(2)]
lemmas [tree_intros] = log_programs [THEN only_log_rels(3)]
lemmas [calls_intros] = log_programs [THEN only_log_rels(4)]
lemmas [same_intros] = log_programs [THEN only_log_rels(5)]

section \<open>What is printed\<close>

lemma run_set_log [simp]: "run_state (set_log f) w = ((), w\<lparr>w_log := f (w_log w)\<rparr>)"
  by (simp add: set_log_def)

lemma run_getenv [simp]: "run_state (getenv k) w = (w_env w k, w)"
  by (simp add: getenv_def)

text \<open>The configuration the environment gives, as a function of the configuration before.\<close>

definition env_config :: "(string \<Rightarrow> cptr) \<Rightarrow> log_state \<Rightarrow> log_state" where
  "env_config env l = (if nk_log_env_applied l then l else l\<lparr>
     nk_log_enabled := (case nk_parse_env_bool (env ''NK_LOG_ENABLED'') of
       None \<Rightarrow> nk_log_enabled l | Some b \<Rightarrow> b),
     nk_log_level := (case nk_parse_env_level (env ''NK_LOG_LEVEL'') of
       None \<Rightarrow> nk_log_level l | Some v \<Rightarrow> v),
     nk_log_educational := (case nk_parse_env_bool (env ''NK_LOG_EDUCATIONAL'') of
       None \<Rightarrow> nk_log_educational l | Some b \<Rightarrow> b),
     nk_log_env_applied := True\<rparr>)"

lemma run_apply_env [simp]:
  "run_state nk_log_apply_env w = ((), w\<lparr>w_log := env_config (w_env w) (w_log w)\<rparr>)"
  unfolding nk_log_apply_env_def by (simp add: run_if env_config_def split: option.splits)

lemma env_config_lines [simp]: "log_lines (env_config env l) = log_lines l"
  by (simp add: env_config_def)

lemma env_config_role [simp]: "nk_log_role (env_config env l) = nk_log_role l"
  by (simp add: env_config_def)

lemma env_config_applied [simp]: "nk_log_env_applied (env_config env l)"
  by (simp add: env_config_def)

lemma env_config_again: "nk_log_env_applied l \<Longrightarrow> env_config env l = l"
  by (simp add: env_config_def)

lemma run_log_at:
  "run_state (nk_log_at level file line) w =
     (let l = env_config (w_env w) (w_log w) in
      ((), w\<lparr>w_log :=
        (if nk_log_enabled l \<and> nk_log_level l \<le> level
         then l\<lparr>log_lines := log_lines l @
           [log_line (w_tty w) (nk_log_role l) level file line (w_inputs w (length (log_lines l)))]\<rparr>
         else l)\<rparr>))"
  unfolding nk_log_at_def log_input_def fprintf_stderr_def by (auto simp: Let_def)

text \<open>
  What decides on a message, stated on the environment and the program's settings: an
  environment that was not read yet, and that holds a valid value, wins.
\<close>

definition in_force :: "'a option \<Rightarrow> log_state \<Rightarrow> 'a \<Rightarrow> 'a" where
  "in_force from_env l setting = (case from_env of
     Some v \<Rightarrow> if nk_log_env_applied l then setting else v | None \<Rightarrow> setting)"

definition shown :: "(string \<Rightarrow> cptr) \<Rightarrow> log_state \<Rightarrow> nk_log_level \<Rightarrow> bool" where
  "shown env l level \<longleftrightarrow>
     in_force (nk_parse_env_bool (env ''NK_LOG_ENABLED'')) l (nk_log_enabled l)
     \<and> in_force (nk_parse_env_level (env ''NK_LOG_LEVEL'')) l (nk_log_level l) \<le> level"

lemma shown_config: "shown env l level \<longleftrightarrow>
    nk_log_enabled (env_config env l) \<and> nk_log_level (env_config env l) \<le> level"
  by (auto simp: shown_def in_force_def env_config_def split: option.split)

lemma shown_again: "shown env (log_lines_update f (env_config env l)) level = shown env l level"
  "shown env (env_config env l) level = shown env l level"
  by (auto simp: shown_def in_force_def env_config_def split: option.split)

lemma run_message:
  "run_state (nk_log_at level file line) w = ((), w\<lparr>w_log :=
     log_lines_update (\<lambda>ls. if shown (w_env w) (w_log w) level
         then ls @ [log_line (w_tty w) (nk_log_role (w_log w)) level file line (w_inputs w (length ls))]
         else ls) (env_config (w_env w) (w_log w))\<rparr>)"
  by (simp add: run_log_at shown_config Let_def)

text \<open>C37: the messages the program logs come out exactly as the settings ask: of any sequence
  of messages, those and only those whose level reaches the threshold are printed, provided
  logging is enabled, in the order they were logged, each as one line with the role, the level
  and the call site and the clock at that line; a valid value in an environment not read before
  the first message decides for all of them, the program's own setting otherwise.\<close>

theorem log_is_filtered:
  "log_lines (w_log (post (for_each (\<lambda>(level, file, line). nk_log_at level file line) ms) w)) =
     log_lines (w_log w) @
     map (\<lambda>(k, level, file, line). log_line (w_tty w) (nk_log_role (w_log w)) level file line (w_inputs w k))
       (enumerate (length (log_lines (w_log w))) (filter (\<lambda>(level, _). shown (w_env w) (w_log w) level) ms))"
proof (induction ms arbitrary: w)
  case Nil
  then show ?case by simp
next
  case (Cons m ms)
  obtain level path line where m: "m = (level, path, line)" by (cases m)
  show ?case by (simp add: m run_message Cons.IH shown_again)
qed

text \<open>C38: a level set by the program (the command line options do) is lost at the first
  message when \<open>NK_LOG_LEVEL\<close> holds a valid level, because the environment is read lazily,
  after the options were parsed; once it has been read, the program's setting stays.\<close>

theorem env_level_overrides:
  assumes "nk_parse_env_level (w_env w ''NK_LOG_LEVEL'') = Some env_level"
  shows "nk_log_level (w_log (post (do { nk_log_set_level lvl; nk_log_at level file line }) w)) =
    (if nk_log_env_applied (w_log w) then lvl else env_level)"
  using assms by (simp add: nk_log_set_level_def run_log_at Let_def env_config_def)

definition log_demo_world :: world where
  "log_demo_world = \<lparr>w_fs = [], w_cwd = [], w_env = [''NK_LOG_LEVEL'' \<mapsto> ''Warning'', ''NK_LOG_ENABLED'' \<mapsto> ''1''],
     w_euid = 0, w_tty = False, w_libcapng = False, w_oracle = (\<lambda>_ _ _. \<lparr>a_err = None, a_val = 0\<rparr>),
     w_inputs = (\<lambda>_. \<lparr>l_hour = 8, l_min = 39, l_sec = 59, l_nsec = 725000000, l_text = ''hi''\<rparr>),
     w_calls = 0, w_trace = [], w_proc = Runtime, w_stdout = [], w_log = nk_log_init\<rparr>"

lemma env_level_demo: "nk_parse_env_level (w_env log_demo_world ''NK_LOG_LEVEL'') = Some NK_LOG_WARN"
  by (simp add: log_demo_world_def nk_parse_env_level_def strcaseeq_def to_lower_def)

theorem env_level_overrides_witness:
  "nk_log_level (w_log (post (do { nk_log_set_level NK_LOG_DEBUG; nk_log_at NK_LOG_INFO ''main.c'' 515 })
     log_demo_world)) = NK_LOG_WARN"
  using env_level_overrides [OF env_level_demo, of NK_LOG_DEBUG NK_LOG_INFO "''main.c''" 515]
  by (simp add: log_demo_world_def nk_log_init_def)

text \<open>Applying the environment a second time changes nothing.\<close>

lemma apply_env_idempotent:
  "run_state (do { nk_log_apply_env; nk_log_apply_env }) w = run_state nk_log_apply_env w"
  by (simp add: env_config_again)

text \<open>C39: \<open>nk_log_explain_at\<close> prints its explanation even when logging is disabled: it
  looks only at the educational flag, so \<open>--quiet\<close> does not silence \<open>--educational\<close>.\<close>

theorem explain_ignores_quiet:
  assumes "nk_log_env_applied (w_log w)" and "nk_log_educational (w_log w)"
  shows "\<exists>line. log_lines (w_log (post (do { nk_log_enable False;
           nk_log_explain_at file n what (Some why) }) w)) = log_lines (w_log w) @ [line]"
  using assms
  by (simp add: nk_log_enable_def nk_log_explain_at_def fprintf_stderr_def env_config_def)

theorem explain_ignores_quiet_witness:
  "\<exists>line. log_lines (w_log (post (do { nk_log_enable False;
       nk_log_explain_at ''mounts.c'' 218 ''Pivoting root'' (Some ''why'') })
     (log_demo_world\<lparr>w_log := nk_log_init\<lparr>nk_log_env_applied := True, nk_log_educational := True\<rparr>\<rparr>)))
   = [] @ [line]"
  using explain_ignores_quiet [of "log_demo_world\<lparr>w_log := nk_log_init\<lparr>nk_log_env_applied := True,
      nk_log_educational := True\<rparr>\<rparr>" "''mounts.c''" 218 "''Pivoting root''" "''why''"]
  by (simp add: nk_log_init_def)

end
