(* ===== verification/Jansson.thy ===== *)
theory Jansson
  imports Prelude
begin

text \<open>
  The jansson library as the code uses it. jansson is not part of the repository, so its
  functions are a parameter of the model: the record \<open>'j jansson\<close> of the functions the
  code calls, over an arbitrary type of JSON values. The locale states the documented
  behaviour the state store relies on. Pointers to JSON values that may be NULL are
  options; a parsed array is given by the list of its elements, an object for iteration by
  the list of its members in iteration order. \<open>utf8\<close> holds of the byte strings the library
  accepts as text.
\<close>

record 'j jansson =
  json_loads :: "string \<Rightarrow> 'j option"
  json_dumps :: "'j \<Rightarrow> string"
  json_object_get :: "'j \<Rightarrow> string \<Rightarrow> 'j option"
  json_is_string :: "'j \<Rightarrow> bool"
  json_string_value :: "'j \<Rightarrow> string"
  json_is_true :: "'j \<Rightarrow> bool"
  json_is_integer :: "'j \<Rightarrow> bool"
  json_integer_value :: "'j \<Rightarrow> int"
  json_is_array :: "'j \<Rightarrow> bool"
  json_elems :: "'j \<Rightarrow> 'j list"
  json_is_object :: "'j \<Rightarrow> bool"
  json_members :: "'j \<Rightarrow> (string \<times> 'j) list"
  json_object :: 'j
  json_object_set :: "'j \<Rightarrow> string \<Rightarrow> 'j option \<Rightarrow> 'j"
  json_string :: "string \<Rightarrow> 'j option"
  json_integer :: "int \<Rightarrow> 'j"

text \<open>The value of a member that is present and a string; NULL otherwise.\<close>

definition string_member :: "'j jansson \<Rightarrow> 'j \<Rightarrow> string \<Rightarrow> cptr" where
  "string_member J obj k = (case json_object_get J obj k of
     None \<Rightarrow> None
   | Some v \<Rightarrow> if json_is_string J v then Some (json_string_value J v) else None)"

text \<open>An object whose members are strings and integers, as the state store writes.\<close>

definition flat_object :: "'j jansson \<Rightarrow> 'j \<Rightarrow> bool" where
  "flat_object J obj \<longleftrightarrow> json_is_object J obj \<and>
     (\<forall>k v. json_object_get J obj k = Some v \<longrightarrow> json_is_string J v \<or> json_is_integer J v)"

definition ascii :: "string \<Rightarrow> bool" where
  "ascii s \<longleftrightarrow> list_all (\<lambda>c. (of_char c :: nat) < 128) s"

locale jansson_library =
  fixes J :: "'j jansson" and utf8 :: "string \<Rightarrow> bool"
  assumes ascii_utf8: "ascii s \<Longrightarrow> utf8 s"
    and empty_object: "json_is_object J (json_object J)"
    and get_empty: "json_object_get J (json_object J) k = None"
    and set_object: "json_is_object J obj \<Longrightarrow> json_is_object J (json_object_set J obj k x)"
    and get_set: "json_is_object J obj \<Longrightarrow> utf8 k \<Longrightarrow>
          json_object_get J (json_object_set J obj k (Some v)) k' =
            (if k' = k then Some v else json_object_get J obj k')"
    and set_null: "json_object_set J obj k None = obj"
    and string_some: "utf8 s \<Longrightarrow>
          \<exists>v. json_string J s = Some v \<and> json_is_string J v \<and> json_string_value J v = s"
    and integer_is: "json_is_integer J (json_integer J i)"
    and integer_value: "- (2 ^ 63) \<le> i \<Longrightarrow> i < 2 ^ 63 \<Longrightarrow> json_integer_value J (json_integer J i) = i"
    and loads_dumps: "flat_object J obj \<Longrightarrow>
          \<exists>obj'. json_loads J (json_dumps J obj) = Some obj' \<and>
            (\<forall>k. json_object_get J obj' k = json_object_get J obj k)"
begin

lemma flat_empty: "flat_object J (json_object J)"
  by (simp add: flat_object_def empty_object get_empty)

lemma flat_set:
  "flat_object J obj \<Longrightarrow> utf8 k \<Longrightarrow> json_is_string J v \<or> json_is_integer J v
    \<Longrightarrow> flat_object J (json_object_set J obj k (Some v))"
  by (auto simp: flat_object_def set_object get_set)

lemma string_member_set:
  assumes "flat_object J obj" and "utf8 k" and "utf8 s"
  shows "string_member J (json_object_set J obj k (json_string J s)) k' =
    (if k' = k then Some s else string_member J obj k')"
proof -
  obtain v where "json_string J s = Some v" "json_is_string J v" "json_string_value J v = s"
    using string_some [OF assms(3)] by blast
  with assms show ?thesis by (simp add: string_member_def get_set flat_object_def)
qed

lemma flat_set_string:
  "flat_object J obj \<Longrightarrow> utf8 k \<Longrightarrow> utf8 s \<Longrightarrow> flat_object J (json_object_set J obj k (json_string J s))"
  using string_some [of s] by (auto intro: flat_set)

lemma flat_set_integer:
  "flat_object J obj \<Longrightarrow> utf8 k \<Longrightarrow> flat_object J (json_object_set J obj k (Some (json_integer J i)))"
  by (simp add: flat_set integer_is)

lemma string_member_loaded:
  "(\<And>k. json_object_get J a k = json_object_get J b k) \<Longrightarrow> string_member J a = string_member J b"
  by (simp add: string_member_def fun_eq_iff)

lemma get_set_string_other:
  assumes "flat_object J obj" and "utf8 k" and "utf8 s" and "k' \<noteq> k"
  shows "json_object_get J (json_object_set J obj k (json_string J s)) k' = json_object_get J obj k'"
  using assms string_some [of s] by (auto simp: get_set flat_object_def)

end

end
