(* ===== verification/StateStore.thy ===== *)
theory StateStore
  imports NkLog Jansson
begin

text \<open>
  The state store: \<open>src/common/state.c\<close> over the types of \<open>include/nk.h\<close>. A container
  is persisted as the JSON object in \<open><state dir>/<id>/state.json\<close>. The operations are
  \<open>nk_state_save\<close>, \<open>nk_state_load\<close>, \<open>nk_state_delete\<close> and \<open>nk_state_exists\<close>, with
  the helpers that find and create directories. The numbers passed to \<open>st_err\<close> are the
  lines of the calls of \<open>nk_stderr\<close>; \<open>fflush(stderr)\<close> has no effect here. Permission bits
  are not part of the file system model.
\<close>

section \<open>Data\<close>

datatype nk_container_state_t =
    NK_STATE_INVALID | NK_STATE_CREATED | NK_STATE_RUNNING | NK_STATE_STOPPED | NK_STATE_PAUSED

datatype nk_execution_mode_t = NK_MODE_CONTAINER | NK_MODE_VM

record nk_container =
  c_id :: cptr
  c_bundle_path :: cptr
  c_state :: nk_container_state_t
  c_mode :: nk_execution_mode_t
  c_init_pid :: int
  c_state_file :: cptr
  c_control_fd :: int

text \<open>\<open>calloc(1, sizeof(nk_container_t))\<close>: zero is CREATED, container mode and the NULL pointers.\<close>

definition zero_container :: nk_container where
  "zero_container = \<lparr>c_id = None, c_bundle_path = None, c_state = NK_STATE_CREATED,
     c_mode = NK_MODE_CONTAINER, c_init_pid = 0, c_state_file = None, c_control_fd = 0\<rparr>"

definition state_c :: string where
  "state_c = ''src/common/state.c''"

abbreviation st_err :: "nat \<Rightarrow> unit prog" where
  "st_err n \<equiv> nk_log_stderr_at state_c n"

definition STATE_FILE :: string where
  "STATE_FILE = ''state.json''"

definition NS_STATE_DIR_ROOT :: string where
  "NS_STATE_DIR_ROOT = ''/run/nano-sandbox''"

definition NS_STATE_DIR_USER_SUFFIX :: string where
  "NS_STATE_DIR_USER_SUFFIX = ''/.local/share/nano-sandbox/run''"

section \<open>Directories\<close>

definition mkdir_failed :: "errno + unit \<Rightarrow> bool" where
  "mkdir_failed r = (case r of Inr _ \<Rightarrow> False | Inl e \<Rightarrow> e \<noteq> EEXIST)"

text \<open>
  The loop over the characters of \<open>tmp\<close>: \<open>done\<close> is the part before the pointer, which at a
  slash is the directory to make.
\<close>

fun mkdir_p_loop :: "string \<Rightarrow> string \<Rightarrow> int prog" where
  "mkdir_p_loop done [] = ret 0"
| "mkdir_p_loop done (c # cs) =
     (if c = CHR ''/'' then do {
        r \<leftarrow> sys_mkdir done;
        if mkdir_failed r then ret (-1) else mkdir_p_loop (done @ [c]) cs
      } else mkdir_p_loop (done @ [c]) cs)"

definition mkdir_p :: "cptr \<Rightarrow> int prog" where
  "mkdir_p path = (case path of
     None \<Rightarrow> ret (-1)
   | Some p \<Rightarrow>
       if p = [] then ret (-1)
       else if PATH_MAX \<le> length p then ret (-1)
       else do {
         let tmp = (if last p = CHR ''/'' then butlast p else p);
         r \<leftarrow> mkdir_p_loop (take 1 tmp) (drop 1 tmp);
         if r = -1 then ret (-1)
         else do {
           r \<leftarrow> sys_mkdir tmp;
           if mkdir_failed r then ret (-1) else ret 0
         }
       })"

fun nonempty :: "cptr \<Rightarrow> bool" where
  "nonempty None = False"
| "nonempty (Some s) = (s \<noteq> [])"

definition get_state_dir :: "string prog" where
  "get_state_dir = do {
     dir \<leftarrow> getenv ''NS_RUN_DIR'';
     if nonempty dir then ret (the dir)
     else do {
       dir \<leftarrow> getenv ''NK_RUN_DIR'';
       if nonempty dir then ret (the dir)
       else do {
         euid \<leftarrow> geteuid;
         if euid = 0 then ret NS_STATE_DIR_ROOT
         else do {
           home \<leftarrow> getenv ''HOME'';
           let user_dir = the home @ NS_STATE_DIR_USER_SUFFIX;
           if nonempty home \<and> length user_dir < PATH_MAX then ret user_dir
           else ret ''run''
         }
       }
     }
   }"

section \<open>Names of states and modes\<close>

definition state_to_string :: "nk_container_state_t \<Rightarrow> string" where
  "state_to_string state = (case state of
     NK_STATE_CREATED \<Rightarrow> ''created''
   | NK_STATE_RUNNING \<Rightarrow> ''running''
   | NK_STATE_STOPPED \<Rightarrow> ''stopped''
   | NK_STATE_PAUSED \<Rightarrow> ''paused''
   | _ \<Rightarrow> ''unknown'')"

definition string_to_state :: "string \<Rightarrow> nk_container_state_t" where
  "string_to_state str =
     (if str = ''created'' then NK_STATE_CREATED
      else if str = ''running'' then NK_STATE_RUNNING
      else if str = ''stopped'' then NK_STATE_STOPPED
      else if str = ''paused'' then NK_STATE_PAUSED
      else NK_STATE_CREATED)"

definition mode_to_string :: "nk_execution_mode_t \<Rightarrow> string" where
  "mode_to_string mode = (if mode = NK_MODE_VM then ''vm'' else ''container'')"

definition string_to_mode :: "string \<Rightarrow> nk_execution_mode_t" where
  "string_to_mode str = (if str = ''vm'' then NK_MODE_VM else NK_MODE_CONTAINER)"

section \<open>Paths of a container\<close>

definition get_container_state_path :: "string \<Rightarrow> cptr prog" where
  "get_container_state_path container_id = do {
     state_dir \<leftarrow> get_state_dir;
     ok \<leftarrow> alloc;
     ret (if ok then Some (state_dir @ ''/'' @ container_id @ ''/'' @ STATE_FILE) else None)
   }"

definition get_container_dir :: "string \<Rightarrow> cptr prog" where
  "get_container_dir container_id = do {
     state_dir \<leftarrow> get_state_dir;
     ok \<leftarrow> alloc;
     ret (if ok then Some (state_dir @ ''/'' @ container_id) else None)
   }"

text \<open>The part of \<open>ensure_container_dir\<close> after the state directory is there.\<close>

definition make_container_dir :: "string \<Rightarrow> int prog" where
  "make_container_dir container_id = do {
     d \<leftarrow> get_container_dir container_id;
     case d of
       None \<Rightarrow> do { st_err 151; ret (-1) }
     | Some dir \<Rightarrow> do {
         st_err 155;
         st_err 161;
         st \<leftarrow> sys_stat dir;
         r \<leftarrow> (case st of
            Inr nd \<Rightarrow> do {
              st_err 164;
              if nd \<noteq> Dir then do { st_err 167; ret (-1) }
              else do { st_err 171; ret 0 }
            }
          | Inl _ \<Rightarrow> do {
              st_err 175;
              m \<leftarrow> sys_mkdir dir;
              case m of
                Inl _ \<Rightarrow> do { st_err 178; ret (-1) }
              | Inr _ \<Rightarrow> do { st_err 183; ret 0 }
            });
         st_err 188;
         ret r
       }
   }"

definition ensure_container_dir :: "string \<Rightarrow> int prog" where
  "ensure_container_dir container_id = do {
     st_err 138;
     state_dir \<leftarrow> get_state_dir;
     r \<leftarrow> mkdir_p (Some state_dir);
     if r = -1 then do { st_err 143; ret (-1) }
     else make_container_dir container_id
   }"

section \<open>Saving\<close>

definition container_json :: "'j jansson \<Rightarrow> nk_container \<Rightarrow> 'j" where
  "container_json J c =
     (let root = json_object J;
          root = json_object_set J root ''id'' (json_string J (the (c_id c)));
          root = json_object_set J root ''bundle_path''
                   (json_string J (case c_bundle_path c of None \<Rightarrow> [] | Some b \<Rightarrow> b));
          root = json_object_set J root ''state'' (json_string J (state_to_string (c_state c)));
          root = json_object_set J root ''mode'' (json_string J (mode_to_string (c_mode c)))
      in json_object_set J root ''pid'' (Some (json_integer J (c_init_pid c))))"

text \<open>The part from \<open>fopen\<close> to \<open>fclose\<close>, whose own result the code does not look at.\<close>

definition write_state_file :: "string \<Rightarrow> string \<Rightarrow> int prog" where
  "write_state_file state_path text = do {
     f \<leftarrow> sys_fopen_w state_path;
     case f of
       Inr k \<Rightarrow> do {
         st_err 258;
         r \<leftarrow> sys_fwrite state_path k text;
         rv \<leftarrow> (case r of Inl _ \<Rightarrow> do { st_err 261; ret (-1) } | Inr _ \<Rightarrow> ret 0);
         st_err 265;
         sys_fclose_w state_path k;
         st_err 268;
         ret rv
       }
     | Inl _ \<Rightarrow> do { st_err 271; ret (-1) }
   }"

definition nk_state_save :: "'j jansson \<Rightarrow> nk_container option \<Rightarrow> int prog" where
  "nk_state_save J container = do {
     st_err 198;
     case container of
       None \<Rightarrow> do { st_err 203; ret (-1) }
     | Some c \<Rightarrow> (case c_id c of
         None \<Rightarrow> do { st_err 203; ret (-1) }
       | Some cid \<Rightarrow> do {
           st_err 208;
           r \<leftarrow> ensure_container_dir cid;
           if r = -1 then do { st_err 211; ret (-1) }
           else do {
             st_err 215;
             st_err 218;
             p \<leftarrow> get_container_state_path cid;
             case p of
               None \<Rightarrow> do { st_err 222; ret (-1) }
             | Some state_path \<Rightarrow> do {
                 st_err 226;
                 st_err 230;
                 ok \<leftarrow> alloc;
                 if \<not> ok then do { st_err 234; ret (-1) }
                 else do {
                   st_err 239;
                   st_err 242;
                   let root = container_json J c;
                   st_err 249;
                   st_err 253;
                   r \<leftarrow> write_state_file state_path (json_dumps J root);
                   st_err 277;
                   st_err 281;
                   ret r
                 }
               }
           }
         })
   }"

section \<open>Loading, deleting, querying\<close>

text \<open>\<open>pid_t\<close> is a 32-bit integer: storing jansson's 64-bit value truncates it.\<close>

definition to_pid :: "int \<Rightarrow> int" where
  "to_pid i = signed_take_bit 31 i"

definition container_of_json :: "'j jansson \<Rightarrow> 'j \<Rightarrow> cptr \<Rightarrow> nk_container" where
  "container_of_json J root state_path =
     zero_container\<lparr>
       c_id := string_member J root ''id'',
       c_bundle_path := (case string_member J root ''bundle_path'' of
          Some b \<Rightarrow> if 0 < length b then Some b else None | None \<Rightarrow> None),
       c_state := (case string_member J root ''state'' of
          Some s \<Rightarrow> string_to_state s | None \<Rightarrow> c_state zero_container),
       c_mode := (case string_member J root ''mode'' of
          Some s \<Rightarrow> string_to_mode s | None \<Rightarrow> c_mode zero_container),
       c_init_pid := (case json_object_get J root ''pid'' of
          Some v \<Rightarrow> if json_is_integer J v then to_pid (json_integer_value J v) else 0
        | None \<Rightarrow> 0),
       c_control_fd := -1,
       c_state_file := state_path\<rparr>"

definition nk_state_load :: "'j jansson \<Rightarrow> cptr \<Rightarrow> nk_container option prog" where
  "nk_state_load J container_id = (case container_id of
     None \<Rightarrow> ret None
   | Some cid \<Rightarrow> do {
       p \<leftarrow> get_container_state_path cid;
       case p of
         None \<Rightarrow> ret None
       | Some state_path \<Rightarrow> do {
           f \<leftarrow> sys_fopen_r state_path;
           case f of
             Inl _ \<Rightarrow> do { st_err 302; ret None }
           | Inr nd \<Rightarrow> do {
               t \<leftarrow> sys_fread state_path nd;
               case (case t of Inl _ \<Rightarrow> None | Inr s \<Rightarrow> json_loads J s) of
                 None \<Rightarrow> do { st_err 314; ret None }
               | Some root \<Rightarrow> do {
                   ok \<leftarrow> alloc;
                   if \<not> ok then ret None
                   else do {
                     sp \<leftarrow> get_container_state_path cid;
                     ret (Some (container_of_json J root sp))
                   }
                 }
             }
         }
     })"

definition nk_state_delete :: "cptr \<Rightarrow> int prog" where
  "nk_state_delete container_id = (case container_id of
     None \<Rightarrow> ret (-1)
   | Some cid \<Rightarrow> do {
       p \<leftarrow> get_container_state_path cid;
       case p of
         None \<Rightarrow> ret (-1)
       | Some state_path \<Rightarrow> do {
           r \<leftarrow> sys_unlink state_path;
           (case r of
              Inl e \<Rightarrow> if e \<noteq> ENOENT then st_err 373 else ret ()
            | Inr _ \<Rightarrow> ret ());
           d \<leftarrow> get_container_dir cid;
           (case d of
              None \<Rightarrow> ret ()
            | Some dir \<Rightarrow> do { sys_rmdir dir; ret () });
           ret (case r of Inl _ \<Rightarrow> -1 | Inr _ \<Rightarrow> 0)
         }
     })"

definition nk_state_exists :: "cptr \<Rightarrow> bool prog" where
  "nk_state_exists container_id = (case container_id of
     None \<Rightarrow> ret False
   | Some cid \<Rightarrow> do {
       p \<leftarrow> get_container_state_path cid;
       case p of
         None \<Rightarrow> ret False
       | Some state_path \<Rightarrow> do {
           st \<leftarrow> sys_stat state_path;
           ret (case st of Inr (Reg _) \<Rightarrow> True | _ \<Rightarrow> False)
         }
     })"

section \<open>Frames\<close>

lemma get_state_dir_obeys:
  "obeys static_rel get_state_dir" "obeys grow_rel get_state_dir" "obeys tree_rel get_state_dir"
  "obeys (calls_rel C) get_state_dir"
  unfolding get_state_dir_def
  by (intro static_intros, intro grow_intros, intro tree_intros, intro calls_intros)

declare get_state_dir_obeys(1) [static_intros] get_state_dir_obeys(2) [grow_intros]
  get_state_dir_obeys(3) [tree_intros] get_state_dir_obeys(4) [calls_intros]

lemma mkdir_p_loop_obeys:
  "obeys static_rel (mkdir_p_loop d s)" "obeys grow_rel (mkdir_p_loop d s)"
  "obeys (calls_rel store_call) (mkdir_p_loop d s)"
  by (induction d s rule: mkdir_p_loop.induct)
    (simp_all add: static_intros grow_intros calls_intros)

lemma mkdir_p_obeys:
  "obeys static_rel (mkdir_p p)" "obeys grow_rel (mkdir_p p)" "obeys (calls_rel store_call) (mkdir_p p)"
  unfolding mkdir_p_def
  by (intro static_intros mkdir_p_loop_obeys)
    (intro grow_intros mkdir_p_loop_obeys, intro calls_intros mkdir_p_loop_obeys, simp_all)

declare mkdir_p_obeys(1) [static_intros] mkdir_p_obeys(2) [grow_intros]
  mkdir_p_obeys(2) [THEN grow_tree, tree_intros] mkdir_p_obeys(3) [calls_intros]

lemma paths_obey:
  "obeys static_rel (get_container_state_path i)" "obeys grow_rel (get_container_state_path i)"
  "obeys (calls_rel store_call) (get_container_state_path i)"
  "obeys static_rel (get_container_dir i)" "obeys grow_rel (get_container_dir i)"
  "obeys (calls_rel store_call) (get_container_dir i)"
  unfolding get_container_state_path_def get_container_dir_def
  by (intro static_intros, intro grow_intros, intro calls_intros, simp,
      intro static_intros, intro grow_intros, intro calls_intros, simp)

declare paths_obey(1,4) [static_intros] paths_obey(2,5) [grow_intros]
  paths_obey(2,5) [THEN grow_tree, tree_intros] paths_obey(3,6) [calls_intros]

lemma ensure_container_dir_obeys:
  "obeys static_rel (ensure_container_dir i)" "obeys grow_rel (ensure_container_dir i)"
  "obeys (calls_rel store_call) (ensure_container_dir i)"
  unfolding ensure_container_dir_def make_container_dir_def
  by (intro static_intros, intro grow_intros, intro calls_intros, simp_all)

declare ensure_container_dir_obeys(1) [static_intros] ensure_container_dir_obeys(2) [grow_intros]
  ensure_container_dir_obeys(2) [THEN grow_tree, tree_intros] ensure_container_dir_obeys(3) [calls_intros]

lemma write_state_file_obeys:
  "obeys static_rel (write_state_file p s)" "obeys tree_rel (write_state_file p s)"
  "obeys (calls_rel store_call) (write_state_file p s)"
  unfolding write_state_file_def
  by (intro static_intros, intro tree_intros, intro calls_intros, simp_all)

declare write_state_file_obeys(1) [static_intros] write_state_file_obeys(2) [tree_intros]
  write_state_file_obeys(3) [calls_intros]

lemma nk_state_save_obeys [static_intros, tree_intros, calls_intros]:
  "obeys static_rel (nk_state_save J c)" "obeys tree_rel (nk_state_save J c)"
  "obeys (calls_rel store_call) (nk_state_save J c)"
  unfolding nk_state_save_def
  by (intro static_intros, intro tree_intros, intro calls_intros, simp_all)

lemma nk_state_load_obeys:
  "obeys static_rel (nk_state_load J i)" "obeys grow_rel (nk_state_load J i)"
  "obeys (calls_rel store_call) (nk_state_load J i)"
  unfolding nk_state_load_def
  by (intro static_intros, intro grow_intros, intro calls_intros, simp_all)

lemma nk_state_exists_obeys:
  "obeys static_rel (nk_state_exists i)" "obeys grow_rel (nk_state_exists i)"
  "obeys (calls_rel store_call) (nk_state_exists i)"
  unfolding nk_state_exists_def
  by (intro static_intros, intro grow_intros, intro calls_intros, simp_all)

lemma nk_state_delete_obeys [static_intros, tree_intros, calls_intros]:
  "obeys static_rel (nk_state_delete i)" "obeys tree_rel (nk_state_delete i)"
  "obeys (calls_rel store_call) (nk_state_delete i)"
  unfolding nk_state_delete_def
  by (intro static_intros, intro tree_intros, intro calls_intros, simp_all)

declare nk_state_load_obeys(1) [static_intros] nk_state_load_obeys(2) [grow_intros]
  nk_state_load_obeys(2) [THEN grow_tree, tree_intros] nk_state_load_obeys(3) [calls_intros]
  nk_state_exists_obeys(1) [static_intros] nk_state_exists_obeys(2) [grow_intros]
  nk_state_exists_obeys(2) [THEN grow_tree, tree_intros] nk_state_exists_obeys(3) [calls_intros]

end
