(* ===== verification/StoreFacts.thy ===== *)
theory StoreFacts
  imports StateStore
begin

text \<open>
  What the state store promises. \<open>stored J w cid\<close> is the container that the world \<open>w\<close> holds
  under the name \<open>cid\<close>: the abstract value of the store. The lemmas relate every operation
  to it, when the kernel refuses the store no call (\<open>reliable\<close>) and, where said, for every answer of
  the kernel. The locale \<open>container_store\<close> is the contract the lifecycle commands use.
\<close>

section \<open>The abstract value of the store\<close>

definition state_dir :: "world \<Rightarrow> string" where
  "state_dir w = res get_state_dir w"

definition state_path :: "world \<Rightarrow> string \<Rightarrow> string" where
  "state_path w cid = state_dir w @ ''/'' @ cid @ ''/'' @ STATE_FILE"

definition container_dir :: "world \<Rightarrow> string \<Rightarrow> string" where
  "container_dir w cid = state_dir w @ ''/'' @ cid"

definition stored_text :: "world \<Rightarrow> string \<Rightarrow> string option" where
  "stored_text w cid = (case lookup w (state_path w cid) of Inr (Reg s) \<Rightarrow> Some s | _ \<Rightarrow> None)"

definition stored :: "'j jansson \<Rightarrow> world \<Rightarrow> string \<Rightarrow> nk_container option" where
  "stored J w cid = (case stored_text w cid of
     None \<Rightarrow> None
   | Some s \<Rightarrow> map_option (\<lambda>r. container_of_json J r (Some (state_path w cid))) (json_loads J s))"

lemma run_get_state_dir [simp]: "run_state get_state_dir w = (state_dir w, w)"
  unfolding state_dir_def get_state_dir_def geteuid_def by (simp add: run_if Let_def)

lemma state_dir_static: "static_rel w w' \<Longrightarrow> state_dir w' = state_dir w"
  unfolding state_dir_def get_state_dir_def geteuid_def static_rel_def by (simp add: run_if Let_def)

lemma state_dir_not_Nil [simp]: "state_dir w \<noteq> []"
proof -
  have "\<And>x. nonempty x \<Longrightarrow> the x \<noteq> []" by (metis nonempty.elims(2) option.sel)
  then show ?thesis
    unfolding state_dir_def get_state_dir_def geteuid_def
    by (simp add: run_if Let_def NS_STATE_DIR_ROOT_def NS_STATE_DIR_USER_SUFFIX_def)
qed

lemma static_log [simp]: "static_rel w (w\<lparr>w_log := l\<rparr>)"
  by (simp add: static_rel_def)

lemma static_tick [simp]: "static_rel w (tick c e w)"
  by (simp add: static_rel_def)

lemma lookup_static:
  assumes "static_rel w w'" and "w_fs w' = w_fs w"
  shows "lookup w' = lookup w" "resolve w' = resolve w"
  using assms lookup_cong [of w' w] by (auto simp: static_rel_def)

lemma world_of_log [simp]:
  "reliable (w\<lparr>w_log := l\<rparr>) = reliable w" "state_dir (w\<lparr>w_log := l\<rparr>) = state_dir w"
  "lookup (w\<lparr>w_log := l\<rparr>) = lookup w" "resolve (w\<lparr>w_log := l\<rparr>) = resolve w"
  by (rule static_reliable state_dir_static lookup_static; simp)+

lemma world_of_tick [simp]:
  "state_dir (tick c e w) = state_dir w"
  "lookup (tick c e w) = lookup w" "resolve (tick c e w) = resolve w"
  by (rule state_dir_static lookup_static; simp)+

lemma state_path_simps [simp]:
  "state_path (w\<lparr>w_log := l\<rparr>) = state_path w" "state_path (tick c e w) = state_path w"
  "container_dir (w\<lparr>w_log := l\<rparr>) = container_dir w" "container_dir (tick c e w) = container_dir w"
  by (simp_all add: state_path_def container_dir_def fun_eq_iff)

lemma state_path_static: "static_rel w w' \<Longrightarrow> state_path w' = state_path w"
  by (simp add: state_path_def state_dir_static fun_eq_iff)

lemma stored_cong:
  assumes "static_rel w w'" and "w_fs w' = w_fs w"
  shows "stored_text w' = stored_text w" "stored J w' = stored J w"
proof -
  show t: "stored_text w' = stored_text w"
    using state_path_static [OF assms(1)] lookup_static [OF assms]
    by (simp add: stored_text_def fun_eq_iff)
  show "stored J w' = stored J w"
    by (rule ext) (simp add: stored_def t state_path_static [OF assms(1)] split: option.split)
qed

section \<open>Calls that are not refused\<close>

lemma wp_stat: "reliable w \<Longrightarrow> Q (lookup w p) (tick (Stat p) (err_of (lookup w p)) w) \<Longrightarrow> wp (sys_stat p) Q w"
  by (simp add: wp_def run_stat)

lemma wp_fopen_r:
  "reliable w \<Longrightarrow> Q (lookup w p) (tick (FopenR p) (err_of (lookup w p)) w) \<Longrightarrow> wp (sys_fopen_r p) Q w"
  by (simp add: wp_def run_fopen_r)

lemma wp_fread:
  assumes "reliable w"
    and "\<And>s. nd = Reg s \<Longrightarrow> Q (Inr s) (tick (Fread p) None w)"
    and "\<And>e. nd \<in> {Dir, Special} \<Longrightarrow> Q (Inl e) (tick (Fread p) (Some e) w)"
  shows "wp (sys_fread p nd) Q w"
  using assms by (cases nd) (simp_all add: wp_def sys_fread_def run_syscall)

lemma wp_alloc: "reliable w \<Longrightarrow> Q True (tick Malloc None w) \<Longrightarrow> wp alloc Q w"
  by (simp add: wp_def run_alloc)

lemma wp_fseek:
  "reliable w \<Longrightarrow> Q (end_offset nd) (tick (Fseek p) (err_of (end_offset nd)) w) \<Longrightarrow> wp (sys_fseek p nd) Q w"
  by (simp add: wp_def sys_fseek_def run_syscall)

lemma wp_ftell:
  "reliable w \<Longrightarrow> Q (end_offset nd) (tick (Ftell p) (err_of (end_offset nd)) w) \<Longrightarrow> wp (sys_ftell p nd) Q w"
  by (simp add: wp_def sys_ftell_def run_syscall)

lemma wp_state_path:
  "reliable w \<Longrightarrow> Q (Some (state_path w cid)) (tick Malloc None w)
    \<Longrightarrow> wp (get_container_state_path cid) Q w"
  by (simp add: wp_def get_container_state_path_def run_alloc state_path_def)

lemma wp_container_dir:
  "reliable w \<Longrightarrow> Q (Some (container_dir w cid)) (tick Malloc None w)
    \<Longrightarrow> wp (get_container_dir cid) Q w"
  by (simp add: wp_def get_container_dir_def run_alloc container_dir_def)

lemmas wp_calls = wp_stat wp_fopen_r wp_fread wp_fseek wp_ftell wp_alloc wp_strdup wp_state_path wp_container_dir

section \<open>Reading the store\<close>

lemma nk_state_load_wp:
  assumes "reliable w"
  shows "wp (nk_state_load J (Some cid)) (\<lambda>a w'. a = stored J w cid \<and> w_fs w' = w_fs w) w"
  unfolding nk_state_load_def option.case(2)
  by (intro wp_intros wp_calls)
    (use assms in \<open>auto simp: stored_def stored_text_def split: sum.splits\<close>)

lemma nk_state_exists_wp:
  assumes "reliable w"
  shows "wp (nk_state_exists (Some cid)) (\<lambda>a w'. a = (stored_text w cid \<noteq> None) \<and> w_fs w' = w_fs w) w"
  unfolding nk_state_exists_def option.case(2)
  by (intro wp_intros wp_calls)
    (use assms in \<open>auto simp: stored_text_def split: sum.splits node.splits\<close>)

section \<open>The JSON text of a container\<close>

text \<open>\<open>norm c\<close> is what survives writing a container to disk and reading it back.\<close>

definition norm :: "nk_container \<Rightarrow> nk_container" where
  "norm c = c\<lparr>
     c_bundle_path := (if c_bundle_path c = Some [] then None else c_bundle_path c),
     c_state := (if c_state c = NK_STATE_INVALID then NK_STATE_CREATED else c_state c),
     c_init_pid := to_pid (c_init_pid c),
     c_state_file := None,
     c_control_fd := -1\<rparr>"

definition writable :: "(string \<Rightarrow> bool) \<Rightarrow> nk_container \<Rightarrow> bool" where
  "writable utf8 c \<longleftrightarrow> (\<exists>i. c_id c = Some i \<and> utf8 i)
     \<and> (case c_bundle_path c of None \<Rightarrow> True | Some b \<Rightarrow> utf8 b)
     \<and> - (2 ^ 63) \<le> c_init_pid c \<and> c_init_pid c < 2 ^ 63"

lemma state_string_roundtrip:
  "string_to_state (state_to_string s) = (if s = NK_STATE_INVALID then NK_STATE_CREATED else s)"
  by (cases s) (simp_all add: string_to_state_def state_to_string_def)

lemma mode_string_roundtrip [simp]: "string_to_mode (mode_to_string m) = m"
  by (cases m) (simp_all add: string_to_mode_def mode_to_string_def)

context jansson_library begin

lemma names_utf8:
  "utf8 ''id''" "utf8 ''bundle_path''" "utf8 ''state''" "utf8 ''mode''" "utf8 ''pid''" "utf8 []"
  "utf8 (state_to_string st)" "utf8 (mode_to_string m)"
  by (rule ascii_utf8, simp add: ascii_def state_to_string_def mode_to_string_def
      split: nk_container_state_t.split)+

lemma container_text_roundtrip:
  assumes "writable utf8 c"
  shows "\<exists>r. json_loads J (json_dumps J (container_json J c)) = Some r
    \<and> container_of_json J r sp = (norm c)\<lparr>c_state_file := sp\<rparr>"
proof -
  obtain i where i: "c_id c = Some i" "utf8 i" using assms by (auto simp: writable_def)
  have b: "utf8 (case c_bundle_path c of None \<Rightarrow> [] | Some b \<Rightarrow> b)"
    using assms names_utf8 by (auto simp: writable_def split: option.splits)
  note str = string_member_set [OF _ names_utf8(1) i(2)] string_member_set [OF _ names_utf8(2) b]
    string_member_set [OF _ names_utf8(3) names_utf8(7)] string_member_set [OF _ names_utf8(4) names_utf8(8)]
  define r1 where "r1 = json_object_set J (json_object J) ''id'' (json_string J i)"
  define r2 where "r2 = json_object_set J r1 ''bundle_path''
    (json_string J (case c_bundle_path c of None \<Rightarrow> [] | Some b \<Rightarrow> b))"
  define r3 where "r3 = json_object_set J r2 ''state'' (json_string J (state_to_string (c_state c)))"
  define r4 where "r4 = json_object_set J r3 ''mode'' (json_string J (mode_to_string (c_mode c)))"
  define r5 where "r5 = json_object_set J r4 ''pid'' (Some (json_integer J (c_init_pid c)))"
  have flat: "flat_object J r1" "flat_object J r2" "flat_object J r3" "flat_object J r4" "flat_object J r5"
    unfolding r5_def r4_def r3_def r2_def r1_def
    using flat_set_string flat_set_integer flat_empty names_utf8 i(2) b by presburger+
  have c: "container_json J c = r5"
    by (simp add: container_json_def i r1_def r2_def r3_def r4_def r5_def Let_def)
  obtain r where r: "json_loads J (json_dumps J r5) = Some r"
    and same: "\<And>k. json_object_get J r k = json_object_get J r5 k"
    using loads_dumps [OF flat(5)] by blast
  have m4: "string_member J r4 k = (if k = ''mode'' then Some (mode_to_string (c_mode c))
      else if k = ''state'' then Some (state_to_string (c_state c))
      else if k = ''bundle_path'' then Some (case c_bundle_path c of None \<Rightarrow> [] | Some b \<Rightarrow> b)
      else if k = ''id'' then Some i else string_member J (json_object J) k)" for k
    unfolding r4_def r3_def r2_def r1_def
    using str flat flat_empty unfolding r4_def r3_def r2_def r1_def by presburger
  have m5: "string_member J r k = string_member J r4 k" if "k \<noteq> ''pid''" for k
    using that flat(4) names_utf8(5)
    by (simp add: string_member_def same r5_def get_set flat_object_def)
  have pid: "json_object_get J r ''pid'' = Some (json_integer J (c_init_pid c))"
    using flat(4) names_utf8(5) by (simp add: same r5_def get_set flat_object_def)
  have "container_of_json J r sp = (norm c)\<lparr>c_state_file := sp\<rparr>"
    using assms
    by (auto simp: container_of_json_def m5 m4 pid integer_is integer_value state_string_roundtrip
        norm_def zero_container_def i writable_def split: option.split)
  with r show ?thesis by (auto simp: c)
qed

end

end
