(* ===== verification/StoreDirs.thy ===== *)
theory StoreDirs
  imports StoreFacts "HOL-Library.Sublist"
begin

text \<open>
  \<open>mkdir_p\<close> is correct: when the kernel refuses the store no call and nothing but directories stands
  in the way, it returns 0 and has made exactly the missing directories of the path.
  \<open>dirs_made fs b cs fs'\<close> is this effect, for the path with components \<open>cs\<close> below the
  directory \<open>b\<close>; \<open>free_way\<close> is its precondition.
\<close>

section \<open>Effect and precondition\<close>

definition free_way :: "fs \<Rightarrow> string list \<Rightarrow> string list \<Rightarrow> bool" where
  "free_way fs b cs \<longleftrightarrow> node_at fs b = Some Dir \<and>
     (\<forall>p. prefix p cs \<longrightarrow> node_at fs (b @ p) = None \<or> node_at fs (b @ p) = Some Dir)"

definition dirs_made :: "fs \<Rightarrow> string list \<Rightarrow> string list \<Rightarrow> fs \<Rightarrow> bool" where
  "dirs_made fs b cs fs' \<longleftrightarrow>
     (\<forall>k. node_at fs' k = (if \<exists>p. prefix p cs \<and> k = b @ p then Some Dir else node_at fs k))"

lemma free_way_prefix: "free_way fs b (cs @ ds) \<Longrightarrow> free_way fs b cs"
  unfolding free_way_def by (metis prefix_prefix)

lemma dirs_made_free: "free_way fs b ds \<Longrightarrow> dirs_made fs b cs fs' \<Longrightarrow> free_way fs' b ds"
  unfolding free_way_def dirs_made_def by simp

lemma dirs_made_all: "dirs_made fs b cs fs' \<Longrightarrow> all_dirs fs' b cs"
  unfolding dirs_made_def all_dirs_def dirs_upto_def by (auto simp: take_is_prefix)

lemma dirs_upto_prefix: "dirs_upto fs b cs \<Longrightarrow> prefix p cs \<Longrightarrow> p \<noteq> cs \<Longrightarrow> node_at fs (b @ p) = Some Dir"
  unfolding dirs_upto_def
  by (metis append_eq_conv_conj prefix_def prefix_length_less prefix_order.le_imp_less_or_eq)

lemma dirs_made_refl: "all_dirs fs b cs \<Longrightarrow> dirs_made fs b cs fs"
  unfolding dirs_made_def all_dirs_def by (auto dest: dirs_upto_prefix)

lemma dirs_made_put:
  assumes "dirs_upto fs b cs" and "b @ cs \<noteq> []"
  shows "dirs_made fs b cs (put_node (b @ cs) Dir fs)"
  using assms dirs_upto_prefix [OF assms(1)] unfolding dirs_made_def by auto

text \<open>Some of the directories have been made.\<close>

definition part_made :: "fs \<Rightarrow> string list \<Rightarrow> string list \<Rightarrow> fs \<Rightarrow> bool" where
  "part_made fs b cs fs' \<longleftrightarrow>
     (\<forall>k. node_at fs' k = node_at fs k \<or> node_at fs' k = Some Dir \<and> (\<exists>p. prefix p cs \<and> k = b @ p))"

lemma part_made_refl [simp]: "part_made fs b cs fs"
  by (simp add: part_made_def)

lemma part_made_trans: "part_made u b cs v \<Longrightarrow> part_made v b cs w \<Longrightarrow> part_made u b cs w"
  unfolding part_made_def by metis

lemma dirs_made_part: "dirs_made fs b cs fs' \<Longrightarrow> part_made fs b (cs @ ds) fs'"
  unfolding dirs_made_def part_made_def by (metis prefix_prefix)

lemma part_made_dirs: "part_made u b cs v \<Longrightarrow> dirs_made v b cs w \<Longrightarrow> dirs_made u b cs w"
  unfolding part_made_def dirs_made_def by metis

lemma part_made_free: "free_way fs b cs \<Longrightarrow> part_made fs b cs fs' \<Longrightarrow> free_way fs' b cs"
  unfolding free_way_def part_made_def by metis

lemma dirs_made_other:
  "dirs_made fs b cs fs' \<Longrightarrow> length cs < length ds \<Longrightarrow> node_at fs' (b @ ds) = node_at fs (b @ ds)"
  unfolding dirs_made_def by (auto dest: prefix_length_le)

section \<open>The loop\<close>

text \<open>Every slash of the path so far closes a directory that exists.\<close>

definition slashes_ok :: "fs \<Rightarrow> string list \<Rightarrow> string \<Rightarrow> bool" where
  "slashes_ok fs b d \<longleftrightarrow> (\<forall>q r. d = q @ CHR ''/'' # r \<longrightarrow> all_dirs fs b (comps q))"

lemma split_slash_single: "CHR ''/'' \<notin> set r \<Longrightarrow> split_slash r = [r]"
  by (induction r) auto

lemma slashes_dirs_upto:
  assumes "slashes_ok fs b d" and "node_at fs b = Some Dir"
  shows "dirs_upto fs b (comps d)"
proof -
  have last: "comps r = [] \<or> comps r = [r]" if "CHR ''/'' \<notin> set r" for r
    using split_slash_single [OF that] by (simp add: comps_def)
  show ?thesis
  proof (cases "CHR ''/'' \<in> set d")
    case True
    then obtain q r where d: "d = q @ CHR ''/'' # r" "CHR ''/'' \<notin> set r"
      by (metis split_list_last)
    then have "all_dirs fs b (comps q)" using assms(1) by (simp add: slashes_ok_def)
    with last [OF d(2)] show ?thesis
      by (auto simp: d(1) comps_append_slash dirs_upto_append dirs_upto_Cons all_dirs_def)
  next
    case False
    from last [OF this] assms(2) show ?thesis by (auto simp: dirs_upto_Cons)
  qed
qed

lemma slashes_ok_snoc:
  "slashes_ok fs b d \<Longrightarrow> (c = CHR ''/'' \<Longrightarrow> all_dirs fs b (comps d)) \<Longrightarrow> slashes_ok fs b (d @ [c])"
  unfolding slashes_ok_def
proof (intro allI impI)
  fix q r
  assume *: "\<forall>q r. d = q @ CHR ''/'' # r \<longrightarrow> all_dirs fs b (comps q)"
    "c = CHR ''/'' \<Longrightarrow> all_dirs fs b (comps d)" "d @ [c] = q @ CHR ''/'' # r"
  then show "all_dirs fs b (comps q)"
    by (cases r rule: rev_cases) (auto simp flip: append_Cons append_assoc)
qed

lemma slashes_ok_made: "slashes_ok fs b d \<Longrightarrow> dirs_made fs b cs fs' \<Longrightarrow> slashes_ok fs' b d"
  unfolding slashes_ok_def all_dirs_def dirs_upto_def dirs_made_def by auto

lemma mkdir_step:
  assumes "reliable w" and "d \<noteq> []" and "start_of w d = b" and "''..'' \<notin> set (comps d)"
    and "slashes_ok (w_fs w) b d" and "free_way (w_fs w) b (comps d)"
  shows "wp (sys_mkdir d) (\<lambda>r w'. \<not> mkdir_failed r \<and> static_rel w w'
    \<and> dirs_made (w_fs w) b (comps d) (w_fs w')) w"
proof -
  have b: "node_at (w_fs w) b = Some Dir" using assms(6) by (simp add: free_way_def)
  have up: "dirs_upto (w_fs w) b (comps d)" by (rule slashes_dirs_upto [OF assms(5) b])
  have res: "resolve w d = Inr (b @ comps d)"
    using assms(2,3) b by (simp add: resolve_def Let_def walk_eq [OF assms(4) up])
  show ?thesis
  proof (cases "node_at (w_fs w) (b @ comps d)")
    case None
    then have "b @ comps d \<noteq> []" by auto
    with None dirs_made_put [OF up] assms(1) res show ?thesis
      by (simp add: wp_def sys_mkdir_def run_syscall mkdir_failed_def static_rel_def)
  next
    case (Some nd)
    then have "all_dirs (w_fs w) b (comps d)"
      using up assms(6) by (auto simp: all_dirs_def free_way_def)
    then have "dirs_made (w_fs w) b (comps d) (w_fs w)" by (rule dirs_made_refl)
    with Some assms(1) res show ?thesis
      by (simp add: wp_def sys_mkdir_def run_syscall mkdir_failed_def static_rel_def)
  qed
qed

lemma start_of_static: "static_rel w w' \<Longrightarrow> start_of w' p = start_of w p"
  by (simp add: static_rel_def start_of_def)

lemma start_of_prefix: "d \<noteq> [] \<Longrightarrow> start_of w (d @ s) = start_of w d"
  by (simp add: start_of_def absolute_append)

text \<open>The components before a slash lead to those of the whole path.\<close>

lemma comps_prefix_slash: "comps (d @ CHR ''/'' # s) = comps d @ comps s"
  by (rule comps_append_slash)

lemma mkdir_p_loop_wp:
  assumes "reliable w" and "d \<noteq> []" and "start_of w d = b" and "''..'' \<notin> set (comps (d @ s))"
    and "slashes_ok (w_fs w) b d" and "free_way (w_fs w) b (comps (d @ s))"
  shows "wp (mkdir_p_loop d s) (\<lambda>r w'. r = 0 \<and> static_rel w w' \<and> slashes_ok (w_fs w') b (d @ s)
    \<and> part_made (w_fs w) b (comps (d @ s)) (w_fs w')) w"
  using assms
proof (induction d s arbitrary: w rule: mkdir_p_loop.induct)
  case (1 d)
  then show ?case by (auto simp: wp_def static_rel_def)
next
  case (2 d c cs)
  show ?case
  proof (cases "c = CHR ''/''")
    case True
    have cs: "comps (d @ c # cs) = comps d @ comps cs" by (simp add: True comps_append_slash)
    have step: "wp (sys_mkdir d) (\<lambda>r w'. \<not> mkdir_failed r \<and> static_rel w w'
        \<and> dirs_made (w_fs w) b (comps d) (w_fs w')) w"
      using 2(3-8) by (intro mkdir_step) (auto simp: cs dest: free_way_prefix)
    have rest: "wp (mkdir_p_loop (d @ [c]) cs) (\<lambda>r w'. r = 0 \<and> static_rel w w'
        \<and> slashes_ok (w_fs w') b (d @ c # cs) \<and> part_made (w_fs w) b (comps (d @ c # cs)) (w_fs w')) w1"
      if r: "\<not> mkdir_failed r" "static_rel w w1" "dirs_made (w_fs w) b (comps d) (w_fs w1)" for r w1
    proof -
      have part: "part_made (w_fs w) b (comps (d @ c # cs)) (w_fs w1)"
        unfolding cs by (rule dirs_made_part [OF r(3)])
      have "slashes_ok (w_fs w1) b (d @ [c])"
        using r(3) 2(7) by (intro slashes_ok_snoc) (auto intro: slashes_ok_made dirs_made_all)
      moreover have "free_way (w_fs w1) b (comps (d @ c # cs))"
        by (rule part_made_free [OF 2(8) part])
      ultimately have "wp (mkdir_p_loop (d @ [c]) cs) (\<lambda>r w'. r = 0 \<and> static_rel w1 w'
          \<and> slashes_ok (w_fs w') b ((d @ [c]) @ cs)
          \<and> part_made (w_fs w1) b (comps ((d @ [c]) @ cs)) (w_fs w')) w1"
        using 2(3-6) r True
        by (intro 2(1) [of r]) (simp_all add: static_reliable start_of_static start_of_prefix)
      then show ?thesis
        by (rule wp_mono) (use r(2) part in \<open>auto intro: static.trans part_made_trans\<close>)
    qed
    show ?thesis
      unfolding mkdir_p_loop.simps if_P [OF True]
      by (rule wp_bind, rule wp_mono [OF step]) (auto intro: rest)
  next
    case False
    have "slashes_ok (w_fs w) b (d @ [c])"
      using 2(7) False by (intro slashes_ok_snoc) simp_all
    with 2(3-8) False have "wp (mkdir_p_loop (d @ [c]) cs) (\<lambda>r w'. r = 0 \<and> static_rel w w'
        \<and> slashes_ok (w_fs w') b ((d @ [c]) @ cs)
        \<and> part_made (w_fs w) b (comps ((d @ [c]) @ cs)) (w_fs w')) w"
      by (intro 2(2)) (simp_all add: start_of_prefix)
    with False show ?thesis by simp
  qed
qed

section \<open>The function\<close>

lemma comps_slash_last:
  assumes "p \<noteq> []"
  shows "comps (if last p = CHR ''/'' then butlast p else p) = comps p"
  using assms comps_append_slash [of "butlast p" "[]"] by (metis append_butlast_last_id append_Nil2 comps_Nil)

lemma slashes_ok_first: "node_at fs b = Some Dir \<Longrightarrow> slashes_ok fs b [c]"
  by (auto simp: slashes_ok_def Cons_eq_append_conv)

theorem mkdir_p_wp:
  assumes "reliable w" and "p \<noteq> []" and "length p < PATH_MAX" and "p \<noteq> ''/''"
    and "''..'' \<notin> set (comps p)" and "free_way (w_fs w) (start_of w p) (comps p)"
  shows "wp (mkdir_p (Some p)) (\<lambda>r w'. r = 0 \<and> static_rel w w'
    \<and> dirs_made (w_fs w) (start_of w p) (comps p) (w_fs w')) w"
proof -
  define tmp where "tmp = (if last p = CHR ''/'' then butlast p else p)"
  define b where "b = start_of w p"
  have c: "comps tmp = comps p" unfolding tmp_def by (rule comps_slash_last [OF assms(2)])
  have "tmp \<noteq> []"
    using assms(2,4) by (auto simp: tmp_def) (metis append_butlast_last_id append_Nil)
  then obtain x xs where tmp: "tmp = [x] @ xs" by (cases tmp) auto
  have "p = tmp @ (if last p = CHR ''/'' then ''/'' else [])"
    using assms(2) by (auto simp: tmp_def) (metis append_butlast_last_id)
  then have start: "start_of w tmp = b" "start_of w [x] = b"
    unfolding b_def tmp by (metis append_Cons append_Nil list.distinct(1) start_of_prefix)+
  have "node_at (w_fs w) b = Some Dir" using assms(6) by (simp add: b_def free_way_def)
  then have loop: "wp (mkdir_p_loop [x] xs) (\<lambda>r w'. r = 0 \<and> static_rel w w' \<and> slashes_ok (w_fs w') b tmp
      \<and> part_made (w_fs w) b (comps p) (w_fs w')) w"
    using assms start mkdir_p_loop_wp [of w "[x]" b xs]
    by (simp add: slashes_ok_first tmp [symmetric, simplified] c b_def [symmetric])
  have last: "wp (sys_mkdir tmp) (\<lambda>r w'. \<not> mkdir_failed r \<and> static_rel w w'
      \<and> dirs_made (w_fs w) b (comps p) (w_fs w')) w1"
    if "static_rel w w1" "slashes_ok (w_fs w1) b tmp" "part_made (w_fs w) b (comps p) (w_fs w1)" for w1
  proof -
    have "wp (sys_mkdir tmp) (\<lambda>r w'. \<not> mkdir_failed r \<and> static_rel w1 w'
        \<and> dirs_made (w_fs w1) b (comps tmp) (w_fs w')) w1"
      using that assms(1,5,6) start \<open>tmp \<noteq> []\<close>
      by (intro mkdir_step) (simp_all add: static_reliable start_of_static c b_def part_made_free)
    then show ?thesis
      by (rule wp_mono) (use that in \<open>auto simp: c intro: static.trans part_made_dirs\<close>)
  qed
  have "wp (do { r \<leftarrow> mkdir_p_loop [x] xs; if r = -1 then ret (-1) else do {
      r \<leftarrow> sys_mkdir tmp; if mkdir_failed r then ret (-1) else ret 0 } }) (\<lambda>r w'. r = 0 \<and> static_rel w w'
    \<and> dirs_made (w_fs w) b (comps p) (w_fs w')) w"
    by (rule wp_bind, rule wp_mono [OF loop], clarsimp, rule wp_bind, rule wp_mono [OF last])
      (auto intro: wp_return)
  moreover have "take 1 tmp = [x]" "drop 1 tmp = xs" by (simp_all add: tmp)
  ultimately show ?thesis
    using assms(2,3) by (simp add: mkdir_p_def tmp_def [symmetric] Let_def b_def)
qed

end
