(* ===== verification/StoreContract.thy ===== *)
theory StoreContract
  imports StoreDirs
begin

text \<open>
  The contract of the state store. \<open>store_ok\<close> is its invariant: the kernel refuses the store no call,
  the state directory is usable, and below it stand only container directories with their
  state files. Under it every operation is total and acts on the abstract store, a map from
  identifiers to containers, as its name says. The locale \<open>container_store\<close> is the interface
  the lifecycle commands use; it is interpreted on the model of \<open>state.c\<close>.
\<close>

section \<open>Keys and the invariant\<close>

definition base_key :: "world \<Rightarrow> string list" where
  "base_key w = start_of w (state_dir w) @ comps (state_dir w)"

definition file_key :: "world \<Rightarrow> string \<Rightarrow> string list" where
  "file_key w cid = base_key w @ [cid, STATE_FILE]"

definition store_ok :: "world \<Rightarrow> bool" where
  "store_ok w \<longleftrightarrow> reliable w \<and> fs_wf (w_fs w)
     \<and> state_dir w \<noteq> ''/'' \<and> length (state_dir w) < PATH_MAX \<and> ''..'' \<notin> set (comps (state_dir w))
     \<and> free_way (w_fs w) (start_of w (state_dir w)) (comps (state_dir w))
     \<and> (\<forall>cid. plain_name cid \<longrightarrow>
          (node_at (w_fs w) (base_key w @ [cid]) = None \<or> node_at (w_fs w) (base_key w @ [cid]) = Some Dir)
          \<and> (node_at (w_fs w) (file_key w cid) = None \<or> (\<exists>s. node_at (w_fs w) (file_key w cid) = Some (Reg s))))"

lemma store_okD:
  assumes "store_ok w"
  shows "reliable w" "fs_wf (w_fs w)" "state_dir w \<noteq> ''/''" "length (state_dir w) < PATH_MAX"
    "''..'' \<notin> set (comps (state_dir w))"
    "free_way (w_fs w) (start_of w (state_dir w)) (comps (state_dir w))"
    "plain_name cid \<Longrightarrow> node_at (w_fs w) (base_key w @ [cid]) \<noteq> None
      \<Longrightarrow> node_at (w_fs w) (base_key w @ [cid]) = Some Dir"
    "plain_name cid \<Longrightarrow> node_at (w_fs w) (file_key w cid) = Some nd \<Longrightarrow> \<exists>s. nd = Reg s"
proof -
  from assms show "reliable w" "fs_wf (w_fs w)" "state_dir w \<noteq> ''/''" "length (state_dir w) < PATH_MAX"
    "''..'' \<notin> set (comps (state_dir w))"
    "free_way (w_fs w) (start_of w (state_dir w)) (comps (state_dir w))"
    by (simp_all add: store_ok_def)
  from assms have slot: "plain_name cid \<longrightarrow>
      (node_at (w_fs w) (base_key w @ [cid]) = None \<or> node_at (w_fs w) (base_key w @ [cid]) = Some Dir)
      \<and> (node_at (w_fs w) (file_key w cid) = None \<or> (\<exists>s. node_at (w_fs w) (file_key w cid) = Some (Reg s)))"
    by (simp add: store_ok_def)
  then show "plain_name cid \<Longrightarrow> node_at (w_fs w) (base_key w @ [cid]) \<noteq> None
      \<Longrightarrow> node_at (w_fs w) (base_key w @ [cid]) = Some Dir"
    by fastforce
  from slot show "plain_name cid \<Longrightarrow> node_at (w_fs w) (file_key w cid) = Some nd \<Longrightarrow> \<exists>s. nd = Reg s"
    by auto
qed

lemma keys_static:
  assumes "static_rel w w'"
  shows "base_key w' = base_key w" "file_key w' = file_key w"
  using assms by (simp_all add: base_key_def file_key_def fun_eq_iff state_dir_static start_of_static)

lemma store_ok_static:
  "static_rel w w' \<Longrightarrow> w_fs w' = w_fs w \<Longrightarrow> store_ok w' = store_ok w"
  unfolding store_ok_def
  by (simp add: static_reliable keys_static state_dir_static start_of_static)

lemma STATE_FILE_plain [simp]: "comps STATE_FILE = [STATE_FILE]" "STATE_FILE \<noteq> ''..''" "''..'' \<noteq> STATE_FILE"
  by (simp_all add: STATE_FILE_def comps_def)

lemma comps_paths:
  assumes "plain_name cid"
  shows "comps (state_path w cid) = comps (state_dir w) @ [cid, STATE_FILE]"
    "comps (container_dir w cid) = comps (state_dir w) @ [cid]"
  using comps_append_slash [of "state_dir w" "cid @ CHR ''/'' # STATE_FILE"]
    comps_append_slash [of cid STATE_FILE] comps_append_slash [of "state_dir w" cid] assms
  by (simp_all add: state_path_def container_dir_def plain_nameD)

lemma start_of_paths:
  "start_of w (state_path w cid) = start_of w (state_dir w)"
  "start_of w (container_dir w cid) = start_of w (state_dir w)"
  by (simp_all add: state_path_def container_dir_def start_of_prefix)

lemma paths_not_Nil [simp]: "state_path w cid \<noteq> []" "container_dir w cid \<noteq> []"
  by (simp_all add: state_path_def container_dir_def)

text \<open>The path of a state file resolves to its key, as soon as the directories are there.\<close>

lemma resolve_paths:
  assumes "store_ok w" and "plain_name cid"
    and "all_dirs (w_fs w) (start_of w (state_dir w)) (comps (state_dir w))"
  shows "resolve w (container_dir w cid) = Inr (base_key w @ [cid])"
    "node_at (w_fs w) (base_key w @ [cid]) = Some Dir \<Longrightarrow>
      resolve w (state_path w cid) = Inr (file_key w cid)"
proof -
  have walk: "dirs_upto (w_fs w) (start_of w p) (comps p) \<Longrightarrow> ''..'' \<notin> set (comps p) \<Longrightarrow> comps p \<noteq> []
      \<Longrightarrow> resolve w p = Inr (start_of w p @ comps p)" for p
    by (auto simp: resolve_def Let_def walk_eq)
  have dots: "''..'' \<notin> set (comps (container_dir w cid))" "''..'' \<notin> set (comps (state_path w cid))"
    using store_okD(5) [OF assms(1)] assms(2) plain_name_not_dotdot [OF assms(2)]
    by (auto simp: comps_paths)
  show "resolve w (container_dir w cid) = Inr (base_key w @ [cid])"
    using assms walk [OF _ dots(1)]
    by (simp add: start_of_paths comps_paths dirs_upto_append dirs_upto_Cons all_dirs_def base_key_def)
  show "resolve w (state_path w cid) = Inr (file_key w cid)"
    if "node_at (w_fs w) (base_key w @ [cid]) = Some Dir"
    using assms that walk [OF _ dots(2)]
    by (simp add: start_of_paths comps_paths dirs_upto_append dirs_upto_Cons all_dirs_def
        base_key_def file_key_def)
qed

lemma fs_wf_all_dirs:
  "fs_wf fs \<Longrightarrow> node_at fs (b @ cs @ d # ds) = Some nd \<Longrightarrow> all_dirs fs b cs"
  using fs_wf_dirs_upto [of fs b "cs @ d # ds" nd]
  by (simp add: dirs_upto_append dirs_upto_Cons all_dirs_def)

lemma lookup_key:
  assumes "store_ok w" and "plain_name cid"
  shows "lookup w (state_path w cid) = Inr nd \<longleftrightarrow> node_at (w_fs w) (file_key w cid) = Some nd"
proof
  have eq: "walk (w_fs w) (start_of w (state_dir w)) (comps (state_path w cid)) = Inr k
      \<longleftrightarrow> dirs_upto (w_fs w) (start_of w (state_dir w)) (comps (state_path w cid)) \<and> k = file_key w cid" for k
    using store_okD(5) [OF assms(1)] plain_name_not_dotdot [OF assms(2)]
    by (subst walk_Inr) (auto simp: comps_paths [OF assms(2)] file_key_def base_key_def)
  then show "lookup w (state_path w cid) = Inr nd \<Longrightarrow> node_at (w_fs w) (file_key w cid) = Some nd"
    by (auto simp: lookup_Inr resolve_def Let_def start_of_paths split: if_splits)
  assume nd: "node_at (w_fs w) (file_key w cid) = Some nd"
  then have "dirs_upto (w_fs w) (start_of w (state_dir w)) (comps (state_path w cid))"
    using fs_wf_dirs_upto [OF store_okD(2) [OF assms(1)], of _ _ nd]
    by (simp add: file_key_def base_key_def comps_paths [OF assms(2)])
  with eq nd show "lookup w (state_path w cid) = Inr nd"
    by (simp add: lookup_Inr resolve_def Let_def start_of_paths comps_paths [OF assms(2)])
qed

lemma stored_text_node:
  assumes "store_ok w" and "plain_name cid"
  shows "stored_text w cid =
    (case node_at (w_fs w) (file_key w cid) of Some (Reg s) \<Rightarrow> Some s | _ \<Rightarrow> None)"
  using lookup_key [OF assms]
  by (cases "lookup w (state_path w cid)")
    (auto simp: stored_text_def split: node.splits option.splits)

text \<open>The invariant depends on the nodes of the store only.\<close>

lemma store_ok_change:
  assumes "store_ok w" and "static_rel w w'" and "fs_wf (w_fs w')"
    and "\<And>p. prefix p (comps (state_dir w)) \<Longrightarrow>
      node_at (w_fs w') (start_of w (state_dir w) @ p) = node_at (w_fs w) (start_of w (state_dir w) @ p)
      \<or> node_at (w_fs w') (start_of w (state_dir w) @ p) = Some Dir"
    and "\<And>i. plain_name i \<Longrightarrow>
      node_at (w_fs w') (base_key w @ [i]) = node_at (w_fs w) (base_key w @ [i])
      \<or> node_at (w_fs w') (base_key w @ [i]) \<in> {None, Some Dir}"
    and "\<And>i. plain_name i \<Longrightarrow>
      node_at (w_fs w') (file_key w i) = node_at (w_fs w) (file_key w i)
      \<or> node_at (w_fs w') (file_key w i) \<in> {None} \<union> range (Some \<circ> Reg)"
  shows "store_ok w'"
proof -
  have "free_way (w_fs w') (start_of w (state_dir w)) (comps (state_dir w))"
    using store_okD(6) [OF assms(1)] assms(4)
    unfolding free_way_def by (metis append_Nil2 Nil_prefix)
  moreover have "plain_name i \<Longrightarrow>
      node_at (w_fs w') (base_key w @ [i]) = None \<or> node_at (w_fs w') (base_key w @ [i]) = Some Dir" for i
    using assms(5) [of i] store_okD(7) [OF assms(1), of i] by force
  moreover have "plain_name i \<Longrightarrow>
      node_at (w_fs w') (file_key w i) = None \<or> (\<exists>s. node_at (w_fs w') (file_key w i) = Some (Reg s))" for i
    using assms(6) [of i] store_okD(8) [OF assms(1), of i] by (cases "node_at (w_fs w) (file_key w i)") auto
  ultimately show ?thesis
    using store_okD(1,3-5) [OF assms(1)] assms(2,3)
    unfolding store_ok_def
    by (simp add: static_reliable keys_static state_dir_static start_of_static)
qed

section \<open>Writing\<close>

text \<open>\<open>ensure_container_dir\<close> makes the state directory and the container's directory.\<close>

lemma wp_obeys: "obeys R m \<Longrightarrow> wp m (\<lambda>_. R w) w"
  by (simp add: wp_def obeys_def)

lemma wp_state_dir: "Q (state_dir w) w \<Longrightarrow> wp get_state_dir Q w"
  by (simp add: wp_def)

lemma wp_mkdir_p:
  assumes "store_ok w"
    and "\<And>w'. static_rel w w' \<Longrightarrow> fs_wf (w_fs w') \<Longrightarrow>
      dirs_made (w_fs w) (start_of w (state_dir w)) (comps (state_dir w)) (w_fs w') \<Longrightarrow> Q 0 w'"
  shows "wp (mkdir_p (Some (state_dir w))) Q w"
proof -
  have "wp (mkdir_p (Some (state_dir w))) (\<lambda>r w'. (r = 0 \<and> static_rel w w'
      \<and> dirs_made (w_fs w) (start_of w (state_dir w)) (comps (state_dir w)) (w_fs w')) \<and> grow_rel w w') w"
    using store_okD [OF assms(1)]
    by (intro wp_conj mkdir_p_wp wp_obeys mkdir_p_obeys) auto
  then show ?thesis
    by (rule wp_mono) (use store_okD(2) [OF assms(1)] assms(2) in \<open>auto simp: grow_rel_def\<close>)
qed

lemma dirs_made_store_ok:
  assumes "store_ok w" and "static_rel w w'" and "fs_wf (w_fs w')"
    and "dirs_made (w_fs w) (start_of w (state_dir w)) (comps (state_dir w)) (w_fs w')"
  shows "store_ok w'"
    "\<And>ks. ks \<noteq> [] \<Longrightarrow> node_at (w_fs w') (base_key w @ ks) = node_at (w_fs w) (base_key w @ ks)"
proof -
  show other: "node_at (w_fs w') (base_key w @ ks) = node_at (w_fs w) (base_key w @ ks)"
    if "ks \<noteq> []" for ks
    using dirs_made_other [OF assms(4), of "comps (state_dir w) @ ks"] that by (simp add: base_key_def)
  show "store_ok w'"
    using assms(4) by (intro store_ok_change [OF assms(1-3)])
      (simp_all add: other file_key_def, auto simp: dirs_made_def)
qed

lemma lookup_container_dir:
  assumes "store_ok w" and "plain_name cid"
    and "all_dirs (w_fs w) (start_of w (state_dir w)) (comps (state_dir w))"
  shows "lookup w (container_dir w cid) =
    (case node_at (w_fs w) (base_key w @ [cid]) of None \<Rightarrow> Inl ENOENT | Some _ \<Rightarrow> Inr Dir)"
  using resolve_paths(1) [OF assms] store_okD(7) [OF assms(1,2)]
  by (auto simp: lookup_def split: option.split)

lemma wp_mkdir:
  assumes "reliable w" and "resolve w p = Inr k" and "node_at (w_fs w) k = None"
    and "Q (Inr ()) ((tick (Mkdir p) None w)\<lparr>w_fs := put_node k Dir (w_fs w)\<rparr>)"
  shows "wp (sys_mkdir p) Q w"
  using assms by (simp add: wp_def sys_mkdir_def run_syscall)

text \<open>What the steps of a save have established: the directories exist, no state file changed.\<close>

definition ready :: "world \<Rightarrow> string \<Rightarrow> world \<Rightarrow> bool" where
  "ready w cid w' \<longleftrightarrow> static_rel w w' \<and> store_ok w'
    \<and> all_dirs (w_fs w') (start_of w (state_dir w)) (comps (state_dir w))
    \<and> node_at (w_fs w') (base_key w @ [cid]) = Some Dir
    \<and> (\<forall>i. node_at (w_fs w') (file_key w i) = node_at (w_fs w) (file_key w i))"

lemma ready_mkdir:
  assumes "store_ok w" and "plain_name cid" and "static_rel w w1"
    and "all_dirs (w_fs w1) (start_of w (state_dir w)) (comps (state_dir w))"
    and "store_ok w1" and "\<And>i. node_at (w_fs w1) (file_key w i) = node_at (w_fs w) (file_key w i)"
    and "node_at (w_fs w1) (base_key w @ [cid]) = None"
    and "static_rel w1 w2" and "w_fs w2 = put_node (base_key w @ [cid]) Dir (w_fs w1)"
  shows "ready w cid w2"
proof -
  have k: "base_key w1 = base_key w" "file_key w1 = file_key w" "state_dir w1 = state_dir w"
    "start_of w1 = start_of w"
    using assms(3) by (simp_all add: keys_static state_dir_static fun_eq_iff start_of_static)
  have "fs_wf (w_fs w2)"
    unfolding assms(9) using assms(4,7) store_okD(2) [OF assms(5)]
    by (intro fs_wf_put) (simp_all add: base_key_def all_dirs_def butlast_append)
  moreover have same: "node_at (w_fs w2) (file_key w i) = node_at (w_fs w1) (file_key w i)" for i
    by (simp add: assms(9) file_key_def)
  ultimately have "store_ok w2"
    using assms(9)
    by (intro store_ok_change [OF assms(5) assms(8)])
      (auto simp: k base_key_def file_key_def)
  moreover have "all_dirs (w_fs w2) (start_of w (state_dir w)) (comps (state_dir w))"
    using assms(4) unfolding all_dirs_def dirs_upto_def by (auto simp: assms(9))
  ultimately show ?thesis
    using assms(3,6,8) same by (auto simp: ready_def assms(9) intro: static.trans)
qed

lemma ready_same:
  assumes "store_ok w" and "static_rel w w1"
    and "all_dirs (w_fs w1) (start_of w (state_dir w)) (comps (state_dir w))"
    and "store_ok w1" and "\<And>i. node_at (w_fs w1) (file_key w i) = node_at (w_fs w) (file_key w i)"
    and "node_at (w_fs w1) (base_key w @ [cid]) = Some Dir"
    and "static_rel w1 w2" and "w_fs w2 = w_fs w1"
  shows "ready w cid w2"
  using assms store_ok_static [OF assms(7,8)] by (auto simp: ready_def intro: static.trans)

lemma ready_cong: "ready w cid w1 \<Longrightarrow> static_rel w1 w2 \<Longrightarrow> w_fs w2 = w_fs w1 \<Longrightarrow> ready w cid w2"
  using store_ok_static [of w1 w2] by (auto simp: ready_def intro: static.trans)

lemma make_container_dir_wp:
  assumes "store_ok w" and "plain_name cid" and "static_rel w w1" and "fs_wf (w_fs w1)"
    and "dirs_made (w_fs w) (start_of w (state_dir w)) (comps (state_dir w)) (w_fs w1)"
  shows "wp (make_container_dir cid) (\<lambda>r w'. r = 0 \<and> ready w cid w') w1"
proof -
  note ok = dirs_made_store_ok [OF assms(1,3,4,5)]
  have k: "base_key w1 = base_key w" "state_dir w1 = state_dir w" "start_of w1 = start_of w"
    using assms(3) by (simp_all add: keys_static state_dir_static fun_eq_iff start_of_static)
  have all: "all_dirs (w_fs w1) (start_of w (state_dir w)) (comps (state_dir w))"
    by (rule dirs_made_all [OF assms(5)])
  have same: "node_at (w_fs w1) (file_key w i) = node_at (w_fs w) (file_key w i)" for i
    by (simp add: file_key_def ok(2))
  note look = lookup_container_dir [OF ok(1) assms(2), unfolded k, OF all]
  note res = resolve_paths(1) [OF ok(1) assms(2), unfolded k, OF all]
  note rdy = ready_mkdir [OF assms(1-3) all ok(1) same] ready_same [OF assms(1,3) all ok(1) same]
  show ?thesis
    unfolding make_container_dir_def
    by (intro wp_intros wp_calls wp_mkdir [where k = "base_key w @ [cid]"])
      (use store_okD(1) [OF ok(1)] store_okD(7) [OF ok(1) assms(2)] look res k in
        \<open>auto simp: static_rel_def split: option.splits intro: rdy\<close>)
qed

lemma start_of_log [simp]: "start_of (w\<lparr>w_log := l\<rparr>) = start_of w"
  by (simp add: start_of_def fun_eq_iff)

lemma store_ok_log [simp]: "store_ok (w\<lparr>w_log := l\<rparr>) = store_ok w"
  by (rule store_ok_static) simp_all

lemma store_ok_tick [simp]: "store_ok (tick c e w) = store_ok w"
  by (rule store_ok_static) simp_all

lemma static_trans_log: "static_rel (w\<lparr>w_log := l\<rparr>) w' \<Longrightarrow> static_rel w w'"
  by (simp add: static_rel_def)

lemma ensure_container_dir_wp:
  assumes "store_ok w" and "plain_name cid"
  shows "wp (ensure_container_dir cid) (\<lambda>r w'. r = 0 \<and> ready w cid w') w"
  unfolding ensure_container_dir_def
proof (intro wp_intros wp_state_dir)
  fix l
  show "wp (mkdir_p (Some (state_dir (w\<lparr>w_log := l\<rparr>))))
     (\<lambda>a. wp (if a = - 1 then st_err 143 \<bind> (\<lambda>_. ret (- 1)) else make_container_dir cid)
       (\<lambda>r w'. r = 0 \<and> ready w cid w')) (w\<lparr>w_log := l\<rparr>)"
    using assms by (intro wp_mkdir_p) (auto intro!: make_container_dir_wp intro: static_trans_log)
qed

text \<open>Opening for writing, writing and closing leave the text in the file.\<close>

lemma wp_fopen_w:
  assumes "reliable w" and "resolve w p = Inr k"
    and "node_at (w_fs w) k = None \<or> (\<exists>s. node_at (w_fs w) k = Some (Reg s))"
    and "Q (Inr k) ((tick (FopenW p) None w)\<lparr>w_fs := put_node k (Reg []) (w_fs w)\<rparr>)"
  shows "wp (sys_fopen_w p) Q w"
  using assms by (auto simp: wp_def sys_fopen_w_def run_syscall)

lemma wp_fwrite:
  "reliable w \<Longrightarrow> Q (Inr ()) ((tick (Fwrite p s) None w)\<lparr>w_fs := append_file k s (w_fs w)\<rparr>)
    \<Longrightarrow> wp (sys_fwrite p k s) Q w"
  by (simp add: wp_def sys_fwrite_def run_syscall)

lemma wp_fclose_w:
  "reliable w \<Longrightarrow> Q (Inr ()) (tick (Fclose p) None w) \<Longrightarrow> wp (sys_fclose_w p k) Q w"
  by (simp add: wp_def sys_fclose_w_def run_syscall)

lemma reliable_fs [simp]: "reliable (w\<lparr>w_fs := fs\<rparr>) = reliable w"
  by (simp add: reliable_def)

lemma write_state_file_wp:
  assumes "reliable w" and "resolve w p = Inr k" and "k \<noteq> []"
    and "node_at (w_fs w) k = None \<or> (\<exists>s. node_at (w_fs w) k = Some (Reg s))"
  shows "wp (write_state_file p text) (\<lambda>r w'. r = 0
    \<and> (\<forall>k'. node_at (w_fs w') k' = (if k' = k then Some (Reg text) else node_at (w_fs w) k'))) w"
  unfolding write_state_file_def
  by (intro wp_intros wp_fopen_w wp_fwrite wp_fclose_w)
    (use assms in \<open>auto simp: node_append_file\<close>)

text \<open>The outcome of a step: the store invariant holds and the state files are as given.\<close>

definition outcome :: "world \<Rightarrow> (string \<Rightarrow> string option) \<Rightarrow> world \<Rightarrow> bool" where
  "outcome w texts w' \<longleftrightarrow> static_rel w w' \<and> store_ok w'
     \<and> (\<forall>i. plain_name i \<longrightarrow> stored_text w' i = texts i)"

lemma outcome_cong: "outcome w t w1 \<Longrightarrow> static_rel w1 w2 \<Longrightarrow> w_fs w2 = w_fs w1 \<Longrightarrow> outcome w t w2"
  by (auto simp: outcome_def store_ok_static stored_cong(1) intro: static.trans)

lemma outcome_log [simp]: "outcome w t w1 \<Longrightarrow> outcome w t (w1\<lparr>w_log := l\<rparr>)"
  by (erule outcome_cong) simp_all

lemma outcome_tick [simp]: "outcome w t w1 \<Longrightarrow> outcome w t (tick c e w1)"
  by (erule outcome_cong) simp_all

lemma outcome_refl: "store_ok w \<Longrightarrow> outcome w (stored_text w) w"
  by (simp add: outcome_def static_rel_def)

lemma outcome_from_log: "outcome (w\<lparr>w_log := l\<rparr>) t w1 \<Longrightarrow> outcome w t w1"
  by (auto simp: outcome_def intro: static_trans_log)

lemma file_key_inject [simp]: "file_key w i = file_key w j \<longleftrightarrow> i = j"
  by (simp add: file_key_def)

lemma file_key_not_Nil [simp]: "file_key w i \<noteq> []"
  by (simp add: file_key_def)

lemma ready_write:
  assumes "store_ok w" and "plain_name cid" and "ready w cid w1" and "static_rel w1 w2" and "fs_wf (w_fs w2)"
    and "\<And>k. node_at (w_fs w2) k = (if k = file_key w cid then Some (Reg text) else node_at (w_fs w1) k)"
  shows "outcome w ((stored_text w)(cid := Some text)) w2"
proof -
  have r: "static_rel w w1" "store_ok w1" "\<And>i. node_at (w_fs w1) (file_key w i) = node_at (w_fs w) (file_key w i)"
    "node_at (w_fs w1) (base_key w @ [cid]) = Some Dir"
    using assms(3) by (simp_all add: ready_def)
  have k: "base_key w1 = base_key w" "file_key w1 = file_key w" "state_dir w1 = state_dir w"
    "start_of w1 = start_of w"
    using r(1) by (simp_all add: keys_static state_dir_static fun_eq_iff start_of_static)
  have short: "start_of w (state_dir w) @ p \<noteq> file_key w cid" if "prefix p (comps (state_dir w))" for p
    using prefix_length_le [OF that] by (auto simp: file_key_def base_key_def)
  have ok: "store_ok w2"
    by (intro store_ok_change [OF r(2) assms(4,5)]) (auto simp: k assms(6) short, auto simp: file_key_def)
  have s: "static_rel w w2" by (rule static.trans [OF r(1) assms(4)])
  then have "file_key w2 = file_key w" by (simp add: keys_static)
  then have "stored_text w2 i = ((stored_text w)(cid := Some text)) i" if "plain_name i" for i
    using that r(3) by (simp add: stored_text_node [OF ok] stored_text_node [OF assms(1)] assms(6))
  with ok s show ?thesis by (simp add: outcome_def)
qed

lemma wp_ensure:
  "store_ok w \<Longrightarrow> plain_name cid \<Longrightarrow> (\<And>w'. ready w cid w' \<Longrightarrow> Q 0 w') \<Longrightarrow> wp (ensure_container_dir cid) Q w"
  by (rule wp_mono [OF ensure_container_dir_wp]) auto

lemma ready_resolve:
  assumes "ready w cid w1" and "store_ok w" and "plain_name cid"
  shows "resolve w1 (state_path w1 cid) = Inr (file_key w cid)"
    "node_at (w_fs w1) (file_key w cid) = None \<or> (\<exists>s. node_at (w_fs w1) (file_key w cid) = Some (Reg s))"
proof -
  have r: "static_rel w w1" "store_ok w1"
    "all_dirs (w_fs w1) (start_of w (state_dir w)) (comps (state_dir w))"
    "node_at (w_fs w1) (base_key w @ [cid]) = Some Dir"
    using assms(1) by (simp_all add: ready_def)
  have k: "base_key w1 = base_key w" "file_key w1 = file_key w" "state_dir w1 = state_dir w"
    "start_of w1 = start_of w"
    using r(1) by (simp_all add: keys_static state_dir_static fun_eq_iff start_of_static)
  show "resolve w1 (state_path w1 cid) = Inr (file_key w cid)"
    using resolve_paths(2) [OF r(2) assms(3)] r(3,4) by (simp add: k)
  show "node_at (w_fs w1) (file_key w cid) = None \<or> (\<exists>s. node_at (w_fs w1) (file_key w cid) = Some (Reg s))"
    using store_okD(8) [OF r(2) assms(3)] by (cases "node_at (w_fs w1) (file_key w cid)") (auto simp: k)
qed

lemma wp_write_ready:
  assumes "store_ok w" and "plain_name cid" and "ready w cid w1" and p: "state_path w1 cid = p"
    and Q: "\<And>w'. outcome w ((stored_text w)(cid := Some text)) w' \<Longrightarrow> Q 0 w'"
  shows "wp (write_state_file p text) Q w1"
  unfolding p [symmetric]
proof -
  have ok: "store_ok w1" using assms(3) by (simp add: ready_def)
  note r = ready_resolve [OF assms(3,1,2)]
  have "wp (write_state_file (state_path w1 cid) text) (\<lambda>r w'. ((r = 0
    \<and> (\<forall>k'. node_at (w_fs w') k' = (if k' = file_key w cid then Some (Reg text) else node_at (w_fs w1) k')))
    \<and> static_rel w1 w') \<and> tree_rel w1 w') w1"
    using store_okD(1) [OF ok] r
    by (intro wp_conj wp_obeys write_state_file_obeys write_state_file_wp) auto
  then show "wp (write_state_file (state_path w1 cid) text) Q w1"
    by (rule wp_mono)
      (use store_okD(2) [OF ok] in \<open>auto simp: tree_rel_def intro!: Q ready_write [OF assms(1-3)]\<close>)
qed

lemma ready_simps:
  "ready w cid w1 \<Longrightarrow> ready w cid (w1\<lparr>w_log := l\<rparr>)" "ready w cid w1 \<Longrightarrow> ready w cid (tick c e w1)"
  by (erule ready_cong; simp)+

lemma ready_from_log: "ready (w\<lparr>w_log := l\<rparr>) cid w1 \<Longrightarrow> ready w cid w1"
  by (auto simp: ready_def base_key_def file_key_def intro: static_trans_log)

theorem nk_state_save_wp:
  assumes "store_ok w" and "c_id c = Some cid" and "plain_name cid"
  shows "wp (nk_state_save J (Some c)) (\<lambda>r w'. r = 0
    \<and> outcome w ((stored_text w)(cid := Some (json_dumps J (container_json J c)))) w') w"
  unfolding nk_state_save_def option.case assms(2)
proof (intro wp_intros wp_ensure wp_calls, goal_cases)
  case 8
  then show ?case
    by (intro wp_write_ready [OF assms(1,3)])
      (auto intro!: wp_intros ready_simps intro: ready_from_log)
qed (use assms in \<open>auto simp: ready_def dest: store_okD(1)\<close>)

text \<open>Removing the state file and the directory.\<close>

lemma wp_unlink:
  assumes "reliable w"
    and "\<And>k nd. resolve w p = Inr k \<Longrightarrow> node_at (w_fs w) k = Some nd \<Longrightarrow> nd \<noteq> Dir \<Longrightarrow>
      Q (Inr ()) ((tick (Unlink p) None w)\<lparr>w_fs := del_node k (w_fs w)\<rparr>)"
    and "\<And>e. \<not> (\<exists>nd. lookup w p = Inr nd \<and> nd \<noteq> Dir) \<Longrightarrow> Q (Inl e) (tick (Unlink p) (Some e) w)"
  shows "wp (sys_unlink p) Q w"
  using assms
  by (auto simp: wp_def sys_unlink_def run_syscall lookup_def split: sum.splits option.splits node.splits)

lemma wp_rmdir:
  assumes "reliable w"
    and "\<And>k. resolve w p = Inr k \<Longrightarrow> node_at (w_fs w) k = Some Dir \<Longrightarrow> k \<noteq> [] \<Longrightarrow> \<not> has_child (w_fs w) k \<Longrightarrow>
      Q (Inr ()) ((tick (Rmdir p) None w)\<lparr>w_fs := del_node k (w_fs w)\<rparr>)"
    and "\<And>e. Q (Inl e) (tick (Rmdir p) (Some e) w)"
  shows "wp (sys_rmdir p) Q w"
  using assms
  by (auto simp: wp_def sys_rmdir_def run_syscall split: sum.splits option.splits node.splits)

lemma resolve_key:
  assumes "store_ok w" and "plain_name cid"
  shows "resolve w (state_path w cid) = Inr k \<Longrightarrow> k = file_key w cid"
    "resolve w (container_dir w cid) = Inr k \<Longrightarrow> k = base_key w @ [cid]"
proof -
  have walk: "resolve w p = Inr k \<Longrightarrow> k = start_of w p @ comps p" if "''..'' \<notin> set (comps p)" for p
    using that by (auto simp: resolve_def Let_def walk_Inr split: if_splits)
  have dots: "''..'' \<notin> set (comps (container_dir w cid))" "''..'' \<notin> set (comps (state_path w cid))"
    using store_okD(5) [OF assms(1)] assms(2) plain_name_not_dotdot [OF assms(2)]
    by (auto simp: comps_paths)
  show "resolve w (state_path w cid) = Inr k \<Longrightarrow> k = file_key w cid"
    using walk [OF dots(2)] by (simp add: start_of_paths comps_paths [OF assms(2)] file_key_def base_key_def)
  show "resolve w (container_dir w cid) = Inr k \<Longrightarrow> k = base_key w @ [cid]"
    using walk [OF dots(1)] by (simp add: start_of_paths comps_paths [OF assms(2)] base_key_def)
qed

lemma delete_file_outcome:
  assumes "store_ok w" and "plain_name cid" and "static_rel w w'" and "fs_wf (w_fs w')"
    and "w_fs w' = del_node (file_key w cid) (w_fs w)"
  shows "outcome w ((stored_text w)(cid := None)) w'"
proof -
  have short: "start_of w (state_dir w) @ p \<noteq> file_key w cid" if "prefix p (comps (state_dir w))" for p
    using prefix_length_le [OF that] by (auto simp: file_key_def base_key_def)
  have ok: "store_ok w'"
    by (intro store_ok_change [OF assms(1,3,4)]) (auto simp: assms(5) short)
  have "file_key w' = file_key w" using assms(3) by (simp add: keys_static)
  then have "stored_text w' i = ((stored_text w)(cid := None)) i" if "plain_name i" for i
    using that by (simp add: stored_text_node [OF ok] stored_text_node [OF assms(1)] assms(5))
  with ok assms(3) show ?thesis by (simp add: outcome_def)
qed

lemma delete_dir_outcome:
  assumes "store_ok w1" and "plain_name cid" and "outcome w t w1" and "static_rel w1 w'" and "fs_wf (w_fs w')"
    and "w_fs w' = del_node (base_key w1 @ [cid]) (w_fs w1)"
  shows "outcome w t w'"
proof -
  have short: "start_of w1 (state_dir w1) @ p \<noteq> base_key w1 @ [cid]" if "prefix p (comps (state_dir w1))" for p
    using prefix_length_le [OF that] by (auto simp: base_key_def)
  have ok: "store_ok w'"
    by (intro store_ok_change [OF assms(1,4,5)]) (auto simp: assms(6) short)
  have "file_key w' = file_key w1" using assms(4) by (simp add: keys_static)
  then have "stored_text w' i = stored_text w1 i" if "plain_name i" for i
    using that by (simp add: stored_text_node [OF ok] stored_text_node [OF assms(1)] assms(6) file_key_def)
  with ok assms(3,4) show ?thesis by (auto simp: outcome_def intro: static.trans)
qed

lemma wp_unlink_state:
  assumes "store_ok w1" and "plain_name cid" and p: "p = state_path w1 cid" and w: "outcome w t w1"
    and "\<And>w'. stored_text w1 cid \<noteq> None \<Longrightarrow> outcome w (t(cid := None)) w' \<Longrightarrow> Q (Inr ()) w'"
    and "\<And>e w'. stored_text w1 cid = None \<Longrightarrow> outcome w (t(cid := None)) w' \<Longrightarrow> Q (Inl e) w'"
  shows "wp (sys_unlink p) Q w1"
proof (rule wp_unlink)
  show "reliable w1" by (rule store_okD(1) [OF assms(1)])
  have from_w: "outcome w (t(cid := None)) w'" if "outcome w1 ((stored_text w1)(cid := None)) w'" for w'
    using that w by (auto simp: outcome_def intro: static.trans)
  show "Q (Inl e) (tick (Unlink p) (Some e) w1)"
    if "\<not> (\<exists>nd. lookup w1 p = Inr nd \<and> nd \<noteq> Dir)" for e
  proof -
    have none: "stored_text w1 cid = None"
      using that p by (auto simp: stored_text_def split: sum.splits node.splits)
    then have "t(cid := None) = (\<lambda>i. if i = cid then stored_text w1 cid else t i)" by auto
    then have "outcome w (t(cid := None)) w1" using w by (auto simp: outcome_def)
    with none show ?thesis by (intro assms(6)) simp_all
  qed
  fix k nd
  assume k: "resolve w1 p = Inr k" "node_at (w_fs w1) k = Some nd" "nd \<noteq> Dir"
  define w2 where "w2 = (tick (Unlink p) None w1)\<lparr>w_fs := del_node k (w_fs w1)\<rparr>"
  have key: "k = file_key w1 cid" using k(1) resolve_key(1) [OF assms(1,2)] by (simp add: p)
  obtain s where "nd = Reg s" using store_okD(8) [OF assms(1,2)] k(2) key by blast
  then have some: "stored_text w1 cid \<noteq> None"
    using k(2) by (simp add: stored_text_node [OF assms(1,2)] key)
  have "fs_wf (w_fs w2)"
    using k store_okD(2) [OF assms(1)] unfolding w2_def
    by (auto simp: key intro!: fs_wf_del fs_wf_no_child)
  then have "outcome w1 ((stored_text w1)(cid := None)) w2"
    by (intro delete_file_outcome [OF assms(1,2)]) (simp_all add: w2_def key static_rel_def)
  then show "Q (Inr ()) w2" by (intro assms(5) some from_w)
qed

lemma wp_rmdir_dir:
  assumes "store_ok w1" and "plain_name cid" and p: "p = container_dir w1 cid" and w: "outcome w t w1"
    and "\<And>r w'. outcome w t w' \<Longrightarrow> Q r w'"
  shows "wp (sys_rmdir p) Q w1"
proof (rule wp_rmdir)
  show "reliable w1" by (rule store_okD(1) [OF assms(1)])
  show "Q (Inl e) (tick (Rmdir p) (Some e) w1)" for e
    using w by (intro assms(5)) simp
  fix k
  assume k: "resolve w1 p = Inr k" "node_at (w_fs w1) k = Some Dir" "k \<noteq> []" "\<not> has_child (w_fs w1) k"
  define w2 where "w2 = (tick (Rmdir p) None w1)\<lparr>w_fs := del_node k (w_fs w1)\<rparr>"
  have key: "k = base_key w1 @ [cid]" using k(1) resolve_key(2) [OF assms(1,2)] by (simp add: p)
  have "fs_wf (w_fs w2)"
    using k store_okD(2) [OF assms(1)] unfolding w2_def by (auto simp: has_child_iff intro!: fs_wf_del)
  then have "outcome w t w2"
    by (intro delete_dir_outcome [OF assms(1,2) w]) (simp_all add: w2_def key static_rel_def)
  then show "Q (Inr ()) w2" by (rule assms(5))
qed

lemma stored_text_simps [simp]:
  "stored_text (tick c e w) = stored_text w" "stored_text (w\<lparr>w_log := l\<rparr>) = stored_text w"
  by (rule stored_cong(1); simp)+

theorem nk_state_delete_wp:
  assumes "store_ok w" and "plain_name cid"
  shows "wp (nk_state_delete (Some cid)) (\<lambda>r w'. r = (if stored_text w cid = None then -1 else 0)
    \<and> outcome w ((stored_text w)(cid := None)) w') w"
proof -
  note out = outcome_refl [OF assms(1)]
  have ok: "outcome w t w1 \<Longrightarrow> store_ok w1" for t w1 by (simp add: outcome_def)
  show ?thesis
    unfolding nk_state_delete_def option.case
    by (intro wp_intros wp_calls wp_unlink_state [where w = w and t = "stored_text w" and cid = cid]
        wp_rmdir_dir [where w = w and t = "(stored_text w)(cid := None)" and cid = cid])
      (auto simp: assms store_okD(1) out ok)
qed

lemma nk_state_load_outcome:
  assumes "store_ok w"
  shows "wp (nk_state_load J (Some cid)) (\<lambda>a w'. a = stored J w cid \<and> outcome w (stored_text w) w') w"
proof -
  have "wp (nk_state_load J (Some cid)) (\<lambda>a w'. (a = stored J w cid \<and> w_fs w' = w_fs w) \<and> static_rel w w') w"
    by (intro wp_conj wp_obeys nk_state_load_obeys nk_state_load_wp store_okD(1) [OF assms])
  then show ?thesis
    by (rule wp_mono) (use assms in \<open>auto intro: outcome_cong [OF outcome_refl]\<close>)
qed

lemma nk_state_exists_outcome:
  assumes "store_ok w"
  shows "wp (nk_state_exists (Some cid)) (\<lambda>a w'. a = (stored_text w cid \<noteq> None)
    \<and> outcome w (stored_text w) w') w"
proof -
  have "wp (nk_state_exists (Some cid)) (\<lambda>a w'. (a = (stored_text w cid \<noteq> None) \<and> w_fs w' = w_fs w)
      \<and> static_rel w w') w"
    by (intro wp_conj wp_obeys nk_state_exists_obeys nk_state_exists_wp store_okD(1) [OF assms])
  then show ?thesis
    by (rule wp_mono) (use assms in \<open>auto intro: outcome_cong [OF outcome_refl]\<close>)
qed

section \<open>The contract\<close>

text \<open>
  The store as its clients see it: a map from names to entries. An entry is \<open>Some v\<close> for a
  readable container and \<open>None\<close> for a state file that does not parse.
\<close>

datatype 'c store_cmd = Save 'c | Remove string

text \<open>A sequence of saves and removals, on the store and on the abstract map.\<close>

fun run_cmds :: "('c \<Rightarrow> ('s, int) state) \<Rightarrow> (string \<Rightarrow> ('s, int) state) \<Rightarrow> 'c store_cmd list \<Rightarrow> ('s, unit) state" where
  "run_cmds save remove [] = ret ()"
| "run_cmds save remove (Save c # cs) = do { save c; run_cmds save remove cs }"
| "run_cmds save remove (Remove i # cs) = do { remove i; run_cmds save remove cs }"

fun map_cmds :: "('c \<Rightarrow> string) \<Rightarrow> ('c \<Rightarrow> 'v) \<Rightarrow> 'c store_cmd list \<Rightarrow> (string \<Rightarrow> 'v option option)
    \<Rightarrow> string \<Rightarrow> 'v option option" where
  "map_cmds name_of abst [] m = m"
| "map_cmds name_of abst (Save c # cs) m = map_cmds name_of abst cs (m(name_of c := Some (Some (abst c))))"
| "map_cmds name_of abst (Remove i # cs) m = map_cmds name_of abst cs (m(i := None))"

fun cmd_ok :: "('c \<Rightarrow> bool) \<Rightarrow> (string \<Rightarrow> bool) \<Rightarrow> 'c store_cmd \<Rightarrow> bool" where
  "cmd_ok good named (Save c) = good c"
| "cmd_ok good named (Remove i) = named i"

locale container_store =
  fixes ok :: "'s \<Rightarrow> bool" and named :: "string \<Rightarrow> bool" and view :: "'s \<Rightarrow> string \<Rightarrow> 'v option option"
    and good :: "'c \<Rightarrow> bool" and name_of :: "'c \<Rightarrow> string" and abst :: "'c \<Rightarrow> 'v"
    and save :: "'c \<Rightarrow> ('s, int) state" and load :: "string \<Rightarrow> ('s, 'c option) state"
    and remove :: "string \<Rightarrow> ('s, int) state" and present :: "string \<Rightarrow> ('s, bool) state"
  assumes good_named: "good c \<Longrightarrow> named (name_of c)"
    and save_law: "ok s \<Longrightarrow> good c \<Longrightarrow> wp (save c) (\<lambda>r s'. r = 0 \<and> ok s' \<and>
      (\<forall>i. named i \<longrightarrow> view s' i = ((view s)(name_of c := Some (Some (abst c)))) i)) s"
    and load_law: "ok s \<Longrightarrow> named i \<Longrightarrow> wp (load i) (\<lambda>r s'. map_option abst r = Option.bind (view s i) id
      \<and> ok s' \<and> (\<forall>j. named j \<longrightarrow> view s' j = view s j)) s"
    and remove_law: "ok s \<Longrightarrow> named i \<Longrightarrow> wp (remove i) (\<lambda>r s'. r = (if view s i = None then -1 else 0)
      \<and> ok s' \<and> (\<forall>j. named j \<longrightarrow> view s' j = ((view s)(i := None)) j)) s"
    and present_law: "ok s \<Longrightarrow> named i \<Longrightarrow> wp (present i) (\<lambda>r s'. r = (view s i \<noteq> None)
      \<and> ok s' \<and> (\<forall>j. named j \<longrightarrow> view s' j = view s j)) s"
begin

lemma save_then_load:
  assumes "ok s" and "good c"
  shows "wp (do { save c; load (name_of c) }) (\<lambda>r s'. map_option abst r = Some (abst c) \<and> ok s') s"
  by (rule wp_bind, rule wp_mono [OF save_law [OF assms]], rule wp_mono [OF load_law])
    (use good_named [OF assms(2)] in auto)

lemma save_other:
  assumes "ok s" and "good c" and "named i" and "i \<noteq> name_of c"
  shows "wp (do { save c; load i }) (\<lambda>r s'. map_option abst r = Option.bind (view s i) id) s"
  by (rule wp_bind, rule wp_mono [OF save_law [OF assms(1,2)]], rule wp_mono [OF load_law])
    (use assms in auto)

lemma remove_gone:
  assumes "ok s" and "named i"
  shows "wp (do { r \<leftarrow> remove i; b \<leftarrow> present i; c \<leftarrow> load i; ret (r, b, c) })
    (\<lambda>(r, b, c) s'. (r = 0) = (view s i \<noteq> None) \<and> \<not> b \<and> c = None) s"
  by (rule wp_bind, rule wp_mono [OF remove_law [OF assms]], rule wp_bind, rule wp_mono [OF present_law],
      simp, rule assms(2), rule wp_bind, rule wp_mono [OF load_law])
    (use assms(2) in \<open>auto intro!: wp_return\<close>)

lemma refines_map:
  assumes "ok s" and "list_all (cmd_ok good named) cs" and "\<And>i. named i \<Longrightarrow> view s i = m i"
  shows "wp (run_cmds save remove cs) (\<lambda>_ s'. ok s' \<and> (\<forall>i. named i \<longrightarrow> view s' i = map_cmds name_of abst cs m i)) s"
  using assms
proof (induction cs arbitrary: s m)
  case Nil
  then show ?case by (auto intro: wp_return)
next
  case (Cons x cs)
  show ?case
  proof (cases x)
    case (Save c)
    have c: "good c" using Cons(3) by (simp add: Save)
    have "wp (run_cmds save remove cs) (\<lambda>_ s'. ok s' \<and> (\<forall>i. named i \<longrightarrow> view s' i = map_cmds name_of abst (x # cs) m i)) s1"
      if "ok s1" "\<forall>i. named i \<longrightarrow> view s1 i = ((view s)(name_of c := Some (Some (abst c)))) i" for s1
      using that Cons(3,4) by (simp add: Cons(1) Save)
    then show ?thesis
      unfolding Save run_cmds.simps by (intro wp_bind wp_mono [OF save_law [OF Cons(2) c]]) auto
  next
    case (Remove i)
    have i: "named i" using Cons(3) by (simp add: Remove)
    have "wp (run_cmds save remove cs) (\<lambda>_ s'. ok s' \<and> (\<forall>i. named i \<longrightarrow> view s' i = map_cmds name_of abst (x # cs) m i)) s1"
      if "ok s1" "\<forall>j. named j \<longrightarrow> view s1 j = ((view s)(i := None)) j" for s1
      using that Cons(3,4) by (simp add: Cons(1) Remove)
    then show ?thesis
      unfolding Remove run_cmds.simps by (intro wp_bind wp_mono [OF remove_law [OF Cons(2) i]]) auto
  qed
qed

end

section \<open>The model of \<open>state.c\<close> meets the contract\<close>

definition good_container :: "(string \<Rightarrow> bool) \<Rightarrow> nk_container \<Rightarrow> bool" where
  "good_container utf8 c \<longleftrightarrow> writable utf8 c \<and> plain_name (the (c_id c))"

text \<open>The entry of a container: \<open>Some None\<close> is a state file that is not JSON.\<close>

definition entry :: "'j jansson \<Rightarrow> world \<Rightarrow> string \<Rightarrow> nk_container option option" where
  "entry J w i = map_option (\<lambda>s. map_option (\<lambda>r. container_of_json J r None) (json_loads J s)) (stored_text w i)"

lemma norm_of_json [simp]: "norm (container_of_json J r sp) = container_of_json J r None"
proof -
  have pid: "to_pid (to_pid i) = to_pid i" for i by (simp add: to_pid_def)
  have st: "c_state (container_of_json J r sp) \<noteq> NK_STATE_INVALID"
    by (simp add: container_of_json_def zero_container_def string_to_state_def split: option.split)
  then show ?thesis
    by (auto simp: norm_def container_of_json_def pid zero_container_def split: option.splits)
      (auto simp: to_pid_def split: if_splits)
qed

lemma norm_stored: "map_option norm (stored J w i) = Option.bind (entry J w i) id"
  by (simp add: stored_def entry_def option.map_comp comp_def split: option.split)

lemma entry_None: "entry J w i = None \<longleftrightarrow> stored_text w i = None"
  by (simp add: entry_def)

lemma norm_state_file [simp]: "(norm c)\<lparr>c_state_file := None\<rparr> = norm c"
  by (simp add: norm_def)

sublocale jansson_library \<subseteq> st: container_store store_ok plain_name "entry J" "good_container utf8"
  "\<lambda>c. the (c_id c)" norm "\<lambda>c. nk_state_save J (Some c)" "\<lambda>i. nk_state_load J (Some i)"
  "\<lambda>i. nk_state_delete (Some i)" "\<lambda>i. nk_state_exists (Some i)"
proof (unfold_locales, goal_cases)
  case (1 c)
  then show ?case by (simp add: good_container_def)
next
  case (2 w c)
  then obtain cid where cid: "c_id c = Some cid" "plain_name cid" "writable utf8 c"
    by (auto simp: good_container_def writable_def)
  obtain r where "json_loads J (json_dumps J (container_json J c)) = Some r"
    "container_of_json J r None = norm c"
    using container_text_roundtrip [OF cid(3), of None] by auto
  then show ?case
    by (intro wp_mono [OF nk_state_save_wp [OF 2(1) cid(1,2)]])
      (auto simp: outcome_def entry_def cid(1))
next
  case (3 w i)
  then show ?case
    by (intro wp_mono [OF nk_state_load_outcome [OF 3(1)]])
      (auto simp: outcome_def entry_def norm_stored)
next
  case (4 w i)
  then show ?case
    by (intro wp_mono [OF nk_state_delete_wp [OF 4]]) (auto simp: outcome_def entry_def)
next
  case (5 w i)
  then show ?case
    by (intro wp_mono [OF nk_state_exists_outcome [OF 5(1)]]) (auto simp: outcome_def entry_def)
qed

context jansson_library begin

lemmas contract = st.container_store_axioms

end

end
