(* ===== verification/RefJson.thy ===== *)
theory RefJson
  imports StoreContract "HOL-Library.AList"
begin

text \<open>
  A small JSON library, as an instance of the interface \<open>jansson\<close>: values, a printer of
  compact JSON and a recursive-descent parser with fuel (the length of the text, which every
  call consumes a character of). It is not code of the repository. It shows that the laws of
  \<open>jansson_library\<close> can hold, and the witnesses run the model on it.
\<close>

section \<open>Values, printer and parser\<close>

datatype rj = RNull | RTrue | RFalse | RInt int | RStr string | RArr "rj list" | RObj "(string \<times> rj) list"

definition QUOTE :: char where "QUOTE = CHR 0x22"
definition BSLASH :: char where "BSLASH = CHR 0x5C"

fun esc_chars :: "string \<Rightarrow> string" where
  "esc_chars [] = []"
| "esc_chars (c # cs) = (if c = QUOTE \<or> c = BSLASH then BSLASH # c # esc_chars cs else c # esc_chars cs)"

definition print_str :: "string \<Rightarrow> string" where
  "print_str s = QUOTE # esc_chars s @ [QUOTE]"

fun sep_by :: "string \<Rightarrow> string list \<Rightarrow> string" where
  "sep_by d [] = []"
| "sep_by d [x] = x"
| "sep_by d (x # xs) = x @ d @ sep_by d xs"

fun print_rj :: "rj \<Rightarrow> string" where
  "print_rj RNull = ''null''"
| "print_rj RTrue = ''true''"
| "print_rj RFalse = ''false''"
| "print_rj (RInt i) = dec_int i"
| "print_rj (RStr s) = print_str s"
| "print_rj (RArr xs) = ''['' @ sep_by '','' (map print_rj xs) @ '']''"
| "print_rj (RObj ms) = ''{'' @ sep_by '','' (map (\<lambda>(k, v). print_str k @ '':'' @ print_rj v) ms) @ ''}''"

text \<open>The string after its opening quote.\<close>

fun parse_str :: "string \<Rightarrow> (string \<times> string) option" where
  "parse_str [] = None"
| "parse_str (c # cs) =
     (if c = QUOTE then Some ([], cs)
      else if c = BSLASH then
        (case cs of [] \<Rightarrow> None | d # ds \<Rightarrow> map_option (\<lambda>(t, r). (d # t, r)) (parse_str ds))
      else map_option (\<lambda>(t, r). (c # t, r)) (parse_str cs))"

definition parse_nat :: "string \<Rightarrow> (nat \<times> string) option" where
  "parse_nat s = (let ds = takeWhile (\<lambda>c. digit_val c \<noteq> None) s in
     if ds = [] then None else Some (undec ds, drop (length ds) s))"

definition strip :: "string \<Rightarrow> string \<Rightarrow> string option" where
  "strip p s = (if take (length p) s = p then Some (drop (length p) s) else None)"

fun parse_rj :: "nat \<Rightarrow> string \<Rightarrow> (rj \<times> string) option"
  and parse_elems :: "nat \<Rightarrow> string \<Rightarrow> (rj list \<times> string) option"
  and parse_members :: "nat \<Rightarrow> string \<Rightarrow> ((string \<times> rj) list \<times> string) option" where
  "parse_rj 0 s = None"
| "parse_rj (Suc n) s = (case s of
     [] \<Rightarrow> None
   | c # cs \<Rightarrow>
       if c = QUOTE then map_option (\<lambda>(t, r). (RStr t, r)) (parse_str cs)
       else if c = CHR ''['' then
         (case strip '']'' cs of
            Some r \<Rightarrow> Some (RArr [], r)
          | None \<Rightarrow> map_option (\<lambda>(xs, r). (RArr xs, r)) (parse_elems n cs))
       else if c = CHR ''{'' then
         (case strip ''}'' cs of
            Some r \<Rightarrow> Some (RObj [], r)
          | None \<Rightarrow> map_option (\<lambda>(ms, r). (RObj ms, r)) (parse_members n cs))
       else if c = CHR ''-'' then map_option (\<lambda>(k, r). (RInt (- int k), r)) (parse_nat cs)
       else if c = CHR ''n'' then map_option (\<lambda>r. (RNull, r)) (strip ''ull'' cs)
       else if c = CHR ''t'' then map_option (\<lambda>r. (RTrue, r)) (strip ''rue'' cs)
       else if c = CHR ''f'' then map_option (\<lambda>r. (RFalse, r)) (strip ''alse'' cs)
       else map_option (\<lambda>(k, r). (RInt (int k), r)) (parse_nat s))"
| "parse_elems 0 s = None"
| "parse_elems (Suc n) s = (case parse_rj n s of
     None \<Rightarrow> None
   | Some (v, r) \<Rightarrow>
       (case strip '','' r of
          Some r' \<Rightarrow> map_option (\<lambda>(vs, t). (v # vs, t)) (parse_elems n r')
        | None \<Rightarrow> map_option (\<lambda>t. ([v], t)) (strip '']'' r)))"
| "parse_members 0 s = None"
| "parse_members (Suc n) s = (case strip [QUOTE] s of
     None \<Rightarrow> None
   | Some s1 \<Rightarrow> (case parse_str s1 of
       None \<Rightarrow> None
     | Some (k, s2) \<Rightarrow> (case strip '':'' s2 of
         None \<Rightarrow> None
       | Some s3 \<Rightarrow> (case parse_rj n s3 of
           None \<Rightarrow> None
         | Some (v, r) \<Rightarrow>
             (case strip '','' r of
                Some r' \<Rightarrow> map_option (\<lambda>(vs, t). ((k, v) # vs, t)) (parse_members n r')
              | None \<Rightarrow> map_option (\<lambda>t. ([(k, v)], t)) (strip ''}'' r))))))"

definition rj_loads :: "string \<Rightarrow> rj option" where
  "rj_loads s = (case parse_rj (Suc (length s)) s of Some (v, []) \<Rightarrow> Some v | _ \<Rightarrow> None)"

text \<open>A member that is hidden by another one of the same name is not printed.\<close>

definition rj_dumps :: "rj \<Rightarrow> string" where
  "rj_dumps v = (case v of RObj ms \<Rightarrow> print_rj (RObj (AList.clearjunk ms)) | _ \<Rightarrow> print_rj v)"

definition RefJ :: "rj jansson" where
  "RefJ = \<lparr>json_loads = rj_loads, json_dumps = rj_dumps,
     json_object_get = (\<lambda>v k. case v of RObj ms \<Rightarrow> map_of ms k | _ \<Rightarrow> None),
     json_is_string = (\<lambda>v. case v of RStr _ \<Rightarrow> True | _ \<Rightarrow> False),
     json_string_value = (\<lambda>v. case v of RStr s \<Rightarrow> s | _ \<Rightarrow> []),
     json_is_true = (\<lambda>v. case v of RTrue \<Rightarrow> True | _ \<Rightarrow> False),
     json_is_integer = (\<lambda>v. case v of RInt _ \<Rightarrow> True | _ \<Rightarrow> False),
     json_integer_value = (\<lambda>v. case v of RInt i \<Rightarrow> i | _ \<Rightarrow> 0),
     json_is_array = (\<lambda>v. case v of RArr _ \<Rightarrow> True | _ \<Rightarrow> False),
     json_elems = (\<lambda>v. case v of RArr xs \<Rightarrow> xs | _ \<Rightarrow> []),
     json_is_object = (\<lambda>v. case v of RObj _ \<Rightarrow> True | _ \<Rightarrow> False),
     json_members = (\<lambda>v. case v of RObj ms \<Rightarrow> AList.clearjunk ms | _ \<Rightarrow> []),
     json_object = RObj [],
     json_object_set = (\<lambda>v k x. case v of
        RObj ms \<Rightarrow> (case x of None \<Rightarrow> v | Some y \<Rightarrow> RObj (AList.update k y ms)) | _ \<Rightarrow> v),
     json_string = (\<lambda>s. Some (RStr s)),
     json_integer = RInt\<rparr>"

section \<open>Printing and parsing back\<close>

lemma parse_print_str: "parse_str (esc_chars s @ QUOTE # r) = Some (s, r)"
  by (induction s) (auto simp: QUOTE_def BSLASH_def)

lemma strip_append [simp]: "strip p (p @ r) = Some r"
  by (simp add: strip_def)

lemma strip_Cons [simp]: "strip (c # p) (d # r) = (if c = d then strip p r else None)"
  by (simp add: strip_def)

lemma strip_Nil [simp]: "strip [] r = Some r" "strip (c # p) [] = None"
  by (simp_all add: strip_def)

fun no_digit :: "string \<Rightarrow> bool" where
  "no_digit [] = True"
| "no_digit (c # _) = (digit_val c = None)"

lemma takeWhile_dec:
  assumes "no_digit r"
  shows "takeWhile (\<lambda>c. digit_val c \<noteq> None) (dec n @ r) = dec n"
proof -
  have "takeWhile (\<lambda>c. digit_val c \<noteq> None) r = []" using assms by (cases r) auto
  moreover have "\<And>c. c \<in> set (dec n) \<Longrightarrow> digit_val c \<noteq> None" by (auto dest: dec_digits)
  ultimately show ?thesis by (simp add: takeWhile_append2)
qed

lemma parse_dec: "no_digit r \<Longrightarrow> parse_nat (dec n @ r) = Some (n, r)"
  unfolding parse_nat_def Let_def takeWhile_dec by (simp add: undec_dec)

lemma hd_dec: "\<exists>d ds. dec n = digit d # ds \<and> d < 10"
proof -
  obtain c cs where n: "dec n = c # cs" by (cases "dec n") auto
  then obtain d where "d < 10" "c = digit d" using dec_digits [of c n] by auto
  with n show ?thesis by blast
qed

lemma digit_not: "d < 10 \<Longrightarrow> digit_val c = None \<Longrightarrow> digit d \<noteq> c"
  by (metis digit_val_digit option.distinct(1))

lemma not_digits:
  "digit_val QUOTE = None" "digit_val (CHR ''['') = None" "digit_val (CHR ''{'') = None"
  "digit_val (CHR ''-'') = None" "digit_val (CHR ''n'') = None" "digit_val (CHR ''t'') = None"
  "digit_val (CHR ''f'') = None" "digit_val (CHR '','') = None" "digit_val (CHR ''}'') = None"
  by code_simp+

fun scalar :: "rj \<Rightarrow> bool" where
  "scalar (RStr _) = True" | "scalar (RInt _) = True" | "scalar _ = False"

lemma parse_scalar:
  assumes "scalar v" and "no_digit r"
  shows "parse_rj (Suc n) (print_rj v @ r) = Some (v, r)"
proof (cases v)
  case (RStr s)
  then show ?thesis by (simp add: print_str_def parse_print_str)
next
  case (RInt i)
  show ?thesis
  proof (cases "i < 0")
    case True
    then show ?thesis
      using parse_dec [OF assms(2)] by (simp add: RInt dec_int_def QUOTE_def)
  next
    case False
    obtain d ds where d: "dec (nat i) = digit d # ds" "d < 10" using hd_dec by blast
    have "parse_nat (digit d # ds @ r) = Some (nat i, r)"
      using parse_dec [OF assms(2), of "nat i"] by (simp add: d)
    then show ?thesis
      using False by (simp add: RInt dec_int_def d(1) digit_not [OF d(2)] not_digits)
  qed
qed (use assms in simp_all)

lemma parse_print_members:
  assumes "ms \<noteq> []" and "\<forall>(k, v) \<in> set ms. scalar v" and "length ms < n"
  shows "parse_members n (sep_by '','' (map (\<lambda>(k, v). print_str k @ '':'' @ print_rj v) ms) @ ''}'' @ r) = Some (ms, r)"
  using assms
proof (induction ms arbitrary: n)
  case Nil
  then show ?case by simp
next
  case (Cons m ms)
  obtain k v where m: "m = (k, v)" by (cases m)
  obtain p where n: "n = Suc (Suc p)" using Cons(4) by (cases n; cases "n - 1") auto
  show ?case
  proof (cases ms)
    case Nil
    with Cons(3) show ?thesis
      using parse_scalar [of v "CHR ''}'' # r" p]
      by (simp add: m n print_str_def parse_print_str not_digits)
  next
    case (Cons m' ms')
    with Cons.IH [of "Suc p"] Cons.prems show ?thesis
      using parse_scalar [of v "'','' @ sep_by '','' (map (\<lambda>(k, v). print_str k @ '':'' @ print_rj v) ms) @ ''}'' @ r" p]
      by (simp add: m n print_str_def parse_print_str not_digits)
  qed
qed

lemma length_sep_by: "(\<And>x. x \<in> set xs \<Longrightarrow> x \<noteq> []) \<Longrightarrow> length xs \<le> length (sep_by d xs)"
proof (induction d xs rule: sep_by.induct)
  case (3 d x y xs)
  then show ?case by (cases x) fastforce+
qed (auto simp: Suc_le_eq)

lemma loads_print_flat:
  assumes "\<forall>(k, v) \<in> set ms. scalar v"
  shows "rj_loads (print_rj (RObj ms)) = Some (RObj ms)"
proof (cases "ms = []")
  case True
  then show ?thesis by (simp add: rj_loads_def QUOTE_def)
next
  case False
  let ?t = "sep_by '','' (map (\<lambda>(k, v). print_str k @ '':'' @ print_rj v) ms)"
  have "length (map (\<lambda>(k, v). print_str k @ '':'' @ print_rj v) ms) \<le> length ?t"
    by (rule length_sep_by) (auto simp: print_str_def)
  then have "parse_members (Suc (Suc (length ?t))) (?t @ ''}'' @ []) = Some (ms, [])"
    by (intro parse_print_members False assms) (simp add: le_imp_less_Suc)
  moreover have "strip ''}'' (?t @ ''}'') = None"
    using False by (cases ms; cases "tl ms") (auto simp: print_str_def QUOTE_def)
  ultimately show ?thesis
    by (simp add: rj_loads_def QUOTE_def)
qed

lemma RefJ_simps [simp]:
  "json_loads RefJ = rj_loads" "json_dumps RefJ = rj_dumps" "json_object RefJ = RObj []"
  "json_object_get RefJ (RObj ms) k = map_of ms k"
  "json_is_object RefJ v = (\<exists>ms. v = RObj ms)"
  "json_is_string RefJ v = (\<exists>s. v = RStr s)" "json_string_value RefJ (RStr s) = s"
  "json_is_integer RefJ v = (\<exists>i. v = RInt i)" "json_integer_value RefJ (RInt i) = i"
  "json_object_set RefJ (RObj ms) k None = RObj ms"
  "json_object_set RefJ (RObj ms) k (Some y) = RObj (AList.update k y ms)"
  "json_string RefJ s = Some (RStr s)" "json_integer RefJ i = RInt i"
  by (simp_all add: RefJ_def split: rj.split)

lemma RefJ_set_null: "json_object_set RefJ v k None = v"
  by (simp add: RefJ_def split: rj.split)

lemma scalar_iff: "scalar v \<longleftrightarrow> (\<exists>s. v = RStr s) \<or> (\<exists>i. v = RInt i)"
  by (cases v) simp_all

interpretation ref: jansson_library RefJ "\<lambda>_. True"
proof (unfold_locales, goal_cases)
  case (4 obj k x)
  then show ?case by (cases x) (auto simp: RefJ_set_null)
next
  case (10 obj)
  then obtain ms where ms: "obj = RObj ms" by (auto simp: flat_object_def)
  have "\<forall>(k, v) \<in> set (AList.clearjunk ms). scalar v"
  proof clarify
    fix k v
    assume "(k, v) \<in> set (AList.clearjunk ms)"
    then have "map_of ms k = Some v"
      by (metis distinct_clearjunk map_of_clearjunk map_of_is_SomeI)
    with 10 show "scalar v" by (auto simp: ms flat_object_def scalar_iff)
  qed
  then have "rj_loads (rj_dumps obj) = Some (RObj (AList.clearjunk ms))"
    by (simp add: ms rj_dumps_def loads_print_flat del: print_rj.simps)
  then show ?case by (simp add: ms map_of_clearjunk)
qed (auto simp: RefJ_set_null update_conv')

lemma RefJ_library: "jansson_library RefJ (\<lambda>_. True)"
  by (rule ref.jansson_library_axioms)

end
