(* ===== verification/StoreProperties.thy ===== *)
theory StoreProperties
  imports RefJson
begin

text \<open>
  The properties of the state store, stated over the model of \<open>state.c\<close> alone. Each follows
  from the laws of \<open>StoreContract\<close>; the witnesses run the code on a world with an empty file
  system and the library \<open>RefJ\<close>.
\<close>

section \<open>A concrete world\<close>

definition demo_world :: world where
  "demo_world = \<lparr>w_fs = [], w_cwd = [], w_env = [''NS_RUN_DIR'' \<mapsto> ''/run/ns'', ''NK_LOG_ENABLED'' \<mapsto> ''0''],
     w_euid = 0, w_tty = False, w_libcapng = False, w_oracle = (\<lambda>_ _ _. \<lparr>a_err = None, a_val = 42\<rparr>),
     w_inputs = (\<lambda>_. \<lparr>l_hour = 0, l_min = 0, l_sec = 0, l_nsec = 0, l_text = []\<rparr>),
     w_calls = 0, w_trace = [], w_proc = Runtime, w_stdout = [], w_log = nk_log_init\<rparr>"

definition demo_container :: nk_container where
  "demo_container = zero_container\<lparr>c_id := Some ''web'', c_bundle_path := Some ''/b'',
     c_state := NK_STATE_RUNNING, c_init_pid := 42\<rparr>"

lemma demo_state_dir: "state_dir demo_world = ''/run/ns''"
  by (simp add: state_dir_def get_state_dir_def demo_world_def)

lemma demo_comps: "comps ''/run/ns'' = [''run'', ''ns'']"
  by (simp add: comps_def)

lemma plain_web [simp]: "plain_name ''web''" "plain_name ''db''"
  by (simp_all add: plain_name_def comps_def)

lemma demo_store_ok: "store_ok demo_world"
proof -
  have "node_at (w_fs demo_world) k = (if k = [] then Some Dir else None)" for k
    by (simp add: demo_world_def node_at_def)
  then show ?thesis
    by (simp add: store_ok_def demo_state_dir demo_comps free_way_def PATH_MAX_def fs_wf_def
        base_key_def file_key_def start_of_def absolute_def)
      (simp add: demo_world_def reliable_def)
qed

lemma demo_good: "good_container (\<lambda>_. True) demo_container"
  by (simp add: good_container_def writable_def demo_container_def split: option.split)

section \<open>Directories\<close>

text \<open>C29: \<open>mkdir_p\<close> is correct: if the kernel refuses the store no call and the path is not \<open>/\<close>, is
  shorter than \<open>PATH_MAX\<close>, has no \<open>..\<close> and meets nothing but directories on its way, it
  returns 0, every prefix of the path is a directory afterwards, and no other node of the file
  system has changed.\<close>

theorem mkdir_p_correct:
  assumes "reliable w" and "p \<noteq> []" and "length p < PATH_MAX" and "p \<noteq> ''/''"
    and "''..'' \<notin> set (comps p)" and "free_way (w_fs w) (start_of w p) (comps p)"
  shows "wp (mkdir_p (Some p)) (\<lambda>r w'. r = 0 \<and> all_dirs (w_fs w') (start_of w p) (comps p)
    \<and> (\<forall>k. (\<nexists>q. prefix q (comps p) \<and> k = start_of w p @ q) \<longrightarrow> node_at (w_fs w') k = node_at (w_fs w) k)) w"
  by (rule wp_mono [OF mkdir_p_wp [OF assms]]) (auto simp: dirs_made_all, auto simp: dirs_made_def)

theorem mkdir_p_correct_witness:
  "wp (mkdir_p (Some ''/run/ns'')) (\<lambda>r w'. r = 0
    \<and> node_at (w_fs w') [''run''] = Some Dir \<and> node_at (w_fs w') [''run'', ''ns''] = Some Dir) demo_world"
  by (rule wp_mono [OF mkdir_p_correct])
    (use store_okD [OF demo_store_ok] in \<open>auto simp: demo_state_dir demo_comps all_dirs_def dirs_upto_def
      start_of_def absolute_def less_Suc_eq\<close>)

section \<open>Containers\<close>

text \<open>C6: saving a container and loading it returns it: 0 from the save, and from the load the
  same identifier, bundle path, state, mode and pid, up to what the file format does not keep
  (\<open>norm\<close>: the pid is truncated to 32 bits, an empty bundle path becomes NULL, the state
  INVALID becomes CREATED, the control descriptor is reset), with the path of its state file.\<close>

theorem save_load_roundtrip:
  assumes "jansson_library J utf8" and "store_ok w" and "good_container utf8 c"
  shows "wp (do { r \<leftarrow> nk_state_save J (Some c); d \<leftarrow> nk_state_load J (c_id c); ret (r, d) })
    (\<lambda>(r, d) w'. r = 0 \<and> d = Some ((norm c)\<lparr>c_state_file := Some (state_path w (the (c_id c)))\<rparr>)) w"
proof -
  obtain cid where cid: "c_id c = Some cid" "plain_name cid" "writable utf8 c"
    using assms(3) by (auto simp: good_container_def writable_def)
  have load: "stored J w' cid = Some ((norm c)\<lparr>c_state_file := Some (state_path w cid)\<rparr>)"
    if "outcome w ((stored_text w)(cid := Some (json_dumps J (container_json J c)))) w'" for w'
    using that cid jansson_library.container_text_roundtrip [OF assms(1) cid(3)]
    by (auto simp: outcome_def stored_def state_path_static)
  show ?thesis
    unfolding cid(1) option.sel
    by (rule wp_bind, rule wp_mono [OF nk_state_save_wp [OF assms(2) cid(1,2)]], rule wp_bind,
        rule wp_mono [OF nk_state_load_outcome])
      (auto simp: outcome_def load intro!: wp_return)
qed

theorem save_load_roundtrip_witness:
  "wp (do { r \<leftarrow> nk_state_save RefJ (Some demo_container); d \<leftarrow> nk_state_load RefJ (Some ''web''); ret (r, d) })
    (\<lambda>(r, d) w'. r = 0 \<and> d = Some (demo_container\<lparr>c_control_fd := -1,
      c_state_file := Some ''/run/ns/web/state.json''\<rparr>)) demo_world"
  using save_load_roundtrip [OF RefJson.RefJ_library demo_store_ok demo_good]
  by (simp add: demo_container_def norm_def to_pid_def zero_container_def state_path_def
      demo_state_dir STATE_FILE_def)

text \<open>C7: the store refines a map: after any sequence of saves of well-formed containers and
  deletions, in any order, the entry of every name is what the same sequence of updates makes
  of the entries before; in particular no operation touches another container's entry.\<close>

theorem store_refines_map:
  assumes "jansson_library J utf8" and "store_ok w"
    and "list_all (cmd_ok (good_container utf8) plain_name) cs"
  shows "wp (run_cmds (\<lambda>c. nk_state_save J (Some c)) (\<lambda>i. nk_state_delete (Some i)) cs)
    (\<lambda>_ w'. store_ok w' \<and> (\<forall>i. plain_name i \<longrightarrow>
      entry J w' i = map_cmds (\<lambda>c. the (c_id c)) norm cs (entry J w) i)) w"
  by (rule container_store.refines_map [OF jansson_library.contract [OF assms(1)] assms(2,3)]) simp

theorem store_refines_map_witness:
  "wp (run_cmds (\<lambda>c. nk_state_save RefJ (Some c)) (\<lambda>i. nk_state_delete (Some i))
      [Save demo_container, Remove ''db'', Save (demo_container\<lparr>c_state := NK_STATE_STOPPED\<rparr>)])
    (\<lambda>_ w'. store_ok w' \<and> entry RefJ w' ''db'' = None
      \<and> entry RefJ w' ''web'' = Some (Some (norm (demo_container\<lparr>c_state := NK_STATE_STOPPED\<rparr>)))) demo_world"
  by (rule wp_mono [OF store_refines_map [OF RefJson.RefJ_library demo_store_ok]])
    (use demo_good in \<open>auto simp: good_container_def writable_def demo_container_def\<close>)

text \<open>C28: deleting returns 0 exactly when the container has a state file, and afterwards the
  container neither exists nor loads.\<close>

theorem delete_removes:
  assumes "jansson_library J utf8" and "store_ok w" and "plain_name cid"
  shows "wp (do { r \<leftarrow> nk_state_delete (Some cid); b \<leftarrow> nk_state_exists (Some cid);
      c \<leftarrow> nk_state_load J (Some cid); ret (r, b, c) })
    (\<lambda>(r, b, c) w'. (r = 0) = (stored_text w cid \<noteq> None) \<and> \<not> b \<and> c = None) w"
  using container_store.remove_gone [OF jansson_library.contract [OF assms(1)] assms(2,3)]
  by (simp add: entry_None)

theorem delete_removes_witness:
  "wp (do { r \<leftarrow> nk_state_delete (Some ''web''); b \<leftarrow> nk_state_exists (Some ''web'');
      c \<leftarrow> nk_state_load RefJ (Some ''web''); ret (r, b, c) })
    (\<lambda>(r, b, c) w'. r \<noteq> 0 \<and> \<not> b \<and> c = None) demo_world"
proof -
  have "stored_text demo_world ''web'' = None"
    by (simp add: stored_text_node demo_store_ok file_key_def node_at_def) (simp add: demo_world_def)
  then show ?thesis
    by (intro wp_mono [OF delete_removes [OF RefJson.RefJ_library demo_store_ok]]) auto
qed

end
