(* ===== verification/StoreLoss.thy ===== *)
theory StoreLoss
  imports StoreProperties
begin

text \<open>
  What a save does when the disk is full at \<open>fclose\<close>: \<open>state.c\<close> truncates the file when it opens
  it and does not look at the result of \<open>fclose\<close>, which writes the buffered text out. A run in
  which only closing is refused is compared with the run of the same code in the world
  \<open>let_through w\<close>, in which it is not: up to \<open>fclose\<close> the two cannot be told apart (\<open>blind\<close>), so
  the laws of the contract apply, and the rest is computed.
\<close>

section \<open>Programs that close no stream\<close>

fun closing :: "call \<Rightarrow> bool" where
  "closing (Fclose p) = True"
| "closing _ = False"

definition let_through :: "world \<Rightarrow> world" where
  "let_through w = w\<lparr>w_oracle :=
     (\<lambda>n q c. if closing c then \<lparr>a_err = None, a_val = 0\<rparr> else w_oracle w n q c)\<rparr>"

lemma through_simps [simp]:
  "w_fs (let_through w) = w_fs w" "w_cwd (let_through w) = w_cwd w" "w_env (let_through w) = w_env w"
  "w_euid (let_through w) = w_euid w" "w_tty (let_through w) = w_tty w" "w_inputs (let_through w) = w_inputs w"
  "w_calls (let_through w) = w_calls w" "w_log (let_through w) = w_log w" "w_proc (let_through w) = w_proc w"
  "let_through (w\<lparr>w_log := l\<rparr>) = (let_through w)\<lparr>w_log := l\<rparr>"
  "let_through (w\<lparr>w_fs := fs\<rparr>) = (let_through w)\<lparr>w_fs := fs\<rparr>"
  "let_through (tick c e w) = tick c e (let_through w)"
  by (simp_all add: let_through_def tick_def cong: if_cong)

lemma through_answer [simp]: "\<not> closing c \<Longrightarrow> next_answer c (let_through w) = next_answer c w"
  by (simp add: next_answer_def let_through_def)

lemma through_paths [simp]:
  "resolve (let_through w) = resolve w" "lookup (let_through w) = lookup w" "state_dir (let_through w) = state_dir w"
  "state_path (let_through w) = state_path w" "stored_text (let_through w) = stored_text w"
  "file_key (let_through w) = file_key w"
proof -
  show p: "resolve (let_through w) = resolve w" "lookup (let_through w) = lookup w"
    using lookup_cong [of "let_through w" w] by (auto simp: fun_eq_iff)
  show d: "state_dir (let_through w) = state_dir w"
    by (simp add: state_dir_def get_state_dir_def geteuid_def getenv_def run_if Let_def)
  show s: "state_path (let_through w) = state_path w" by (simp add: state_path_def d fun_eq_iff)
  show "stored_text (let_through w) = stored_text w" by (simp add: stored_text_def s p fun_eq_iff)
  show "file_key (let_through w) = file_key w" by (simp add: file_key_def base_key_def start_of_def d fun_eq_iff)
qed

definition blind :: "'a prog \<Rightarrow> bool" where
  "blind m \<longleftrightarrow> (\<forall>w. run_state m (let_through w) = (res m w, let_through (post m w)))"

named_theorems blind_intros \<open>programs that close no stream\<close>

lemma blind_return [blind_intros]: "blind (ret a)"
  by (simp add: blind_def)

lemma blind_gets [blind_intros]: "(\<And>w. f (let_through w) = f w) \<Longrightarrow> blind (gets f)"
  by (simp add: blind_def)

lemma blind_bind [blind_intros]: "blind m \<Longrightarrow> (\<And>a. blind (f a)) \<Longrightarrow> blind (State_Monad.bind m f)"
  by (simp add: blind_def split_def)

lemma blind_if [blind_intros]:
  "(b \<Longrightarrow> blind m) \<Longrightarrow> (\<not> b \<Longrightarrow> blind n) \<Longrightarrow> blind (if b then m else n)"
  by simp

lemma blind_option [blind_intros]:
  "blind m \<Longrightarrow> (\<And>y. blind (f y)) \<Longrightarrow> blind (case x of None \<Rightarrow> m | Some y \<Rightarrow> f y)"
  by (cases x) simp_all

lemma blind_sum [blind_intros]:
  "(\<And>e. blind (f e)) \<Longrightarrow> (\<And>y. blind (g y)) \<Longrightarrow> blind (case x of Inl e \<Rightarrow> f e | Inr y \<Rightarrow> g y)"
  by (cases x) simp_all

lemma blind_set_log [blind_intros]: "blind (set_log f)"
  by (simp add: blind_def)

lemma blind_syscall:
  "\<not> closing c \<Longrightarrow> (\<And>w. f (let_through w) = f w) \<Longrightarrow> (\<And>w. g (let_through w) = g w) \<Longrightarrow> blind (syscall c f g)"
  by (auto simp: blind_def run_syscall Let_def split: option.split prod.split)

lemma blind_calls [blind_intros]:
  "blind (sys_stat p)" "blind (sys_mkdir p)" "\<not> closing c \<Longrightarrow> blind (kernel c)"
proof -
  show "blind (sys_stat p)" "blind (sys_mkdir p)"
    unfolding sys_stat_def sys_mkdir_def by (rule blind_syscall; simp split: sum.split option.split)+
  show "blind (kernel c)" if "\<not> closing c"
    unfolding kernel_def using that by (intro blind_syscall) simp_all
qed

lemma blind_log [blind_intros]: "blind (nk_log_stderr_at file n)"
  unfolding nk_log_stderr_at_def nk_log_apply_env_def getenv_def fprintf_stderr_def log_input_def Let_def
  by (intro blind_intros) simp_all

lemma blind_state_dir [blind_intros]: "blind get_state_dir"
  unfolding get_state_dir_def getenv_def geteuid_def Let_def by (intro blind_intros) simp_all

lemma blind_mkdir_p [blind_intros]: "blind (mkdir_p p)"
proof -
  have loop: "blind (mkdir_p_loop xs ys)" for xs ys
    by (induction xs ys rule: mkdir_p_loop.induct) (auto intro!: blind_intros)
  show ?thesis unfolding mkdir_p_def Let_def by (intro blind_intros loop)
qed

lemma blind_alloc [blind_intros]: "blind alloc"
  unfolding alloc_def by (intro blind_intros) simp_all

lemma blind_container [blind_intros]: "blind (get_container_state_path i)" "blind (ensure_container_dir i)"
  unfolding get_container_state_path_def ensure_container_dir_def make_container_dir_def get_container_dir_def
  by (intro blind_intros)+

lemma through_static: "static_rel w w' \<Longrightarrow> static_rel (let_through w) (let_through w')"
  by (simp add: static_rel_def let_through_def cong: if_cong)

lemma wp_ensure_blind:
  assumes "store_ok (let_through w)" and "plain_name cid"
    and "\<And>w'. ready (let_through w) cid (let_through w') \<Longrightarrow> static_rel w w' \<Longrightarrow> Q 0 w'"
  shows "wp (ensure_container_dir cid) Q w"
proof -
  have "static_rel w (post (ensure_container_dir cid) w)"
    by (rule obeys_post) (intro static_intros)
  with ensure_container_dir_wp [OF assms(1,2)] blind_container(2) [of cid] assms(3) show ?thesis
    by (simp add: wp_def blind_def)
qed

section \<open>A save whose close is refused\<close>

text \<open>Every close is refused after \<open>k\<close> bytes of the text have reached the disk.\<close>

definition close_refused :: "nat \<Rightarrow> world \<Rightarrow> bool" where
  "close_refused k w \<longleftrightarrow> (\<forall>n p. \<exists>e. w_oracle w n Runtime (Fclose p) = \<lparr>a_err = Some e, a_val = int k\<rparr>)"

lemma close_refused_static: "static_rel w w' \<Longrightarrow> close_refused k w' = close_refused k w"
  by (simp add: close_refused_def static_rel_def)

lemma wp_close_refused:
  assumes "close_refused k w" and "w_proc w = Runtime"
    and "\<And>e. Q (Inl e) ((tick (Fclose p) (Some e) w)\<lparr>w_fs := cut_file K k (w_fs w)\<rparr>)"
  shows "wp (sys_fclose_w p K) Q w"
proof -
  obtain e where "next_answer (Fclose p) w = \<lparr>a_err = Some e, a_val = int k\<rparr>"
    using assms(1,2) by (auto simp: close_refused_def next_answer_def)
  with assms(3) [of e] show ?thesis by (simp add: sys_fclose_w_def wp_def run_syscall)
qed

lemma refused_answer [simp]:
  "reliable (let_through w) \<Longrightarrow> store_call c \<Longrightarrow> \<not> closing c \<Longrightarrow> a_err (next_answer c w) = None"
  using reliable_answer [of "let_through w" c] by simp

lemma wp_refused:
  assumes "reliable (let_through w)"
  shows "Q (Some (state_path w cid)) (tick Malloc None w) \<Longrightarrow> wp (get_container_state_path cid) Q w"
    and "A True (tick Malloc None w) \<Longrightarrow> wp alloc A w"
    and "resolve w p = Inr K \<Longrightarrow> node_at (w_fs w) K = None \<or> (\<exists>s. node_at (w_fs w) K = Some (Reg s))
      \<Longrightarrow> F (Inr K) ((tick (FopenW p) None w)\<lparr>w_fs := put_node K (Reg []) (w_fs w)\<rparr>) \<Longrightarrow> wp (sys_fopen_w p) F w"
    and "G (Inr ()) ((tick (Fwrite p s) None w)\<lparr>w_fs := append_file K s (w_fs w)\<rparr>) \<Longrightarrow> wp (sys_fwrite p K s) G w"
  using assms
  by (auto simp: wp_def get_container_state_path_def alloc_def run_kernel state_path_def sys_fopen_w_def
      sys_fwrite_def run_syscall)

lemma write_cut_wp:
  assumes "reliable (let_through w)" and "close_refused k w" and "resolve w p = Inr K" and "K \<noteq> []"
    and "node_at (w_fs w) K = None \<or> (\<exists>s. node_at (w_fs w) K = Some (Reg s))"
  shows "wp (write_state_file p text) (\<lambda>r w'. r = 0
    \<and> (\<forall>k'. node_at (w_fs w') k' = (if k' = K then Some (Reg (take k text)) else node_at (w_fs w) k'))) w"
proof -
  have runtime: "w_proc w = Runtime" using assms(1) by (simp add: reliable_def)
  show ?thesis
    unfolding write_state_file_def
    by (intro wp_intros wp_refused wp_close_refused)
      (use assms runtime in \<open>auto simp: node_append_file node_cut_file close_refused_def\<close>)
qed

lemma wp_write_cut:
  assumes "store_ok (let_through w)" and "plain_name cid" and "ready (let_through w) cid (let_through w1)"
    and "close_refused k w1" and "state_path w1 cid = p"
    and Q: "\<And>w'. (\<forall>i. plain_name i \<longrightarrow> stored_text w' i = ((stored_text w)(cid := Some (take k text))) i) \<Longrightarrow> Q 0 w'"
  shows "wp (write_state_file p text) Q w1"
proof -
  note r = ready_resolve [OF assms(3,1,2), simplified]
  have ok: "store_ok (let_through w1)" using assms(3) by (simp add: ready_def)
  have "wp (write_state_file p text) (\<lambda>r w'. ((r = 0 \<and> (\<forall>k'. node_at (w_fs w') k'
      = (if k' = file_key w cid then Some (Reg (take k text)) else node_at (w_fs w1) k')))
    \<and> static_rel w1 w') \<and> tree_rel w1 w') w1"
    using store_okD(1) [OF ok] r assms(4,5)
    by (intro wp_conj wp_obeys write_state_file_obeys write_cut_wp) auto
  then show ?thesis
  proof (rule wp_mono, goal_cases)
    case (1 a w')
    then have "static_rel (let_through w1) (let_through w')"
      by (simp add: through_static)
    moreover have "fs_wf (w_fs w')" using 1 store_okD(2) [OF ok] by (simp add: tree_rel_def)
    ultimately have "outcome (let_through w) ((stored_text (let_through w))(cid := Some (take k text))) (let_through w')"
      using 1 by (intro ready_write [OF assms(1-3)]) simp_all
    with 1 show ?case by (auto simp: outcome_def intro: Q)
  qed
qed

text \<open>C31: a save can report success and lose the container: for every usable store and every
  container, if every call but the closing of files is let through, and closing is refused after
  \<open>k\<close> bytes have reached the disk, the save returns 0 and what the store then holds under the
  container's name is the first \<open>k\<close> bytes of the new text, nothing at all of it for a full disk,
  whatever it held before; all other containers keep theirs.\<close>

theorem save_success_can_lose_state:
  assumes "store_ok (let_through w)" and "close_refused k w" and "c_id c = Some cid" and "plain_name cid"
  shows "wp (nk_state_save J (Some c)) (\<lambda>r w'. r = 0 \<and> (\<forall>i. plain_name i \<longrightarrow>
    stored_text w' i = (if i = cid then Some (take k (json_dumps J (container_json J c))) else stored_text w i))) w"
  unfolding nk_state_save_def option.case assms(3)
proof (intro wp_intros wp_ensure_blind wp_refused, goal_cases)
  case (8 a1 l1 a2 l2 w' a3 l3 a4 l4 p)
  then have "close_refused k w'" using close_refused_static [of _ w' k] assms(2)
    by (simp add: close_refused_def)
  with 8 show ?case
    by (intro wp_write_cut [OF assms(1,4)])
      (auto intro!: wp_intros ready_simps intro: ready_from_log simp: close_refused_def)
qed (use assms in \<open>auto simp: ready_def dest: store_okD(1)\<close>)

text \<open>A full disk, and a store that holds a text for the container: it is gone after the save.\<close>

definition full_world :: world where
  "full_world = demo_world\<lparr>
     w_fs := [([''run''], Dir), ([''run'', ''ns''], Dir), ([''run'', ''ns'', ''web''], Dir),
       ([''run'', ''ns'', ''web'', ''state.json''], Reg ''old'')],
     w_oracle := (\<lambda>_ _ c. if closing c then \<lparr>a_err = Some ENOSPC, a_val = 0\<rparr> else \<lparr>a_err = None, a_val = 42\<rparr>)\<rparr>"

lemma full_simps:
  "state_dir full_world = ''/run/ns''" "start_of full_world ''/run/ns'' = []" "close_refused 0 full_world"
  "reliable (let_through full_world)"
  "start_of (let_through full_world) ''/run/ns'' = []"
  by (simp_all add: state_dir_def get_state_dir_def full_world_def demo_world_def start_of_def absolute_def
      close_refused_def reliable_def let_through_def)

lemma full_nodes:
  "node_at (w_fs full_world) k = (if k \<in> {[], [''run''], [''run'', ''ns''], [''run'', ''ns'', ''web'']} then Some Dir
     else if k = [''run'', ''ns'', ''web'', ''state.json''] then Some (Reg ''old'') else None)"
  by (simp add: node_at_def full_world_def)

lemma full_store_ok: "store_ok (let_through full_world)"
proof -
  have "fs_wf (w_fs full_world)"
    by (auto simp: fs_wf_def full_nodes append_eq_Cons_conv)
  then show ?thesis
    by (simp add: store_ok_def full_simps demo_comps free_way_def PATH_MAX_def base_key_def file_key_def
        STATE_FILE_def full_nodes)
qed

theorem save_success_can_lose_state_witness:
  "stored_text full_world ''web'' = Some ''old''
   \<and> wp (nk_state_save RefJ (Some demo_container)) (\<lambda>r w'. r = 0 \<and> stored_text w' ''web'' = Some []) full_world"
proof -
  have "c_id demo_container = Some ''web''" by (simp add: demo_container_def)
  from save_success_can_lose_state [OF full_store_ok full_simps(3) this plain_web(1)]
  have "wp (nk_state_save RefJ (Some demo_container)) (\<lambda>r w'. r = 0 \<and> stored_text w' ''web'' = Some []) full_world"
    by (rule wp_mono) simp
  moreover have "stored_text full_world ''web'' = Some ''old''"
    using stored_text_node [OF full_store_ok plain_web(1)]
    by (simp add: full_nodes full_simps file_key_def base_key_def demo_comps STATE_FILE_def)
  ultimately show ?thesis by simp
qed

end
