(* ===== verification/OciSpec.thy ===== *)
theory OciSpec
  imports NkLog Jansson
begin

text \<open>
  The bundle loader: \<open>src/oci/spec.c\<close> over the types of \<open>include/nk_oci.h\<close>. A pointer to
  an array is an optional list (NULL is \<open>None\<close>), kept beside the length field of the C
  struct, because the code counts the two separately: an array element that was skipped stays
  as \<open>calloc\<close> left it. \<open>strdup\<close>, and the \<open>malloc\<close> of one annotation, are assumed to
  succeed; every checked allocation may fail. The numbers passed to \<open>oci_err\<close> are the lines
  of the calls of \<open>nk_stderr\<close>. Freeing a spec is not modelled.
\<close>

section \<open>Data\<close>

record nk_oci_process =
  p_args :: "cptr list option"
  p_args_len :: nat
  p_env :: "cptr list option"
  p_env_len :: nat
  p_cwd :: cptr
  p_user :: cptr
  p_uid :: "32 word"
  p_gid :: "32 word"
  p_additional_gids :: "32 word list option"
  p_additional_gids_len :: nat
  p_no_new_privileges :: bool
  p_console_size :: cptr
  p_terminal :: bool

record nk_oci_root =
  r_path :: cptr
  r_readonly :: bool

record nk_oci_mount =
  m_destination :: cptr
  m_type :: cptr
  m_source :: cptr
  m_options :: "cptr list option"
  m_options_len :: nat

record nk_oci_namespace =
  n_type :: cptr
  n_path :: cptr

record nk_oci_resources =
  mem_limit :: "64 word"
  mem_reservation :: "64 word"
  mem_swap :: "64 word"
  mem_kernel :: bool
  cpu_shares :: "64 word"
  cpu_quota :: "64 word"
  cpu_period :: "64 word"
  cpu_realtime_runtime :: "32 word"
  cpu_realtime_period :: "32 word"
  pids_limit :: "64 word"

record nk_oci_linux =
  lx_namespaces :: "nk_oci_namespace list option"
  lx_namespaces_len :: nat
  lx_resources :: "nk_oci_resources option"
  lx_rootfs_propagation :: cptr

record nk_oci_spec =
  s_oci_version :: cptr
  s_process :: "nk_oci_process option"
  s_root :: "nk_oci_root option"
  s_hostname :: cptr
  s_mounts :: "nk_oci_mount list option"
  s_mounts_len :: nat
  s_linux_config :: "nk_oci_linux option"
  s_annotations :: "string list option"
  s_annotations_len :: nat

text \<open>The structs as \<open>calloc\<close> returns them.\<close>

definition zero_process :: nk_oci_process where
  "zero_process = \<lparr>p_args = None, p_args_len = 0, p_env = None, p_env_len = 0, p_cwd = None,
     p_user = None, p_uid = 0, p_gid = 0, p_additional_gids = None, p_additional_gids_len = 0,
     p_no_new_privileges = False, p_console_size = None, p_terminal = False\<rparr>"

definition zero_mount :: nk_oci_mount where
  "zero_mount = \<lparr>m_destination = None, m_type = None, m_source = None, m_options = None, m_options_len = 0\<rparr>"

definition zero_namespace :: nk_oci_namespace where
  "zero_namespace = \<lparr>n_type = None, n_path = None\<rparr>"

definition zero_linux :: nk_oci_linux where
  "zero_linux = \<lparr>lx_namespaces = None, lx_namespaces_len = 0, lx_resources = None, lx_rootfs_propagation = None\<rparr>"

definition zero_spec :: nk_oci_spec where
  "zero_spec = \<lparr>s_oci_version = None, s_process = None, s_root = None, s_hostname = None,
     s_mounts = None, s_mounts_len = 0, s_linux_config = None, s_annotations = None, s_annotations_len = 0\<rparr>"

definition oci_err :: "nat \<Rightarrow> unit prog" where
  "oci_err n = nk_log_stderr_at ''src/oci/spec.c'' n"

definition CONFIG_JSON :: string where
  "CONFIG_JSON = ''config.json''"

section \<open>Reading the file\<close>

text \<open>
  \<open>fread\<close> of the whole file: what was read before an error stays in the buffer, and the code
  uses it. The buffer is then used as a C string, which ends at the first NUL.
\<close>

definition fread_content :: "string \<Rightarrow> node \<Rightarrow> string prog" where
  "fread_content path nd = do {
     k \<leftarrow> gets (\<lambda>w. nat (a_val (next_answer (Fread path) w)));
     r \<leftarrow> sys_fread path nd;
     ret (case r of Inr s \<Rightarrow> s | Inl _ \<Rightarrow> (case nd of Reg s \<Rightarrow> take k s | _ \<Rightarrow> []))
   }"

definition c_string :: "string \<Rightarrow> string" where
  "c_string s = takeWhile (\<lambda>c. c \<noteq> CHR 0x00) s"

text \<open>
  The size the code takes for the file: \<open>ftell\<close> after \<open>fseek\<close> to the end, neither checked. If
  \<open>fseek\<close> fails the offset is still 0; if \<open>ftell\<close> fails the size is -1. A size of \<open>LONG_MAX\<close>,
  that of a directory, overflows in \<open>size + 1\<close>, and \<open>malloc\<close> refuses what becomes of it; a size of
  -1 lets \<open>fread\<close> deliver any number of bytes. What the bytes past such a buffer overwrite is not
  modelled. If the position is not set back to the start there is nothing left to read.
\<close>

definition file_size :: "(errno + int) \<Rightarrow> (errno + int) \<Rightarrow> int" where
  "file_size sought told = (case told of Inl _ \<Rightarrow> -1 | Inr n \<Rightarrow> (if isl sought then 0 else n))"

definition delivered :: "(errno + int) \<Rightarrow> int \<Rightarrow> (errno + int) \<Rightarrow> string \<Rightarrow> string" where
  "delivered sought len rewound s =
     (if \<not> isl sought \<and> isl rewound then [] else if len < 0 then s else take (nat len) s)"

definition load_json_file :: "string \<Rightarrow> cptr prog" where
  "load_json_file path = do {
     f \<leftarrow> sys_fopen_r path;
     case f of
       Inl e \<Rightarrow>
         if e = ENOENT then do { for_each oci_err [18..<30]; ret None }
         else do { oci_err 31; ret None }
     | Inr nd \<Rightarrow> do {
         sought \<leftarrow> sys_fseek path nd;
         told \<leftarrow> sys_ftell path nd;
         let size = file_size sought told;
         rewound \<leftarrow> sys_fseek path nd;
         ok \<leftarrow> alloc;
         if \<not> ok \<or> LONG_MAX < size + 1 then do { oci_err 44; ret None }
         else do {
           content \<leftarrow> fread_content path nd;
           ret (Some (c_string (delivered sought size rewound content)))
         }
       }
   }"

section \<open>Parsing\<close>

text \<open>The array of C strings made of a JSON array: an element that is no string stays NULL.\<close>

definition string_array :: "'j jansson \<Rightarrow> 'j list \<Rightarrow> cptr list" where
  "string_array J vs = map (\<lambda>v. if json_is_string J v then Some (json_string_value J v) else None) vs"

definition int32 :: "int \<Rightarrow> 32 word" where
  "int32 i = word_of_int i"

definition array_member :: "'j jansson \<Rightarrow> 'j \<Rightarrow> string \<Rightarrow> 'j list option" where
  "array_member J obj k = (case json_object_get J obj k of
     None \<Rightarrow> None
   | Some v \<Rightarrow> if json_is_array J v then Some (json_elems J v) else None)"

definition true_member :: "'j jansson \<Rightarrow> 'j \<Rightarrow> string \<Rightarrow> bool" where
  "true_member J obj k = (case json_object_get J obj k of None \<Rightarrow> False | Some v \<Rightarrow> json_is_true J v)"

definition parse_user :: "'j jansson \<Rightarrow> 'j \<Rightarrow> nk_oci_process \<Rightarrow> nk_oci_process" where
  "parse_user J proc_obj proc = (case json_object_get J proc_obj ''user'' of
     None \<Rightarrow> proc
   | Some user \<Rightarrow>
       if json_is_object J user then
         proc\<lparr>p_uid := (case json_object_get J user ''uid'' of
                Some u \<Rightarrow> int32 (json_integer_value J u) | None \<Rightarrow> p_uid proc),
              p_gid := (case json_object_get J user ''gid'' of
                Some g \<Rightarrow> int32 (json_integer_value J g) | None \<Rightarrow> p_gid proc)\<rparr>
       else proc)"

definition parse_env :: "'j jansson \<Rightarrow> 'j \<Rightarrow> nk_oci_process \<Rightarrow> nk_oci_process prog" where
  "parse_env J proc_obj proc = (case array_member J proc_obj ''env'' of
     None \<Rightarrow> ret proc
   | Some env \<Rightarrow> do {
       ok \<leftarrow> alloc;
       ret (if ok then proc\<lparr>p_env := Some (string_array J env), p_env_len := length env\<rparr> else proc)
     })"

definition parse_process :: "'j jansson \<Rightarrow> 'j \<Rightarrow> nk_oci_process option prog" where
  "parse_process J proc_obj = do {
     ok \<leftarrow> alloc;
     if \<not> ok then ret None
     else do {
       let proc = zero_process\<lparr>
         p_terminal := true_member J proc_obj ''terminal'',
         p_console_size := string_member J proc_obj ''consoleSize''\<rparr>;
       let proc = parse_user J proc_obj proc;
       case array_member J proc_obj ''args'' of
         None \<Rightarrow> do { oci_err 86; ret None }
       | Some args \<Rightarrow> do {
           ok \<leftarrow> alloc;
           if \<not> ok then ret None
           else do {
             let proc = proc\<lparr>p_args := Some (string_array J args), p_args_len := length args\<rparr>;
             proc \<leftarrow> parse_env J proc_obj proc;
             ret (Some (proc\<lparr>
               p_cwd := (case string_member J proc_obj ''cwd'' of Some c \<Rightarrow> Some c | None \<Rightarrow> Some ''/''),
               p_no_new_privileges := true_member J proc_obj ''noNewPrivileges''\<rparr>))
           }
         }
     }
   }"

definition parse_root :: "'j jansson \<Rightarrow> 'j \<Rightarrow> nk_oci_root option prog" where
  "parse_root J root_obj = do {
     ok \<leftarrow> alloc;
     if \<not> ok then ret None
     else (case string_member J root_obj ''path'' of
       None \<Rightarrow> do { oci_err 148; ret None }
     | Some path \<Rightarrow> ret (Some \<lparr>r_path = Some path, r_readonly = true_member J root_obj ''readonly''\<rparr>))
   }"

text \<open>One element of the namespaces array; an element without a type stays zero.\<close>

definition parse_namespace :: "'j jansson \<Rightarrow> 'j \<Rightarrow> nk_oci_namespace" where
  "parse_namespace J ns = (case string_member J ns ''type'' of
     None \<Rightarrow> zero_namespace
   | Some t \<Rightarrow> \<lparr>n_type = Some t, n_path = string_member J ns ''path''\<rparr>)"

definition parse_linux :: "'j jansson \<Rightarrow> 'j \<Rightarrow> nk_oci_linux option prog" where
  "parse_linux J linux_obj = do {
     ok \<leftarrow> alloc;
     if \<not> ok then ret None
     else do {
       linux_cfg \<leftarrow> (case array_member J linux_obj ''namespaces'' of
          None \<Rightarrow> ret zero_linux
        | Some namespaces \<Rightarrow> do {
            ok \<leftarrow> alloc;
            ret (if \<not> ok then zero_linux
                 else zero_linux\<lparr>
                   lx_namespaces := Some (map (parse_namespace J) namespaces),
                   lx_namespaces_len := length (filter (\<lambda>ns. string_member J ns ''type'' \<noteq> None) namespaces)\<rparr>)
          });
       ret (Some (linux_cfg\<lparr>lx_rootfs_propagation := string_member J linux_obj ''rootfsPropagation''\<rparr>))
     }
   }"

text \<open>One element of the mounts array; an element without a destination stays zero.\<close>

definition parse_mount :: "'j jansson \<Rightarrow> 'j \<Rightarrow> nk_oci_mount prog" where
  "parse_mount J m = (case string_member J m ''destination'' of
     None \<Rightarrow> ret zero_mount
   | Some dest \<Rightarrow> do {
       let mnt = zero_mount\<lparr>m_destination := Some dest, m_type := string_member J m ''type'',
         m_source := string_member J m ''source''\<rparr>;
       case array_member J m ''options'' of
         None \<Rightarrow> ret mnt
       | Some opts \<Rightarrow> do {
           ok \<leftarrow> alloc;
           ret (if ok then mnt\<lparr>m_options := Some (string_array J opts), m_options_len := length opts\<rparr> else mnt)
         }
     })"

fun parse_mount_list :: "'j jansson \<Rightarrow> 'j list \<Rightarrow> nk_oci_mount list prog" where
  "parse_mount_list J [] = ret []"
| "parse_mount_list J (m # ms) = do {
     x \<leftarrow> parse_mount J m;
     xs \<leftarrow> parse_mount_list J ms;
     ret (x # xs)
   }"

definition parse_mounts :: "'j jansson \<Rightarrow> 'j \<Rightarrow> nk_oci_spec \<Rightarrow> nk_oci_spec prog" where
  "parse_mounts J root spec = (case array_member J root ''mounts'' of
     None \<Rightarrow> ret spec
   | Some mounts \<Rightarrow> do {
       ok \<leftarrow> alloc;
       if \<not> ok then ret spec
       else do {
         ms \<leftarrow> parse_mount_list J mounts;
         ret (spec\<lparr>s_mounts := Some ms,
           s_mounts_len := length (filter (\<lambda>m. string_member J m ''destination'' \<noteq> None) mounts)\<rparr>)
       }
     })"

definition annotation_texts :: "'j jansson \<Rightarrow> (string \<times> 'j) list \<Rightarrow> string list" where
  "annotation_texts J ms = map (\<lambda>(k, v). k @ ''='' @ json_string_value J v)
     (filter (\<lambda>(k, v). json_is_string J v) ms)"

definition parse_annotations :: "'j jansson \<Rightarrow> 'j \<Rightarrow> nk_oci_spec \<Rightarrow> nk_oci_spec prog" where
  "parse_annotations J root spec = (case json_object_get J root ''annotations'' of
     None \<Rightarrow> ret spec
   | Some annotations \<Rightarrow>
       if \<not> json_is_object J annotations then ret spec
       else do {
         ok \<leftarrow> alloc;
         if \<not> ok then ret spec
         else do {
           let anns = annotation_texts J (json_members J annotations);
           ret (spec\<lparr>s_annotations := Some anns, s_annotations_len := length anns\<rparr>)
         }
       })"

text \<open>The part of \<open>nk_oci_spec_load\<close> that works on the parsed document.\<close>

definition build_spec :: "'j jansson \<Rightarrow> 'j \<Rightarrow> nk_oci_spec prog" where
  "build_spec J root = do {
     process \<leftarrow> (case json_object_get J root ''process'' of
        None \<Rightarrow> ret None | Some process \<Rightarrow> parse_process J process);
     root_cfg \<leftarrow> (case json_object_get J root ''root'' of
        None \<Rightarrow> ret None | Some root_obj \<Rightarrow> parse_root J root_obj);
     let spec = zero_spec\<lparr>s_oci_version := string_member J root ''ociVersion'',
       s_process := process, s_root := root_cfg, s_hostname := string_member J root ''hostname''\<rparr>;
     spec \<leftarrow> parse_mounts J root spec;
     linux_cfg \<leftarrow> (case json_object_get J root ''linux'' of
        None \<Rightarrow> ret None | Some linux_obj \<Rightarrow> parse_linux J linux_obj);
     parse_annotations J root (spec\<lparr>s_linux_config := linux_cfg\<rparr>)
   }"

text \<open>\<open>stat\<close> of the NULL pointer fails with EFAULT.\<close>

definition nk_oci_spec_load :: "'j jansson \<Rightarrow> cptr \<Rightarrow> nk_oci_spec option prog" where
  "nk_oci_spec_load J bundle_path = do {
     let config_path = snprintf_n PATH_MAX (printed bundle_path @ ''/'' @ CONFIG_JSON);
     st \<leftarrow> (case bundle_path of None \<Rightarrow> ret (Inl EFAULT) | Some b \<Rightarrow> sys_stat b);
     case st of
       Inl e \<Rightarrow>
         if e = ENOENT then do { for_each oci_err [210..<223]; ret None }
         else do { oci_err 224; ret None }
     | Inr nd \<Rightarrow>
         if nd \<noteq> Dir then do { oci_err 231; ret None }
         else do {
           json_content \<leftarrow> load_json_file config_path;
           case json_content of
             None \<Rightarrow> ret None
           | Some content \<Rightarrow> (case json_loads J content of
               None \<Rightarrow> do { oci_err 246; ret None }
             | Some root \<Rightarrow> do {
                 ok \<leftarrow> alloc;
                 if \<not> ok then ret None
                 else do { spec \<leftarrow> build_spec J root; ret (Some spec) }
               })
         }
   }"

section \<open>Validation and annotations\<close>

definition nk_oci_spec_validate :: "nk_oci_spec option \<Rightarrow> bool prog" where
  "nk_oci_spec_validate spec = (case spec of
     None \<Rightarrow> do { oci_err 418; ret False }
   | Some s \<Rightarrow>
       (case s_root s of
          None \<Rightarrow> do { for_each oci_err [423..<434]; ret False }
        | Some root \<Rightarrow>
            if r_path root = None then do { for_each oci_err [423..<434]; ret False }
            else (case s_process s of
              None \<Rightarrow> do { for_each oci_err [438..<450]; ret False }
            | Some process \<Rightarrow>
                if p_args process = None \<or> p_args_len process = 0
                then do { for_each oci_err [454..<464]; ret False }
                else ret True)))"

text \<open>
  The loop over the annotations: an entry that starts with the key and goes on with \<open>=\<close>.
\<close>

definition annotation_value :: "string \<Rightarrow> string \<Rightarrow> cptr" where
  "annotation_value key ann =
     (if take (length key) ann = key \<and> length key < length ann \<and> ann ! length key = CHR ''=''
      then Some (drop (length key + 1) ann) else None)"

fun find_annotation :: "string \<Rightarrow> string list \<Rightarrow> cptr" where
  "find_annotation key [] = None"
| "find_annotation key (a # as) =
     (case annotation_value key a of Some v \<Rightarrow> Some v | None \<Rightarrow> find_annotation key as)"

definition nk_oci_spec_get_annotation :: "nk_oci_spec option \<Rightarrow> cptr \<Rightarrow> cptr" where
  "nk_oci_spec_get_annotation spec key = (case (spec, key) of
     (Some s, Some k) \<Rightarrow> find_annotation k
       (case s_annotations s of None \<Rightarrow> [] | Some as \<Rightarrow> take (s_annotations_len s) as)
   | _ \<Rightarrow> None)"

section \<open>Frames\<close>

lemma only_log_oci [log_intros]: "only_log (oci_err n)"
  unfolding oci_err_def by (intro log_intros)

lemmas [wp_intros] = only_log_oci [THEN wp_only_log]
lemmas [static_intros] = only_log_oci [THEN only_log_rels(1)]
lemmas [calls_intros] = only_log_oci [THEN only_log_rels(4)]
lemmas [same_intros] = only_log_oci [THEN only_log_rels(5)]

lemma only_log_validate [log_intros]: "only_log (nk_oci_spec_validate s)"
  unfolding nk_oci_spec_validate_def by (cases s) (auto intro!: log_intros split: option.split)

text \<open>Loading a spec only reads: it makes store calls, and the file system stays.\<close>

lemma mount_list_obeys:
  "obeys static_rel (parse_mount_list J ms)" "obeys same_fs (parse_mount_list J ms)"
  "obeys (calls_rel store_call) (parse_mount_list J ms)"
proof (induction ms)
  case (Cons m ms)
  { case 1 show ?case using Cons(1) by (auto simp: parse_mount_def Let_def intro!: static_intros)
  next
    case 2 show ?case using Cons(2) by (auto simp: parse_mount_def Let_def intro!: same_intros)
  next
    case 3 show ?case using Cons(3) by (auto simp: parse_mount_def Let_def intro!: calls_intros) }
qed (simp_all add: static_intros same_intros calls_intros)

lemmas load_defs = nk_oci_spec_load_def build_spec_def load_json_file_def fread_content_def
  parse_process_def parse_env_def parse_root_def parse_linux_def parse_mounts_def parse_annotations_def

lemma spec_load_obeys:
  "obeys static_rel (nk_oci_spec_load J b)" "obeys same_fs (nk_oci_spec_load J b)"
  "obeys (calls_rel store_call) (nk_oci_spec_load J b)"
  unfolding load_defs Let_def
  by (intro static_intros mount_list_obeys)
    (intro same_intros mount_list_obeys, intro calls_intros mount_list_obeys, simp_all)

declare spec_load_obeys(1) [static_intros] spec_load_obeys(2) [same_intros] spec_load_obeys(3) [calls_intros]

end
