(* ===== verification/Namespaces.thy ===== *)
theory Namespaces
  imports NkLog
begin

unbundle bit_operations_syntax

text \<open>
  The types of \<open>include/nk_container.h\<close> and the namespace component,
  \<open>src/container/namespaces.c\<close>: from a namespace configuration to the flags of \<open>clone\<close>,
  the host name, and joining existing namespaces. Flags are 32-bit words as the kernel
  headers define them.
\<close>

section \<open>The container context\<close>

datatype nk_namespace_type_t =
  NK_NS_PID | NK_NS_NETWORK | NK_NS_IPC | NK_NS_UTS | NK_NS_MOUNT | NK_NS_USER | NK_NS_CGROUP

record nk_namespace_config =
  nc_type :: nk_namespace_type_t
  nc_path :: cptr
  nc_enable :: bool

record nk_cgroup_config =
  cg_path :: cptr
  cg_memory_limit :: "64 word"
  cg_cpu_shares :: "64 word"
  cg_pids_limit :: "64 word"

record nk_container_ctx =
  x_rootfs :: cptr
  x_mounts :: "cptr list option"
  x_mounts_len :: nat
  x_namespaces :: "nk_namespace_config list option"
  x_namespaces_len :: nat
  x_cgroup :: "nk_cgroup_config option"
  x_env :: "cptr list option"
  x_env_len :: nat
  x_cwd :: cptr
  x_args :: "cptr list option"
  x_args_len :: nat
  x_terminal :: bool

section \<open>Clone flags\<close>

definition CLONE_NEWNS :: "32 word" where "CLONE_NEWNS = 0x00020000"
definition CLONE_NEWCGROUP :: "32 word" where "CLONE_NEWCGROUP = 0x02000000"
definition CLONE_NEWUTS :: "32 word" where "CLONE_NEWUTS = 0x04000000"
definition CLONE_NEWIPC :: "32 word" where "CLONE_NEWIPC = 0x08000000"
definition CLONE_NEWUSER :: "32 word" where "CLONE_NEWUSER = 0x10000000"
definition CLONE_NEWPID :: "32 word" where "CLONE_NEWPID = 0x20000000"
definition CLONE_NEWNET :: "32 word" where "CLONE_NEWNET = 0x40000000"

definition ns_map :: "nk_namespace_type_t \<Rightarrow> 32 word" where
  "ns_map t = (case t of
     NK_NS_PID \<Rightarrow> CLONE_NEWPID | NK_NS_NETWORK \<Rightarrow> CLONE_NEWNET | NK_NS_IPC \<Rightarrow> CLONE_NEWIPC
   | NK_NS_UTS \<Rightarrow> CLONE_NEWUTS | NK_NS_MOUNT \<Rightarrow> CLONE_NEWNS | NK_NS_USER \<Rightarrow> CLONE_NEWUSER
   | NK_NS_CGROUP \<Rightarrow> CLONE_NEWCGROUP)"

definition ns_names :: "nk_namespace_type_t \<Rightarrow> string" where
  "ns_names t = (case t of
     NK_NS_PID \<Rightarrow> ''pid'' | NK_NS_NETWORK \<Rightarrow> ''network'' | NK_NS_IPC \<Rightarrow> ''ipc''
   | NK_NS_UTS \<Rightarrow> ''uts'' | NK_NS_MOUNT \<Rightarrow> ''mount'' | NK_NS_USER \<Rightarrow> ''user''
   | NK_NS_CGROUP \<Rightarrow> ''cgroup'')"

definition ns_err :: "nat \<Rightarrow> unit prog" where
  "ns_err n = nk_log_stderr_at ''src/container/namespaces.c'' n"

fun clone_flags_loop :: "32 word \<Rightarrow> nk_namespace_config list \<Rightarrow> 32 word" where
  "clone_flags_loop flags [] = flags"
| "clone_flags_loop flags (n # ns) =
     clone_flags_loop (if nc_enable n \<and> nc_path n = None then flags OR ns_map (nc_type n) else flags) ns"

definition nk_namespace_get_clone_flags :: "nk_namespace_config list \<Rightarrow> nat \<Rightarrow> 32 word" where
  "nk_namespace_get_clone_flags namespaces len = clone_flags_loop 0 (take len namespaces)"

definition nk_namespace_flags_to_string :: "32 word \<Rightarrow> string" where
  "nk_namespace_flags_to_string flags =
     (if flags AND CLONE_NEWPID \<noteq> 0 then ''PID '' else [])
     @ (if flags AND CLONE_NEWNET \<noteq> 0 then ''NET '' else [])
     @ (if flags AND CLONE_NEWIPC \<noteq> 0 then ''IPC '' else [])
     @ (if flags AND CLONE_NEWUTS \<noteq> 0 then ''UTS '' else [])
     @ (if flags AND CLONE_NEWNS \<noteq> 0 then ''MNT '' else [])
     @ (if flags AND CLONE_NEWUSER \<noteq> 0 then ''USER '' else [])
     @ (if flags AND CLONE_NEWCGROUP \<noteq> 0 then ''CGROUP '' else [])"

section \<open>Operations\<close>

definition nk_namespace_set_hostname :: "string \<Rightarrow> int prog" where
  "nk_namespace_set_hostname hostname = do {
     r \<leftarrow> kernel (Sethostname hostname);
     case r of Inl _ \<Rightarrow> do { ns_err 58; ret (-1) } | Inr _ \<Rightarrow> ret 0
   }"

definition nk_namespace_join :: "nk_namespace_type_t \<Rightarrow> string \<Rightarrow> int prog" where
  "nk_namespace_join type path = do {
     fd \<leftarrow> kernel (Open path);
     case fd of
       Inl _ \<Rightarrow> do { ns_err 71; ret (-1) }
     | Inr _ \<Rightarrow> do {
         r \<leftarrow> kernel (Setns (ns_map type) path);
         case r of Inl _ \<Rightarrow> do { ns_err 77; ret (-1) } | Inr _ \<Rightarrow> ret 0
       }
   }"

text \<open>The text of \<open>dprintf(fd, "0 %d 1\n", id)\<close>: the unsigned identifier printed as signed.\<close>

definition map_line :: "32 word \<Rightarrow> string" where
  "map_line i = ''0 '' @ dec_int (sint i) @ '' 1'' @ [CHR 10]"

definition nk_namespace_setup_user :: "32 word \<Rightarrow> 32 word \<Rightarrow> int prog" where
  "nk_namespace_setup_user uid gid = do {
     uid_map \<leftarrow> kernel (Open ''/proc/self/uid_map'');
     case uid_map of
       Inl _ \<Rightarrow> do { ns_err 95; ret (-1) }
     | Inr _ \<Rightarrow> do {
         r \<leftarrow> kernel (Write ''/proc/self/uid_map'' (map_line uid));
         case r of
           Inl _ \<Rightarrow> do { ns_err 101; ret (-1) }
         | Inr _ \<Rightarrow> do {
             gid_map \<leftarrow> kernel (Open ''/proc/self/gid_map'');
             case gid_map of
               Inl _ \<Rightarrow> do { ns_err 110; ret (-1) }
             | Inr _ \<Rightarrow> do {
                 r \<leftarrow> kernel (Write ''/proc/self/gid_map'' (map_line gid));
                 case r of
                   Inl _ \<Rightarrow> do { ns_err 115; ret (-1) }
                 | Inr _ \<Rightarrow> do {
                     setgroups \<leftarrow> kernel (Open ''/proc/self/setgroups'');
                     (case setgroups of
                        Inl _ \<Rightarrow> ret ()
                      | Inr _ \<Rightarrow> do { kernel (Write ''/proc/self/setgroups'' ''deny''); ret () });
                     ret 0
                   }
               }
           }
       }
   }"

fun join_loop :: "nk_namespace_config list \<Rightarrow> int prog" where
  "join_loop [] = ret 0"
| "join_loop (n # ns) = (case nc_path n of
     None \<Rightarrow> join_loop ns
   | Some path \<Rightarrow> do {
       r \<leftarrow> nk_namespace_join (nc_type n) path;
       if r = -1 then ret (-1) else join_loop ns
     })"

definition nk_container_setup_namespaces :: "nk_container_ctx option \<Rightarrow> int prog" where
  "nk_container_setup_namespaces ctx = (case ctx of
     None \<Rightarrow> do { ns_err 136; ret (-1) }
   | Some c \<Rightarrow> (case x_namespaces c of
       None \<Rightarrow> do { ns_err 136; ret (-1) }
     | Some ns \<Rightarrow> join_loop (take (x_namespaces_len c) ns)))"

section \<open>Properties\<close>

text \<open>A namespace is created when an entry enables it and gives no path to join.\<close>

definition creates :: "nk_namespace_config list \<Rightarrow> nk_namespace_type_t \<Rightarrow> bool" where
  "creates ns t \<longleftrightarrow> list_ex (\<lambda>n. nc_enable n \<and> nc_path n = None \<and> nc_type n = t) ns"

definition ns_bit :: "nk_namespace_type_t \<Rightarrow> nat" where
  "ns_bit t = (case t of
     NK_NS_PID \<Rightarrow> 29 | NK_NS_NETWORK \<Rightarrow> 30 | NK_NS_IPC \<Rightarrow> 27 | NK_NS_UTS \<Rightarrow> 26
   | NK_NS_MOUNT \<Rightarrow> 17 | NK_NS_USER \<Rightarrow> 28 | NK_NS_CGROUP \<Rightarrow> 25)"

lemmas clone_consts = CLONE_NEWPID_def CLONE_NEWNET_def CLONE_NEWIPC_def CLONE_NEWUTS_def
  CLONE_NEWNS_def CLONE_NEWUSER_def CLONE_NEWCGROUP_def

lemma ns_map_exp: "ns_map t = push_bit (ns_bit t) 1"
  by (cases t) (simp_all add: ns_map_def ns_bit_def clone_consts push_bit_eq_mult)

lemma ns_bit_bound: "ns_bit t < 32"
  by (cases t) (simp_all add: ns_bit_def)

lemma ns_bit_inject: "ns_bit s = ns_bit t \<longleftrightarrow> s = t"
  by (cases s; cases t) (simp_all add: ns_bit_def)

lemma bit_ns_map: "bit (ns_map t) n \<longleftrightarrow> n = ns_bit t"
  using ns_bit_bound [of t] by (auto simp: ns_map_exp push_bit_eq_mult bit_exp_iff)

lemma bit_clone_flags_loop:
  "bit (clone_flags_loop flags ns) n \<longleftrightarrow> bit flags n \<or> (\<exists>t. creates ns t \<and> n = ns_bit t)"
  by (induction flags ns rule: clone_flags_loop.induct)
    (auto simp: creates_def bit_or_iff bit_ns_map)

text \<open>C32: the clone flags have exactly the bits of the namespaces that the configuration
  creates: an entry that is enabled and has no path contributes the bit of its type, every
  other entry contributes nothing.\<close>

theorem clone_flags_bits:
  "bit (nk_namespace_get_clone_flags ns len) n \<longleftrightarrow> (\<exists>t. creates (take len ns) t \<and> n = ns_bit t)"
  by (simp add: nk_namespace_get_clone_flags_def bit_clone_flags_loop)

lemma and_ns_map: "flags AND ns_map t \<noteq> 0 \<longleftrightarrow> bit flags (ns_bit t)"
proof -
  have "flags AND ns_map t = (if bit flags (ns_bit t) then ns_map t else 0)"
    by (rule bit_word_eqI) (auto simp: bit_and_iff bit_ns_map)
  moreover have "ns_map t \<noteq> 0"
    using bit_ns_map [of t "ns_bit t"] by auto
  ultimately show ?thesis by simp
qed

definition ns_tag :: "nk_namespace_type_t \<Rightarrow> string" where
  "ns_tag t = (case t of
     NK_NS_PID \<Rightarrow> ''PID '' | NK_NS_NETWORK \<Rightarrow> ''NET '' | NK_NS_IPC \<Rightarrow> ''IPC '' | NK_NS_UTS \<Rightarrow> ''UTS ''
   | NK_NS_MOUNT \<Rightarrow> ''MNT '' | NK_NS_USER \<Rightarrow> ''USER '' | NK_NS_CGROUP \<Rightarrow> ''CGROUP '')"

definition ns_order :: "nk_namespace_type_t list" where
  "ns_order = [NK_NS_PID, NK_NS_NETWORK, NK_NS_IPC, NK_NS_UTS, NK_NS_MOUNT, NK_NS_USER, NK_NS_CGROUP]"

lemma flags_to_string_eq:
  "nk_namespace_flags_to_string flags = concat (map ns_tag (filter (\<lambda>t. bit flags (ns_bit t)) ns_order))"
proof -
  have m: "CLONE_NEWPID = ns_map NK_NS_PID" "CLONE_NEWNET = ns_map NK_NS_NETWORK"
    "CLONE_NEWIPC = ns_map NK_NS_IPC" "CLONE_NEWUTS = ns_map NK_NS_UTS"
    "CLONE_NEWNS = ns_map NK_NS_MOUNT" "CLONE_NEWUSER = ns_map NK_NS_USER"
    "CLONE_NEWCGROUP = ns_map NK_NS_CGROUP"
    by (simp_all add: ns_map_def)
  show ?thesis
    unfolding nk_namespace_flags_to_string_def m and_ns_map ns_order_def
    by (simp add: ns_tag_def)
qed

text \<open>The debug text of a namespace configuration names, in a fixed order, exactly the
  namespaces the configuration creates, and it always fits the static buffer of 256 bytes.\<close>

lemma flags_to_string_names:
  "nk_namespace_flags_to_string (nk_namespace_get_clone_flags ns len) =
     concat (map ns_tag (filter (creates (take len ns)) ns_order))
   \<and> length (nk_namespace_flags_to_string flags) < 256"
proof
  have "bit (nk_namespace_get_clone_flags ns len) (ns_bit t) = creates (take len ns) t" for t
    by (auto simp: nk_namespace_get_clone_flags_def bit_clone_flags_loop ns_bit_inject)
  then show "nk_namespace_flags_to_string (nk_namespace_get_clone_flags ns len) =
     concat (map ns_tag (filter (creates (take len ns)) ns_order))"
    by (simp add: flags_to_string_eq)
  show "length (nk_namespace_flags_to_string flags) < 256"
    by (simp add: nk_namespace_flags_to_string_def)
qed

end
