(* ===== verification/Cgroups.thy ===== *)
theory Cgroups
  imports Namespaces
begin

text \<open>
  The cgroup component, \<open>src/container/cgroups.c\<close>: one cgroup per container below
  \<open>/sys/fs/cgroup/nano-sandbox\<close>, with its limits written as decimal text. The cgroup file
  system is the kernel's: every call on it is answered by the oracle. The lemmas describe the
  calls each operation makes, by the relation \<open>cgroup_calls\<close>.
\<close>

section \<open>Operations\<close>

definition CGROUP_ROOT :: string where
  "CGROUP_ROOT = ''/sys/fs/cgroup''"

definition CGROUP_V2_CHECK :: string where
  "CGROUP_V2_CHECK = ''/sys/fs/cgroup/cgroup.controllers''"

definition cg_err :: "nat \<Rightarrow> unit prog" where
  "cg_err n = nk_log_stderr_at ''src/container/cgroups.c'' n"

definition cg_info :: "nat \<Rightarrow> unit prog" where
  "cg_info n = nk_log_at NK_LOG_INFO ''src/container/cgroups.c'' n"

definition failed :: "errno + 'a \<Rightarrow> bool" where
  "failed r = (case r of Inl _ \<Rightarrow> True | Inr _ \<Rightarrow> False)"

definition failed_but :: "errno \<Rightarrow> errno + 'a \<Rightarrow> bool" where
  "failed_but ok r = (case r of Inl e \<Rightarrow> e \<noteq> ok | Inr _ \<Rightarrow> False)"

text \<open>The paths the code builds, cut to the size of their buffers.\<close>

definition cgroup_parent :: string where
  "cgroup_parent = snprintf_n PATH_MAX (CGROUP_ROOT @ ''/nano-sandbox'')"

definition cgroup_path :: "string \<Rightarrow> string" where
  "cgroup_path container_id = snprintf_n PATH_MAX (CGROUP_ROOT @ ''/nano-sandbox/'' @ container_id)"

definition cgroup_file :: "string \<Rightarrow> string \<Rightarrow> string" where
  "cgroup_file container_id name =
     snprintf_n PATH_MAX (CGROUP_ROOT @ ''/nano-sandbox/'' @ container_id @ ''/'' @ name)"

definition nk_cgroup_is_v2 :: "bool prog" where
  "nk_cgroup_is_v2 = do { r \<leftarrow> kernel (Stat CGROUP_V2_CHECK); ret (\<not> failed r) }"

definition nk_cgroup_create :: "string \<Rightarrow> int prog" where
  "nk_cgroup_create container_id = do {
     r \<leftarrow> kernel (Mkdir cgroup_parent);
     if failed_but EEXIST r then do { cg_err 39; ret (-1) }
     else do {
       r \<leftarrow> kernel (Mkdir (cgroup_path container_id));
       if failed_but EEXIST r then do { cg_err 46; ret (-1) }
       else do {
         let controllers_path = snprintf_n PATH_MAX (cgroup_parent @ ''/cgroup.subtree_control'');
         fd \<leftarrow> kernel (Open controllers_path);
         (if failed fd then ret ()
          else do { kernel (Write controllers_path ''+cpu +memory +pids +io +cpuset''); ret () });
         cg_info 64;
         ret 0
       }
     }
   }"

text \<open>
  The three functions that write a limit differ in the file and in the lines they log from:
  \<open>write_limit\<close> is their common body. A 64-bit number has at most 20 digits, so \<open>snprintf\<close>
  to 64 bytes keeps all of it.
\<close>

definition write_limit :: "string \<Rightarrow> nat \<Rightarrow> nat \<Rightarrow> nat \<Rightarrow> string \<Rightarrow> 64 word \<Rightarrow> int prog" where
  "write_limit name open_err write_err info container_id limit =
     (if limit = 0 then ret 0
      else do {
        let path = cgroup_file container_id name;
        fd \<leftarrow> kernel (Open path);
        if failed fd then do { cg_err open_err; ret (-1) }
        else do {
          r \<leftarrow> kernel (Write path (snprintf_n 64 (dec (unat limit))));
          if failed r then do { cg_err write_err; ret (-1) }
          else do { cg_info info; ret 0 }
        }
      })"

definition nk_cgroup_set_memory_limit :: "string \<Rightarrow> 64 word \<Rightarrow> int prog" where
  "nk_cgroup_set_memory_limit = write_limit ''memory.max'' 82 91 98"

definition nk_cgroup_set_cpu_shares :: "string \<Rightarrow> 64 word \<Rightarrow> int prog" where
  "nk_cgroup_set_cpu_shares = write_limit ''cpu.weight'' 116 125 132"

definition nk_cgroup_set_pids_limit :: "string \<Rightarrow> 64 word \<Rightarrow> int prog" where
  "nk_cgroup_set_pids_limit = write_limit ''pids.max'' 150 159 166"

definition nk_cgroup_add_process :: "string \<Rightarrow> int \<Rightarrow> int prog" where
  "nk_cgroup_add_process container_id pid = do {
     let path = cgroup_file container_id ''cgroup.procs'';
     fd \<leftarrow> kernel (Open path);
     if failed fd then do { cg_err 180; ret (-1) }
     else do {
       r \<leftarrow> kernel (Write path (snprintf_n 64 (dec_int pid)));
       if failed r then do { cg_err 189; ret (-1) } else ret 0
     }
   }"

text \<open>
  In \<open>nk_cgroup_delete\<close> the identifier is appended to the parent's path in the rest of the
  same buffer.
\<close>

definition nk_cgroup_delete :: "string \<Rightarrow> int prog" where
  "nk_cgroup_delete container_id = do {
     let len = length (CGROUP_ROOT @ ''/nano-sandbox'');
     let path = (if 0 < len \<and> len < PATH_MAX
       then cgroup_parent @ snprintf_n (PATH_MAX - len) (''/'' @ container_id) else cgroup_parent);
     let procs_path = snprintf_n PATH_MAX (path @ ''/cgroup.procs'');
     fd \<leftarrow> kernel (Open procs_path);
     (if failed fd then ret () else do { kernel (Write procs_path ''0''); ret () });
     r \<leftarrow> kernel (Rmdir path);
     (if failed_but ENOENT r then cg_err 224 else ret ());
     ret 0
   }"

definition nk_container_setup_cgroups :: "nk_container_ctx option \<Rightarrow> cptr \<Rightarrow> int prog" where
  "nk_container_setup_cgroups ctx container_id =
     (case (ctx, container_id) of
        (Some c, Some i) \<Rightarrow> (case x_cgroup c of
          None \<Rightarrow> ret 0
        | Some cg \<Rightarrow> do {
            v2 \<leftarrow> nk_cgroup_is_v2;
            if \<not> v2 then do { cg_err 242; ret 0 }
            else do {
              cg_info 246;
              r \<leftarrow> nk_cgroup_create i;
              if r = -1 then ret (-1)
              else do {
                (if 0 < cg_memory_limit cg
                 then do { nk_cgroup_set_memory_limit i (cg_memory_limit cg); ret () } else ret ());
                (if 0 < cg_cpu_shares cg
                 then do { nk_cgroup_set_cpu_shares i (cg_cpu_shares cg); ret () } else ret ());
                (if 0 < cg_pids_limit cg
                 then do { nk_cgroup_set_pids_limit i (cg_pids_limit cg); ret () } else ret ());
                ret 0
              }
            }
          })
      | _ \<Rightarrow> ret 0)"

definition nk_container_add_to_cgroup :: "cptr \<Rightarrow> int \<Rightarrow> int prog" where
  "nk_container_add_to_cgroup container_id pid = (case container_id of
     None \<Rightarrow> ret 0 | Some i \<Rightarrow> nk_cgroup_add_process i pid)"

definition nk_cgroup_cleanup :: "cptr \<Rightarrow> int prog" where
  "nk_cgroup_cleanup container_id = (case container_id of
     None \<Rightarrow> ret 0 | Some i \<Rightarrow> nk_cgroup_delete i)"

section \<open>The calls they make\<close>

definition decimal_write :: "string \<Rightarrow> string \<Rightarrow> 64 word \<Rightarrow> call \<Rightarrow> bool" where
  "decimal_write i name v c \<longleftrightarrow> (\<exists>s. c = Write (cgroup_file i name) s \<and> undec s = unat v)"

lemma short_decimal: "length (dec (unat (v :: 64 word))) < 64"
proof -
  have dec_len: "n < 10 ^ k \<Longrightarrow> 0 < k \<Longrightarrow> length (dec n) \<le> k" for n k :: nat
  proof (induction n arbitrary: k rule: dec.induct)
    case (1 n)
    show ?case
    proof (cases "n < 10")
      case True
      then show ?thesis using 1 by (subst dec.simps) simp
    next
      case False
      then have "1 < k" using 1(2,3) by (cases "k = 1") auto
      moreover have "n div 10 < 10 ^ (k - 1)"
        using 1(2) \<open>1 < k\<close> by (cases k) (auto simp: less_mult_imp_div_less)
      ultimately have "length (dec (n div 10)) \<le> k - 1" using False by (intro 1(1)) auto
      with False \<open>1 < k\<close> show ?thesis by (subst dec.simps) simp
    qed
  qed
  have "unat v < 2 ^ 64" using unsigned_less [where 'a = nat, of v] by simp
  then have "unat v < 10 ^ 20" by simp
  then have "length (dec (unat v)) \<le> 20" by (rule dec_len) simp
  then show ?thesis by simp
qed

lemma decimal_writeI: "decimal_write i name v (Write (cgroup_file i name) (snprintf_n 64 (dec (unat v))))"
  by (simp add: decimal_write_def snprintf_n_id [OF short_decimal] undec_dec)

text \<open>What a setup of the cgroup \<open>i\<close> with the limits \<open>cg\<close> may ask of the kernel.\<close>

fun setup_call :: "string \<Rightarrow> nk_cgroup_config \<Rightarrow> call \<Rightarrow> bool" where
  "setup_call i cg (Stat p) = (p = CGROUP_V2_CHECK)"
| "setup_call i cg (Mkdir p) = (p = cgroup_parent \<or> p = cgroup_path i)"
| "setup_call i cg (Open p) = True"
| "setup_call i cg (Write p s) =
     (p = snprintf_n PATH_MAX (cgroup_parent @ ''/cgroup.subtree_control'')
      \<or> (cg_memory_limit cg \<noteq> 0 \<and> decimal_write i ''memory.max'' (cg_memory_limit cg) (Write p s))
      \<or> (cg_cpu_shares cg \<noteq> 0 \<and> decimal_write i ''cpu.weight'' (cg_cpu_shares cg) (Write p s))
      \<or> (cg_pids_limit cg \<noteq> 0 \<and> decimal_write i ''pids.max'' (cg_pids_limit cg) (Write p s)))"
| "setup_call i cg _ = False"

lemma calls_cg_log [calls_intros]: "obeys (calls_rel C) (cg_err n)" "obeys (calls_rel C) (cg_info n)"
  unfolding cg_err_def cg_info_def by (rule calls_intros)+

lemma calls_write_limit:
  assumes "C (Open (cgroup_file i name))"
    and "v \<noteq> 0 \<Longrightarrow> C (Write (cgroup_file i name) (snprintf_n 64 (dec (unat v))))"
  shows "obeys (calls_rel C) (write_limit name a b c i v)"
  unfolding write_limit_def Let_def by (intro calls_intros) (use assms in auto)

text \<open>C35: setting up the cgroup of a context that has a cgroup configuration creates no directory
  but the parent group and the container's own, and writes, beside the controllers of the
  parent group, only limits that are not zero, each to its own file of the container's group,
  as decimal text that reads back as the limit, whatever the kernel answers.\<close>

theorem setup_cgroups_calls:
  assumes "x_cgroup c = Some cg"
  shows "obeys (calls_rel (setup_call i cg)) (nk_container_setup_cgroups (Some c) (Some i))"
  unfolding nk_container_setup_cgroups_def nk_cgroup_is_v2_def nk_cgroup_create_def
    nk_cgroup_set_memory_limit_def nk_cgroup_set_cpu_shares_def nk_cgroup_set_pids_limit_def
    prod.case option.case assms Let_def
  by (intro calls_intros calls_write_limit) (simp_all add: decimal_writeI)

theorem setup_cgroups_calls_witness:
  "obeys (calls_rel (setup_call ''web'' \<lparr>cg_path = None, cg_memory_limit = 0, cg_cpu_shares = 100, cg_pids_limit = 0\<rparr>))
    (nk_container_setup_cgroups (Some \<lparr>x_rootfs = None, x_mounts = None, x_mounts_len = 0,
       x_namespaces = None, x_namespaces_len = 0,
       x_cgroup = Some \<lparr>cg_path = None, cg_memory_limit = 0, cg_cpu_shares = 100, cg_pids_limit = 0\<rparr>,
       x_env = None, x_env_len = 0, x_cwd = None, x_args = None, x_args_len = 0, x_terminal = False\<rparr>) (Some ''web''))"
  by (rule setup_cgroups_calls) simp

fun cleanup_call :: "string \<Rightarrow> call \<Rightarrow> bool" where
  "cleanup_call i (Rmdir p) = (p = cgroup_path i)"
| "cleanup_call i (Open p) = (p = snprintf_n PATH_MAX (cgroup_path i @ ''/cgroup.procs''))"
| "cleanup_call i (Write p s) = (p = snprintf_n PATH_MAX (cgroup_path i @ ''/cgroup.procs'') \<and> s = ''0'')"
| "cleanup_call i _ = False"

lemma cgroup_delete_path:
  "cgroup_parent @ snprintf_n (PATH_MAX - length (CGROUP_ROOT @ ''/nano-sandbox'')) (''/'' @ i) = cgroup_path i"
  by (simp add: cgroup_parent_def cgroup_path_def snprintf_n_def CGROUP_ROOT_def PATH_MAX_def)

lemma cgroup_cleanup_obeys: "obeys (calls_rel (cleanup_call i)) (nk_cgroup_cleanup (Some i))"
proof -
  have len: "0 < length (CGROUP_ROOT @ ''/nano-sandbox'') \<and> length (CGROUP_ROOT @ ''/nano-sandbox'') < PATH_MAX"
    by (simp add: CGROUP_ROOT_def PATH_MAX_def)
  show ?thesis
    unfolding nk_cgroup_cleanup_def nk_cgroup_delete_def option.case Let_def if_P [OF len] cgroup_delete_path
    by (intro calls_intros) simp_all
qed

text \<open>The directory of a container's group, as its documentation names it.\<close>

definition cgroup_dir :: "string \<Rightarrow> string" where
  "cgroup_dir i = take 4095 (''/sys/fs/cgroup/nano-sandbox/'' @ i)"

lemma cgroup_path_dir: "cgroup_path i = cgroup_dir i"
  by (simp add: cgroup_path_def cgroup_dir_def snprintf_n_def CGROUP_ROOT_def PATH_MAX_def)

lemma wp_cg_err [wp_intros]: "(\<And>a l. Q a (w\<lparr>w_log := l\<rparr>)) \<Longrightarrow> wp (cg_err n) Q w"
  unfolding cg_err_def by (rule wp_log_calls)

lemma cgroup_cleanup_wp:
  "wp (nk_cgroup_cleanup (Some i)) (\<lambda>r w'. r = 0 \<and> (\<exists>opened written removed.
     events w w' = (Open (take 4095 (cgroup_dir i @ ''/cgroup.procs'')), opened)
       # (if opened = None then [(Write (take 4095 (cgroup_dir i @ ''/cgroup.procs'')) ''0'', written)] else [])
       @ [(Rmdir (cgroup_dir i), removed)])) w"
proof -
  have len: "0 < length (CGROUP_ROOT @ ''/nano-sandbox'') \<and> length (CGROUP_ROOT @ ''/nano-sandbox'') < PATH_MAX"
    by (simp add: CGROUP_ROOT_def PATH_MAX_def)
  have cut: "snprintf_n PATH_MAX s = take 4095 s" for s
    by (simp add: snprintf_n_def PATH_MAX_def)
  show ?thesis
    unfolding nk_cgroup_cleanup_def nk_cgroup_delete_def option.case Let_def if_P [OF len]
      cgroup_delete_path cgroup_path_dir cut
    by (intro wp_intros) (auto simp: failed_def)
qed

text \<open>C36: cleaning up a container's cgroup always returns 0 and, whatever the kernel answers,
  makes exactly these calls in this order: it opens the group's \<open>cgroup.procs\<close>; if that
  succeeds it writes \<open>0\<close> there, which moves the caller into the group it is about to remove
  and not, as the comment says, the group's processes to the parent; and it then always asks to
  remove the directory \<open>/sys/fs/cgroup/nano-sandbox/<id>\<close>, and no other. Without an
  identifier it makes no call.\<close>

theorem cgroup_cleanup_calls:
  "res (nk_cgroup_cleanup (Some i)) w = 0
   \<and> (\<exists>opened written removed.
        events w (post (nk_cgroup_cleanup (Some i)) w)
          = (Open (take 4095 (cgroup_dir i @ ''/cgroup.procs'')), opened)
            # (if opened = None then [(Write (take 4095 (cgroup_dir i @ ''/cgroup.procs'')) ''0'', written)] else [])
            @ [(Rmdir (cgroup_dir i), removed)])
   \<and> run_state (nk_cgroup_cleanup None) w = (0, w)"
  using cgroup_cleanup_wp [of i w] by (simp add: wp_def nk_cgroup_cleanup_def)

end
