(* ===== verification/Mounts.thy ===== *)
theory Mounts
  imports OciSpec Cgroups
begin

text \<open>
  The root file system of a container: \<open>src/container/mounts.c\<close>. Its calls are made by the
  container's init process in its own mount namespace, so they do not act on the file system
  of the host: the kernel answers them. An option that is a NULL pointer crashes
  \<open>strcmp\<close>: the result \<open>None\<close> of \<open>nk_container_mount_custom\<close> is this crash.
\<close>

section \<open>Flags and tables\<close>

definition MS_RDONLY :: "64 word" where "MS_RDONLY = 1"
definition MS_NOSUID :: "64 word" where "MS_NOSUID = 2"
definition MS_NODEV :: "64 word" where "MS_NODEV = 4"
definition MS_NOEXEC :: "64 word" where "MS_NOEXEC = 8"
definition MS_REMOUNT :: "64 word" where "MS_REMOUNT = 32"
definition MS_BIND :: "64 word" where "MS_BIND = 4096"
definition MS_REC :: "64 word" where "MS_REC = 16384"
definition MS_PRIVATE :: "64 word" where "MS_PRIVATE = 262144"
definition MS_STRICTATIME :: "64 word" where "MS_STRICTATIME = 16777216"

record default_mount =
  dm_source :: string
  dm_target :: string
  dm_type :: string
  dm_flags :: "64 word"
  dm_options :: cptr

definition default_mounts :: "default_mount list" where
  "default_mounts = [
     \<lparr>dm_source = ''proc'', dm_target = ''/proc'', dm_type = ''proc'', dm_flags = 0, dm_options = None\<rparr>,
     \<lparr>dm_source = ''sysfs'', dm_target = ''/sys'', dm_type = ''sysfs'', dm_flags = 0, dm_options = None\<rparr>,
     \<lparr>dm_source = ''tmpfs'', dm_target = ''/dev'', dm_type = ''tmpfs'',
       dm_flags = MS_NOSUID OR MS_STRICTATIME, dm_options = Some ''mode=755''\<rparr>,
     \<lparr>dm_source = ''devpts'', dm_target = ''/dev/pts'', dm_type = ''devpts'',
       dm_flags = MS_NOSUID OR MS_NOEXEC, dm_options = None\<rparr>,
     \<lparr>dm_source = ''tmpfs'', dm_target = ''/dev/shm'', dm_type = ''tmpfs'',
       dm_flags = MS_NOSUID OR MS_NODEV, dm_options = None\<rparr>,
     \<lparr>dm_source = ''tmpfs'', dm_target = ''/dev/mqueue'', dm_type = ''tmpfs'',
       dm_flags = MS_NOSUID OR MS_NODEV, dm_options = None\<rparr>]"

definition mounts_c :: string where
  "mounts_c = ''src/container/mounts.c''"

abbreviation mt_err :: "nat \<Rightarrow> unit prog" where
  "mt_err n \<equiv> nk_log_stderr_at mounts_c n"

abbreviation mt_log :: "nk_log_level \<Rightarrow> nat \<Rightarrow> unit prog" where
  "mt_log l n \<equiv> nk_log_at l mounts_c n"

text \<open>\<open>if (nk_log_educational) nk_log_explain_op(...)\<close>.\<close>

definition explain_if_educational :: "string \<Rightarrow> nat \<Rightarrow> string \<Rightarrow> string \<Rightarrow> unit prog" where
  "explain_if_educational file line what why = do {
     edu \<leftarrow> gets (\<lambda>w. nk_log_educational (w_log w));
     if edu then nk_log_explain_op file line what why else ret ()
   }"

lemma only_log_explain [log_intros]: "only_log (explain_if_educational file line what why)"
  unfolding explain_if_educational_def by (intro log_intros)

lemmas [wp_intros] = only_log_explain [THEN wp_only_log]
lemmas [static_intros] = only_log_explain [THEN only_log_rels(1)]
lemmas [grow_intros] = only_log_explain [THEN only_log_rels(2)]
lemmas [tree_intros] = only_log_explain [THEN only_log_rels(3)]
lemmas [calls_intros] = only_log_explain [THEN only_log_rels(4)]
lemmas [same_intros] = only_log_explain [THEN only_log_rels(5)]

text \<open>A path below the root, in a buffer of \<open>PATH_MAX\<close> bytes.\<close>

definition under :: "string \<Rightarrow> string \<Rightarrow> string" where
  "under rootfs p = snprintf_n PATH_MAX (rootfs @ p)"

section \<open>Mounts\<close>

definition nk_mount_make_private :: "string \<Rightarrow> int prog" where
  "nk_mount_make_private path = do {
     r \<leftarrow> kernel (Mount None path None (MS_REC OR MS_PRIVATE) None);
     case r of
       Inr _ \<Rightarrow> ret 0
     | Inl e \<Rightarrow>
         if e = EINVAL then do {
           r \<leftarrow> kernel (Mount (Some path) path None (MS_BIND OR MS_REC) None);
           if failed r then do { mt_err 50; ret (-1) }
           else do {
             r \<leftarrow> kernel (Mount None path None (MS_REC OR MS_PRIVATE) None);
             if \<not> failed r then ret 0 else do { mt_err 58; ret (-1) }
           }
         }
         else do { mt_err 58; ret (-1) }
   }"

definition nk_mount_bind :: "string \<Rightarrow> string \<Rightarrow> 64 word \<Rightarrow> int prog" where
  "nk_mount_bind source target flags = do {
     r \<leftarrow> kernel (Mount (Some source) target None (MS_BIND OR MS_REC) None);
     if failed r then do { mt_err 72; ret (-1) }
     else if flags \<noteq> 0 then do {
       r \<leftarrow> kernel (Mount (Some source) target None (MS_BIND OR MS_REMOUNT OR flags) None);
       if failed r then do { mt_err 80; ret (-1) } else ret 0
     }
     else ret 0
   }"

text \<open>
  The third argument of \<open>mknod\<close> is the device number: the code passes 0600 (384) there and
  does not use the number it computed. S_IFCHR is 0020000 (8192).
\<close>

definition S_IFCHR :: "32 word" where "S_IFCHR = 8192"

definition nk_mount_create_device :: "string \<Rightarrow> 32 word \<Rightarrow> nat \<Rightarrow> nat \<Rightarrow> int prog" where
  "nk_mount_create_device path mode major minor = do {
     r \<leftarrow> kernel (Mknod path (S_IFCHR OR mode) 384);
     if failed r then do { mt_err 97; ret (-1) } else ret 0
   }"

definition devices :: "(string \<times> nat \<times> nat) list" where
  "devices = [(''/dev/null'', 1, 3), (''/dev/zero'', 1, 5), (''/dev/full'', 1, 7),
     (''/dev/random'', 1, 8), (''/dev/urandom'', 1, 9), (''/dev/tty'', 5, 0)]"

definition dev_links :: "(string \<times> string \<times> nat) list" where
  "dev_links = [(''/proc/self/fd'', ''/dev/fd'', 138), (''/proc/self/fd/0'', ''/dev/stdin'', 143),
     (''/proc/self/fd/1'', ''/dev/stdout'', 148), (''/proc/self/fd/2'', ''/dev/stderr'', 153)]"

text \<open>The mode 0666 is 438.\<close>

definition nk_mount_setup_dev :: "string \<Rightarrow> int prog" where
  "nk_mount_setup_dev rootfs = do {
     for_each (\<lambda>(p, major, minor).
       do { nk_mount_create_device (under rootfs p) 438 major minor; ret () }) devices;
     for_each (\<lambda>(target, p, line). do {
       r \<leftarrow> kernel (Symlink target (under rootfs p));
       if failed_but EEXIST r then mt_err line else ret ()
     }) dev_links;
     ret 0
   }"

definition nk_mount_pivot_root :: "string \<Rightarrow> int prog" where
  "nk_mount_pivot_root new_root = do {
     let put_old = under new_root ''/.pivot_old'';
     r \<leftarrow> kernel (Mkdir put_old);
     if failed_but EEXIST r then do { mt_err 168; ret (-1) }
     else do {
       r \<leftarrow> kernel (Mount (Some new_root) new_root None (MS_BIND OR MS_REC) None);
       if failed r then do { mt_err 175; ret (-1) }
       else do {
         r \<leftarrow> kernel (PivotRoot new_root put_old);
         if failed r then do { mt_err 182; ret (-1) }
         else do {
           r \<leftarrow> kernel (Chdir ''/'');
           if failed r then do { mt_err 188; ret (-1) }
           else do {
             r \<leftarrow> kernel (Umount ''/.pivot_old'');
             (if failed r then mt_err 195 else ret ());
             kernel (Rmdir ''/.pivot_old'');
             ret 0
           }
         }
       }
     }
   }"

definition mount_default :: "string \<Rightarrow> default_mount \<Rightarrow> unit prog" where
  "mount_default rootfs m = do {
     let target = under rootfs (dm_target m);
     st \<leftarrow> kernel (Stat target);
     made \<leftarrow> (if failed st then do {
                 r \<leftarrow> kernel (Mkdir target);
                 if failed r then do { mt_log NK_LOG_WARN 238; ret False } else ret True
               } else ret True);
     if \<not> made then ret ()
     else do {
       r \<leftarrow> kernel (Mount (Some (dm_source m)) target (Some (dm_type m)) (dm_flags m) (dm_options m));
       if failed r then mt_log NK_LOG_WARN 248 else mt_log NK_LOG_DEBUG 251
     }
   }"

definition nk_container_setup_rootfs :: "nk_container_ctx option \<Rightarrow> int prog" where
  "nk_container_setup_rootfs ctx = (case ctx of
     None \<Rightarrow> do { mt_log NK_LOG_ERROR 210; ret (-1) }
   | Some c \<Rightarrow> (case x_rootfs c of
       None \<Rightarrow> do { mt_log NK_LOG_ERROR 210; ret (-1) }
     | Some rootfs \<Rightarrow> do {
         mt_log NK_LOG_DEBUG 214;
         mt_log NK_LOG_INFO 215;
         explain_if_educational mounts_c 218 ''Making rootfs private mount''
           ''Prevents mount propagation from host. Container's mount changes stay isolated.'';
         r \<leftarrow> nk_mount_make_private rootfs;
         if r = -1 then ret (-1)
         else do {
           mt_log NK_LOG_DEBUG 226;
           mt_log NK_LOG_DEBUG 229;
           for_each (mount_default rootfs) default_mounts;
           mt_log NK_LOG_DEBUG 256;
           nk_mount_setup_dev rootfs;
           explain_if_educational mounts_c 261 ''Pivoting root filesystem''
             ''Atomic swap of root directory. pivot_root() is safer than chroot() for containers. Old root becomes /.pivot_old and is unmounted.'';
           r \<leftarrow> nk_mount_pivot_root rootfs;
           if r = -1 then do { mt_log NK_LOG_ERROR 267; ret (-1) }
           else do {
             mt_log NK_LOG_DEBUG 271;
             mt_log NK_LOG_INFO 272;
             ret 0
           }
         }
       }))"

section \<open>Custom mounts\<close>

fun mount_flags :: "64 word \<Rightarrow> cptr list \<Rightarrow> 64 word option" where
  "mount_flags flags [] = Some flags"
| "mount_flags flags (opt # opts) = (case opt of
     None \<Rightarrow> None
   | Some s \<Rightarrow> mount_flags
       (if s = ''ro'' then flags OR MS_RDONLY
        else if s = ''nosuid'' then flags OR MS_NOSUID
        else if s = ''noexec'' then flags OR MS_NOEXEC
        else if s = ''nodev'' then flags OR MS_NODEV
        else flags) opts)"

fun mount_custom_loop :: "nk_oci_mount list \<Rightarrow> string \<Rightarrow> int option prog" where
  "mount_custom_loop [] rootfs = ret (Some 0)"
| "mount_custom_loop (m # ms) rootfs = do {
     let target = under rootfs (printed (m_destination m));
     st \<leftarrow> kernel (Stat target);
     made \<leftarrow> (if failed st then do {
                 r \<leftarrow> kernel (Mkdir target);
                 if failed r then do { mt_err 293; ret False } else ret True
               } else ret True);
     if \<not> made then mount_custom_loop ms rootfs
     else (case (case m_options m of
             None \<Rightarrow> Some 0 | Some opts \<Rightarrow> mount_flags 0 (take (m_options_len m) opts)) of
        None \<Rightarrow> ret None
      | Some flags \<Rightarrow> do {
          r \<leftarrow> kernel (Mount (m_source m) target (m_type m) flags None);
          (if failed r then mt_err 317 else mt_log NK_LOG_INFO 320);
          mount_custom_loop ms rootfs
        })
   }"

definition nk_container_mount_custom :: "nk_oci_mount list option \<Rightarrow> nat \<Rightarrow> string \<Rightarrow> int option prog" where
  "nk_container_mount_custom mounts len rootfs = (case mounts of
     None \<Rightarrow> ret (Some 0)
   | Some ms \<Rightarrow> if len = 0 then ret (Some 0) else mount_custom_loop (take len ms) rootfs)"

section \<open>Properties\<close>

lemma mount_flags_eq:
  "None \<notin> set opts \<Longrightarrow> mount_flags flags opts = Some (flags
     OR (if Some ''ro'' \<in> set opts then MS_RDONLY else 0)
     OR (if Some ''nosuid'' \<in> set opts then MS_NOSUID else 0)
     OR (if Some ''noexec'' \<in> set opts then MS_NOEXEC else 0)
     OR (if Some ''nodev'' \<in> set opts then MS_NODEV else 0))"
proof (induction flags opts rule: mount_flags.induct)
  case (2 flags opt opts)
  then obtain s where s: "opt = Some s" by (cases opt) auto
  with 2 show ?case by (auto simp: or.assoc or.left_commute or.commute)
qed simp

lemma mount_flags_None: "None \<in> set opts \<Longrightarrow> mount_flags flags opts = None"
  by (induction flags opts rule: mount_flags.induct) (auto split: option.splits)

text \<open>C34: the flags of a custom mount are the union of the bits of the options \<open>ro\<close>,
  \<open>nosuid\<close>, \<open>noexec\<close> and \<open>nodev\<close> that occur, in any order and any number of times; every
  other option is ignored; and an option that is a NULL pointer crashes the parser.\<close>

theorem mount_flags_spec:
  "mount_flags 0 opts = (if None \<in> set opts then None else Some
     ((if Some ''ro'' \<in> set opts then MS_RDONLY else 0)
      OR (if Some ''nosuid'' \<in> set opts then MS_NOSUID else 0)
      OR (if Some ''noexec'' \<in> set opts then MS_NOEXEC else 0)
      OR (if Some ''nodev'' \<in> set opts then MS_NODEV else 0)))"
  by (simp add: mount_flags_eq mount_flags_None)

text \<open>The calls of a pivot that went through, with the results that may be refused.\<close>

definition pivoted :: "string \<Rightarrow> (call \<times> errno option) list \<Rightarrow> bool" where
  "pivoted r es \<longleftrightarrow> (\<exists>a b c. (a = None \<or> a = Some EEXIST) \<and> es =
     [(Mkdir (under r ''/.pivot_old''), a), (Mount (Some r) r None (MS_BIND OR MS_REC) None, None),
      (PivotRoot r (under r ''/.pivot_old''), None), (Chdir ''/'', None),
      (Umount ''/.pivot_old'', b), (Rmdir ''/.pivot_old'', c)])"

lemma pivot_wp:
  "wp (nk_mount_pivot_root r) (\<lambda>a w'. extends w w' \<and> (a = 0 \<or> a = -1) \<and> (a = 0 \<longleftrightarrow> pivoted r (events w w'))) w"
  unfolding nk_mount_pivot_root_def Let_def
  by (intro wp_intros) (auto simp: pivoted_def failed_def failed_but_def)

definition private_done :: "string \<Rightarrow> (call \<times> errno option) list \<Rightarrow> bool" where
  "private_done r es \<longleftrightarrow>
     es = [(Mount None r None (MS_REC OR MS_PRIVATE) None, None)]
     \<or> es = [(Mount None r None (MS_REC OR MS_PRIVATE) None, Some EINVAL),
             (Mount (Some r) r None (MS_BIND OR MS_REC) None, None),
             (Mount None r None (MS_REC OR MS_PRIVATE) None, None)]"

lemma private_wp:
  "wp (nk_mount_make_private r) (\<lambda>a w'. extends w w' \<and> (a = 0 \<or> a = -1) \<and> (a = 0 \<longleftrightarrow> private_done r (events w w'))) w"
  unfolding nk_mount_make_private_def
  by (intro wp_intros) (auto simp: private_done_def failed_def)

text \<open>The calls between: only below the root directory, and mounts only of the default table.\<close>

fun rootfs_call :: "string \<Rightarrow> call \<Rightarrow> bool" where
  "rootfs_call r (Stat p) = (\<exists>m \<in> set default_mounts. p = under r (dm_target m))"
| "rootfs_call r (Mkdir p) = (\<exists>m \<in> set default_mounts. p = under r (dm_target m))"
| "rootfs_call r (Mount s p t f os) = (\<exists>m \<in> set default_mounts. s = Some (dm_source m)
     \<and> p = under r (dm_target m) \<and> t = Some (dm_type m) \<and> f = dm_flags m \<and> os = dm_options m)"
| "rootfs_call r (Mknod p m d) = (\<exists>x \<in> set devices. p = under r (fst x))"
| "rootfs_call r (Symlink t p) = (\<exists>x \<in> set dev_links. t = fst x \<and> p = under r (fst (snd x)))"
| "rootfs_call r _ = False"

lemma calls_for_each_set:
  "(\<And>x. x \<in> set xs \<Longrightarrow> obeys (calls_rel C) (f x)) \<Longrightarrow> obeys (calls_rel C) (for_each f xs)"
  by (induction xs) (auto intro: calls.r_return calls.r_bind)

lemma calls_mount_default:
  "m \<in> set default_mounts \<Longrightarrow> obeys (calls_rel (rootfs_call r)) (mount_default r m)"
  unfolding mount_default_def Let_def by (intro calls_intros) auto

lemma calls_setup_dev: "obeys (calls_rel (rootfs_call r)) (nk_mount_setup_dev r)"
  unfolding nk_mount_setup_dev_def nk_mount_create_device_def
  by (intro calls.r_bind calls_for_each_set calls.r_return)
    (auto intro!: calls_intros simp: split_def, force+)

lemma wp_calls_rel: "obeys (calls_rel C) m \<Longrightarrow> (\<And>a w'. calls_rel C w w' \<Longrightarrow> Q a w') \<Longrightarrow> wp m Q w"
  by (auto simp: wp_def obeys_def)

definition events_in :: "(call \<Rightarrow> bool) \<Rightarrow> (call \<times> errno option) list \<Rightarrow> bool" where
  "events_in C es \<longleftrightarrow> list_all (\<lambda>(c, _). C c) es"

lemma calls_events: "calls_rel C w w' \<Longrightarrow> extends w w' \<and> events_in C (events w w')"
  by (auto simp: calls_rel_def extends_def events_def events_in_def list_all_iff)

lemma wp_events_in:
  assumes "obeys (calls_rel C) m" and "extends u w"
    and "\<And>a w' es. extends u w' \<Longrightarrow> events u w' = events u w @ es \<Longrightarrow> events_in C es \<Longrightarrow> Q a w'"
  shows "wp m Q w"
proof (rule wp_calls_rel [OF assms(1)])
  fix a w'
  assume "calls_rel C w w'"
  then have e: "extends w w'" "events_in C (events w w')" by (simp_all add: calls_events)
  show "Q a w'"
    by (rule assms(3) [OF extends_trans [OF assms(2) e(1)] events_trans [OF assms(2) e(1)] e(2)])
qed

lemma wp_private:
  assumes "extends u w"
    and "\<And>w' es. extends u w' \<Longrightarrow> events u w' = events u w @ es \<Longrightarrow> private_done r es \<Longrightarrow> Q 0 w'"
    and "\<And>w'. extends u w' \<Longrightarrow> Q (-1) w'"
  shows "wp (nk_mount_make_private r) Q w"
proof (rule wp_mono [OF private_wp], elim conjE disjE)
  fix a :: int and w'
  assume e: "extends w w'" and a: "a = 0" "a = 0 \<longleftrightarrow> private_done r (events w w')"
  have "Q 0 w'"
    using a by (intro assms(2) [OF extends_trans [OF assms(1) e] events_trans [OF assms(1) e]]) simp
  then show "Q a w'" by (simp add: a(1))
qed (simp add: assms(3) extends_trans [OF assms(1)])

lemma wp_pivot:
  assumes "extends u w"
    and "\<And>w' es. extends u w' \<Longrightarrow> events u w' = events u w @ es \<Longrightarrow> pivoted r es \<Longrightarrow> Q 0 w'"
    and "\<And>w'. extends u w' \<Longrightarrow> Q (-1) w'"
  shows "wp (nk_mount_pivot_root r) Q w"
proof (rule wp_mono [OF pivot_wp], elim conjE disjE)
  fix a :: int and w'
  assume e: "extends w w'" and a: "a = 0" "a = 0 \<longleftrightarrow> pivoted r (events w w')"
  have "Q 0 w'"
    using a by (intro assms(2) [OF extends_trans [OF assms(1) e] events_trans [OF assms(1) e]]) simp
  then show "Q a w'" by (simp add: a(1))
qed (simp add: assms(3) extends_trans [OF assms(1)])

lemma events_in_append [simp]: "events_in C (a @ b) \<longleftrightarrow> events_in C a \<and> events_in C b"
  by (simp add: events_in_def)

definition rootfs_ready :: "string \<Rightarrow> (call \<times> errno option) list \<Rightarrow> bool" where
  "rootfs_ready r es \<longleftrightarrow> (\<exists>pre mid piv. es = pre @ mid @ piv
     \<and> private_done r pre \<and> events_in (rootfs_call r) mid \<and> pivoted r piv)"

lemma rootfs_readyI:
  "private_done r a \<Longrightarrow> events_in (rootfs_call r) b \<Longrightarrow> events_in (rootfs_call r) c \<Longrightarrow> pivoted r d
    \<Longrightarrow> rootfs_ready r (a @ b @ c @ d)"
  unfolding rootfs_ready_def by (intro exI [of _ a] exI [of _ "b @ c"] exI [of _ d]) simp

lemma rootfs_wp:
  assumes "x_rootfs c = Some r"
  shows "wp (nk_container_setup_rootfs (Some c)) (\<lambda>a w'. extends w w' \<and> (a = 0 \<or> a = -1)
    \<and> (a = 0 \<longrightarrow> rootfs_ready r (events w w'))) w"
  unfolding nk_container_setup_rootfs_def option.case assms
  by (intro wp_bind wp_if wp_return wp_log_calls only_log_explain [THEN wp_only_log]
      wp_private [where u = w] wp_pivot [where u = w]
      wp_events_in [where u = w and C = "rootfs_call r"] calls_for_each_set calls_mount_default calls_setup_dev)
    (simp_all add: rootfs_readyI)

text \<open>C25: when the root file system is reported ready, the process has, in this order and
  whatever the kernel answered: made the root's mount private (bind-mounting it onto itself
  first if it was no mount point), made calls below the root only (the default mounts with
  their flags, the devices, the links), and then pivoted: bind mount, \<open>pivot_root\<close> and
  \<open>chdir("/")\<close> all succeeded, the old root was unmounted and its directory removed.\<close>

theorem rootfs_ready_order:
  assumes "x_rootfs c = Some r"
  shows "wp (nk_container_setup_rootfs (Some c)) (\<lambda>a w'. a = 0 \<longrightarrow> rootfs_ready r (events w w')) w"
  by (rule wp_mono [OF rootfs_wp [OF assms]]) simp

text \<open>If the kernel refuses nothing, the setup succeeds.\<close>

lemma wp_kernel_ok:
  "faultless w \<Longrightarrow> Q (Inr (a_val (next_answer c w))) (tick c None w) \<Longrightarrow> wp (kernel c) Q w"
  by (simp add: wp_def run_kernel)

lemma wp_faultless:
  "obeys static_rel m \<Longrightarrow> faultless w \<Longrightarrow> (\<And>a w'. faultless w' \<Longrightarrow> Q a w') \<Longrightarrow> wp m Q w"
  by (simp add: wp_def static_faultless [OF obeys_post [where R = static_rel]])

lemma faultless_log [simp]: "faultless (w\<lparr>w_log := l\<rparr>) = faultless w"
  by (simp add: faultless_def)

lemma static_mount_default: "obeys static_rel (mount_default r m)"
  unfolding mount_default_def Let_def by (intro static_intros)

lemma static_setup_dev: "obeys static_rel (nk_mount_setup_dev r)"
  unfolding nk_mount_setup_dev_def nk_mount_create_device_def by (intro static_intros)

lemma private_ok: "faultless w \<Longrightarrow> (\<And>w'. faultless w' \<Longrightarrow> Q 0 w') \<Longrightarrow> wp (nk_mount_make_private r) Q w"
  unfolding nk_mount_make_private_def by (intro wp_bind wp_kernel_ok) (simp_all add: wp_def)

lemma pivot_ok: "faultless w \<Longrightarrow> (\<And>w'. faultless w' \<Longrightarrow> Q 0 w') \<Longrightarrow> wp (nk_mount_pivot_root r) Q w"
  by (simp add: nk_mount_pivot_root_def Let_def wp_def run_kernel failed_def failed_but_def)

lemma setup_rootfs_succeeds:
  assumes "x_rootfs c = Some r" and "faultless w"
  shows "wp (nk_container_setup_rootfs (Some c)) (\<lambda>a w'. a = 0) w"
  unfolding nk_container_setup_rootfs_def option.case assms(1)
  by (intro wp_bind wp_if wp_return wp_log_calls only_log_explain [THEN wp_only_log] private_ok pivot_ok
      wp_faultless static.r_for_each static_mount_default static_setup_dev)
    (simp_all add: assms(2))

definition demo_ctx :: nk_container_ctx where
  "demo_ctx = \<lparr>x_rootfs = Some ''/b/rootfs'', x_mounts = None, x_mounts_len = 0,
     x_namespaces = Some [\<lparr>nc_type = NK_NS_PID, nc_path = None, nc_enable = True\<rparr>], x_namespaces_len = 1,
     x_cgroup = None, x_env = None, x_env_len = 0, x_cwd = Some ''/'',
     x_args = Some [Some ''/bin/sh''], x_args_len = 1, x_terminal = False\<rparr>"

lemma demo_rootfs: "x_rootfs demo_ctx = Some ''/b/rootfs''"
  by (simp add: demo_ctx_def)

lemma log_demo_faultless: "faultless log_demo_world"
  by (simp add: faultless_def log_demo_world_def)

theorem rootfs_ready_order_witness:
  "rootfs_ready ''/b/rootfs''
     (events log_demo_world (post (nk_container_setup_rootfs (Some demo_ctx)) log_demo_world))"
  using rootfs_ready_order [OF demo_rootfs, of log_demo_world]
    setup_rootfs_succeeds [OF demo_rootfs log_demo_faultless] by (simp add: wp_def)

end
