(* ===== verification/Process.thy ===== *)
theory Process
  imports Mounts
begin

text \<open>
  Creating the container's process: \<open>src/container/process.c\<close>. The parent creates a pipe,
  clones the init process and waits for one byte; the child sets up its root, drops
  privileges, writes the byte and executes the program. \<open>clone\<close> without CLONE_VM gives the
  child a copy of the parent's memory: \<open>in_child\<close> runs the child on the world and then
  restores the parent's logging configuration. The child runs to its end before the parent
  goes on; that no interleaving gives the parent another answer is the subject of
  \<open>SyncPipe\<close>. The pipe is the list of bytes the child has written. The trace tells the
  calls of the two processes apart.
\<close>

section \<open>Data\<close>

record container_exec_ctx =
  e_ctx :: nk_container_ctx
  e_container_id :: cptr
  e_hostname :: cptr
  e_env :: "cptr list"

definition CHILD_SYNC_READY :: char where "CHILD_SYNC_READY = CHR ''1''"
definition CHILD_SYNC_ERROR :: char where "CHILD_SYNC_ERROR = CHR ''0''"

definition SIGCHLD :: "32 word" where "SIGCHLD = 17"

definition process_c :: string where
  "process_c = ''src/container/process.c''"

abbreviation pr_err :: "nat \<Rightarrow> unit prog" where
  "pr_err n \<equiv> nk_log_stderr_at process_c n"

abbreviation pr_log :: "nk_log_level \<Rightarrow> nat \<Rightarrow> unit prog" where
  "pr_log l n \<equiv> nk_log_at l process_c n"

definition in_child :: "proc \<Rightarrow> 'a prog \<Rightarrow> 'a prog" where
  "in_child p m = do {
     l \<leftarrow> gets w_log;
     q \<leftarrow> gets w_proc;
     modify (\<lambda>w. w\<lparr>w_proc := p\<rparr>);
     a \<leftarrow> m;
     modify (\<lambda>w. w\<lparr>w_proc := q, w_log := l\<lparr>log_lines := log_lines (w_log w)\<rparr>\<rparr>);
     ret a
   }"

section \<open>Privileges and limits\<close>

text \<open>
  The two builds of \<open>nk_process_drop_capabilities\<close>. CAPNG_NONE, the value of
  \<open>capng_have_capabilities\<close> for an empty set, is 0.
\<close>

definition nk_process_drop_capabilities :: "int prog" where
  "nk_process_drop_capabilities = do {
     libcapng \<leftarrow> gets w_libcapng;
     if libcapng then do {
       have_caps \<leftarrow> kernel (Capng ''capng_have_capabilities'');
       if have_caps = Inr 0 then ret 0
       else do {
         r \<leftarrow> kernel (Capng ''capng_clear'');
         if failed r then do { pr_err 54; ret (-1) }
         else do {
           r \<leftarrow> kernel (Capng ''capng_apply'');
           if failed r then do { pr_err 59; ret (-1) } else ret 0
         }
       }
     }
     else do { pr_err 64; ret 0 }
   }"

definition nk_process_set_rlimits :: "int prog" where
  "nk_process_set_rlimits = do {
     r \<leftarrow> kernel (Setrlimit (8192 * 1024));
     (if failed r then pr_err 80 else ret ());
     ret 0
   }"

definition nk_process_set_uid_gid :: "32 word \<Rightarrow> 32 word \<Rightarrow> int prog" where
  "nk_process_set_uid_gid uid gid = do {
     r \<leftarrow> kernel (Setgid gid);
     if failed r then do { pr_err 93; ret (-1) }
     else do {
       r \<leftarrow> kernel (Setuid uid);
       if failed r then do { pr_err 99; ret (-1) } else ret 0
     }
   }"

section \<open>The child\<close>

definition set_child_hostname :: "container_exec_ctx \<Rightarrow> unit prog" where
  "set_child_hostname exec_ctx =
     (case (e_hostname exec_ctx, x_namespaces (e_ctx exec_ctx)) of
        (Some hostname, Some ns) \<Rightarrow>
          if list_ex (\<lambda>n. nc_type n = NK_NS_UTS) (take (x_namespaces_len (e_ctx exec_ctx)) ns)
          then do { pr_log NK_LOG_DEBUG 124; nk_namespace_set_hostname hostname; ret () }
          else ret ()
      | _ \<Rightarrow> ret ())"

definition change_dir :: "cptr \<Rightarrow> unit prog" where
  "change_dir cwd = (case cwd of
     None \<Rightarrow> ret ()
   | Some d \<Rightarrow> do {
       r \<leftarrow> kernel (Chdir d);
       if failed r then do { pr_log NK_LOG_WARN 144; kernel (Chdir ''/''); ret () } else ret ()
     })"

definition detach_session :: "bool \<Rightarrow> unit prog" where
  "detach_session terminal =
     (if terminal then ret ()
      else do {
        r \<leftarrow> kernel Setsid;
        if failed r then pr_log NK_LOG_WARN 166 else pr_log NK_LOG_DEBUG 168
      })"

text \<open>
  Executing the program. \<open>None\<close>: the process image was replaced, the function does not
  return. \<open>nk_log_error\<close> comes before the test of \<open>errno\<close>: when it prints, it calls
  \<open>isatty\<close>, which sets \<open>errno\<close> if standard error is no terminal.
\<close>

definition exec_program :: "container_exec_ctx \<Rightarrow> int option prog" where
  "exec_program exec_ctx = do {
     let args = (case x_args (e_ctx exec_ctx) of None \<Rightarrow> [] | Some as \<Rightarrow> as);
     r \<leftarrow> (if x_args (e_ctx exec_ctx) \<noteq> None \<and> 0 < x_args_len (e_ctx exec_ctx)
           then kernel (Execve args (e_env exec_ctx)) else ret (Inl (Errno 0)));
     case r of
       Inr _ \<Rightarrow> ret None
     | Inl e \<Rightarrow> do {
         pr_log NK_LOG_ERROR 185;
         l \<leftarrow> gets w_log;
         tty \<leftarrow> gets w_tty;
         let printed = (nk_log_enabled l \<and> nk_log_level l \<le> NK_LOG_ERROR);
         (if e = ENOEXEC \<and> (tty \<or> \<not> printed)
          then do { pr_err 188; pr_err 189; pr_err 190 } else ret ());
         ret (Some 1)
       }
   }"

text \<open>One byte into the pipe; nothing is in it when the write fails.\<close>

definition pipe_write :: "char \<Rightarrow> char list prog" where
  "pipe_write c = do { r \<leftarrow> kernel (PipeWrite c); ret (if failed r then [] else [c]) }"

definition container_child_fn :: "container_exec_ctx \<Rightarrow> (char list \<times> int option) prog" where
  "container_child_fn exec_ctx = do {
     nk_log_set_role NK_LOG_ROLE_CHILD;
     pr_log NK_LOG_DEBUG 115;
     set_child_hostname exec_ctx;
     pr_log NK_LOG_DEBUG 132;
     r \<leftarrow> nk_container_setup_rootfs (Some (e_ctx exec_ctx));
     if r = -1 then do {
       pipe \<leftarrow> pipe_write CHILD_SYNC_ERROR;
       ret (pipe, Some 1)
     }
     else do {
       pr_log NK_LOG_DEBUG 139;
       change_dir (x_cwd (e_ctx exec_ctx));
       pr_log NK_LOG_DEBUG 154;
       nk_process_drop_capabilities;
       nk_process_set_rlimits;
       detach_session (x_terminal (e_ctx exec_ctx));
       pr_log NK_LOG_DEBUG 173;
       pipe \<leftarrow> pipe_write CHILD_SYNC_READY;
       pr_log NK_LOG_DEBUG 179;
       status \<leftarrow> exec_program exec_ctx;
       ret (pipe, status)
     }
   }"

section \<open>The parent\<close>

definition default_env :: "cptr list" where
  "default_env = [Some ''PATH=/usr/local/sbin:/usr/local/bin:/usr/sbin:/usr/bin:/sbin:/bin'',
     Some ''TERM=xterm'', Some ''HOME=/root'']"

definition child_env :: "nk_container_ctx \<Rightarrow> cptr list" where
  "child_env ctx = (case x_env ctx of
     None \<Rightarrow> default_env | Some env \<Rightarrow> if 0 < x_env_len ctx then env else default_env)"

text \<open>
  The initialiser of \<open>exec_ctx\<close> names neither the host name nor the container's identifier,
  so both are NULL.
\<close>

definition make_exec_ctx :: "nk_container_ctx \<Rightarrow> container_exec_ctx" where
  "make_exec_ctx ctx = \<lparr>e_ctx = ctx, e_container_id = None, e_hostname = None, e_env = child_env ctx\<rparr>"

definition clone_flags_of :: "nk_container_ctx \<Rightarrow> 32 word" where
  "clone_flags_of ctx = (case x_namespaces ctx of
     None \<Rightarrow> SIGCHLD
   | Some ns \<Rightarrow> SIGCHLD OR nk_namespace_get_clone_flags ns (x_namespaces_len ctx))"

definition runnable_ctx :: "nk_container_ctx \<Rightarrow> bool" where
  "runnable_ctx ctx \<longleftrightarrow> x_rootfs ctx \<noteq> None \<and> x_args ctx \<noteq> None \<and> x_args_len ctx \<noteq> 0"

text \<open>The part from \<open>clone\<close> on.\<close>

definition clone_and_wait :: "nk_container_ctx \<Rightarrow> int prog" where
  "clone_and_wait ctx = do {
     let exec_ctx = make_exec_ctx ctx;
     nk_log_set_role NK_LOG_ROLE_PARENT;
     c \<leftarrow> kernel (Clone (clone_flags_of ctx));
     let pid = (case c of Inl _ \<Rightarrow> -1 | Inr p \<Rightarrow> p);
     if pid = -1 then do { pr_err 268; ret (-1) }
     else do {
       child \<leftarrow> in_child Init (container_child_fn exec_ctx);
       r \<leftarrow> kernel PipeRead;
       if failed r \<or> fst child \<noteq> [CHILD_SYNC_READY] then do {
         pr_err 283;
         kernel (Waitpid pid);
         ret (-1)
       }
       else do {
         (case e_container_id exec_ctx of
            None \<Rightarrow> ret ()
          | Some i \<Rightarrow> do { nk_container_add_to_cgroup (Some i) pid; ret () });
         ret pid
       }
     }
   }"

definition nk_container_exec :: "nk_container_ctx option \<Rightarrow> int prog" where
  "nk_container_exec ctx = (case ctx of
     None \<Rightarrow> do { pr_log NK_LOG_ERROR 200; ret (-1) }
   | Some c \<Rightarrow>
       if \<not> runnable_ctx c then do { pr_log NK_LOG_ERROR 200; ret (-1) }
       else do {
         pr_log NK_LOG_DEBUG 210;
         pr_log NK_LOG_INFO 211;
         explain_if_educational process_c 214 ''Allocating stack for child process''
           ''clone() requires separate stack. Unlike fork(), clone can create threads with shared memory.'';
         stack \<leftarrow> alloc;
         if \<not> stack then do { pr_log NK_LOG_ERROR 221; ret (-1) }
         else do {
           pr_log NK_LOG_DEBUG 225;
           explain_if_educational process_c 229 ''Creating sync pipe''
             ''Parent waits on pipe while child sets up namespaces, rootfs, etc. Ensures parent knows when child is ready before continuing.'';
           p \<leftarrow> kernel Pipe;
           if failed p then do { pr_log NK_LOG_ERROR 236; ret (-1) }
           else do {
             pr_log NK_LOG_DEBUG 240;
             clone_and_wait c
           }
         }
       })"

definition nk_container_wait :: "int \<Rightarrow> (int \<times> int) prog" where
  "nk_container_wait pid = do {
     r \<leftarrow> kernel (Waitpid pid);
     case r of
       Inl _ \<Rightarrow> do { pr_err 305; ret (-1, 0) }
     | Inr status \<Rightarrow> ret (0, status)
   }"

definition nk_container_signal :: "int \<Rightarrow> signal \<Rightarrow> int prog" where
  "nk_container_signal pid sig = do {
     r \<leftarrow> kernel (Kill pid sig);
     if failed r then do { pr_err 317; ret (-1) } else ret 0
   }"

end
