(* ===== verification/ProcessFacts.thy ===== *)
theory ProcessFacts
  imports Process
begin

text \<open>
  What starting a container's process guarantees, for every answer of the kernel: the order
  in which the child sets up its root, drops its privileges, reports and executes; when the
  parent takes the start as successful; and which calls are never made.
\<close>

section \<open>Frames\<close>

lemma static_in_child [static_intros]:
  assumes "obeys static_rel m"
  shows "obeys static_rel (in_child p m)"
  unfolding obeys_def
proof
  fix w
  show "static_rel w (post (in_child p m) w)"
    using obeys_post [OF assms, of "w\<lparr>w_proc := p\<rparr>"]
    by (simp add: in_child_def split_def static_rel_def)
qed

lemma grow_in_child [grow_intros]: "obeys grow_rel m \<Longrightarrow> obeys grow_rel (in_child p m)"
  unfolding in_child_def
  by (intro grow.r_bind grow.r_gets grow.r_return) (auto simp: obeys_def grow_rel_def)

lemma calls_in_child [calls_intros]: "obeys (calls_rel C) m \<Longrightarrow> obeys (calls_rel C) (in_child p m)"
  unfolding in_child_def
  by (intro calls.r_bind calls.r_gets calls.r_return) (auto simp: obeys_def calls_rel_def)

lemmas process_defs = nk_container_exec_def clone_and_wait_def container_child_fn_def exec_program_def
  pipe_write_def detach_session_def change_dir_def set_child_hostname_def nk_process_set_rlimits_def
  nk_process_drop_capabilities_def nk_container_setup_rootfs_def mount_default_def nk_mount_setup_dev_def
  nk_mount_create_device_def nk_mount_pivot_root_def nk_mount_make_private_def
  nk_container_add_to_cgroup_def nk_cgroup_add_process_def cg_err_def nk_namespace_set_hostname_def
  ns_err_def

lemma static_exec [static_intros]: "obeys static_rel (nk_container_exec c)"
  unfolding process_defs Let_def by (intro static_intros)

lemma same_in_child [same_intros]: "obeys same_fs m \<Longrightarrow> obeys same_fs (in_child p m)"
  unfolding in_child_def
  by (intro same.r_bind same.r_gets same.r_return) (auto simp: obeys_def same_fs_def)

lemma same_exec [same_intros]: "obeys same_fs (nk_container_exec c)"
  unfolding process_defs Let_def by (intro same_intros)

section \<open>The child\<close>

fun privilege_call :: "nk_container_ctx \<Rightarrow> call \<Rightarrow> bool" where
  "privilege_call c (Chdir d) = (x_cwd c = Some d \<or> d = ''/'')"
| "privilege_call c (Capng f) = True"
| "privilege_call c (Setrlimit n) = (n = 8192 * 1024)"
| "privilege_call c call = False"

definition session_events :: "nk_container_ctx \<Rightarrow> (call \<times> errno option) list \<Rightarrow> bool" where
  "session_events c es \<longleftrightarrow> (if x_terminal c then es = [] else (\<exists>e. es = [(Setsid, e)]))"

definition exec_events :: "nk_container_ctx \<Rightarrow> (call \<times> errno option) list \<Rightarrow> bool" where
  "exec_events c es \<longleftrightarrow> (\<exists>e. es = [(Execve (the (x_args c)) (child_env c), e)])"

text \<open>The events of a child that reported that it is ready.\<close>

definition child_ready :: "nk_container_ctx \<Rightarrow> (call \<times> errno option) list \<Rightarrow> bool" where
  "child_ready c es \<longleftrightarrow> (\<exists>setup priv session exec.
     es = setup @ priv @ session @ [(PipeWrite CHILD_SYNC_READY, None)] @ exec
     \<and> rootfs_ready (the (x_rootfs c)) setup \<and> events_in (privilege_call c) priv
     \<and> session_events c session \<and> exec_events c exec)"

lemma child_readyI:
  "rootfs_ready (the (x_rootfs c)) a \<Longrightarrow> events_in (privilege_call c) b1 \<Longrightarrow> events_in (privilege_call c) b2
    \<Longrightarrow> events_in (privilege_call c) b3 \<Longrightarrow> session_events c d \<Longrightarrow> exec_events c x
    \<Longrightarrow> child_ready c (a @ b1 @ b2 @ b3 @ d @ (PipeWrite (CHR ''1''), None) # x)"
  unfolding child_ready_def CHILD_SYNC_READY_def
  by (intro exI [of _ a] exI [of _ "b1 @ b2 @ b3"] exI [of _ d] exI [of _ x]) simp

lemma only_log_pr: "only_log (pr_log l n)" "only_log (pr_err n)"
  by (rule log_intros)+

lemma hostname_only_log: "e_hostname x = None \<Longrightarrow> set_child_hostname x = ret ()"
  by (simp add: set_child_hostname_def)

lemma calls_change_dir: "obeys (calls_rel (privilege_call c)) (change_dir (x_cwd c))"
  unfolding change_dir_def by (intro calls_intros) (auto split: option.splits)

lemma calls_privileges:
  "obeys (calls_rel (privilege_call c)) nk_process_drop_capabilities"
  "obeys (calls_rel (privilege_call c)) nk_process_set_rlimits"
  unfolding nk_process_drop_capabilities_def nk_process_set_rlimits_def by (intro calls_intros; simp)+

lemma wp_session:
  assumes "extends u w"
    and "\<And>a w' es. extends u w' \<Longrightarrow> events u w' = events u w @ es \<Longrightarrow> session_events c es \<Longrightarrow> Q a w'"
  shows "wp (detach_session (x_terminal c)) Q w"
proof (cases "x_terminal c")
  case True
  then show ?thesis
    using assms by (auto simp: detach_session_def session_events_def intro!: wp_return)
next
  case False
  have "Q a ((tick Setsid e w)\<lparr>w_log := l\<rparr>)" for a e l
    using assms(1) False by (intro assms(2) [of _ "[(Setsid, e)]"]) (auto simp: session_events_def)
  with False show ?thesis
    unfolding detach_session_def if_not_P [OF False] by (intro wp_intros) auto
qed

lemma wp_exec:
  assumes "extends u w" and "x_args c \<noteq> None" and "x_args_len c \<noteq> 0"
    and "\<And>a w' es. extends u w' \<Longrightarrow> events u w' = events u w @ es \<Longrightarrow> exec_events c es \<Longrightarrow> Q a w'"
  shows "wp (exec_program (make_exec_ctx c)) Q w"
proof -
  have 1: "Q a (tick (Execve (the (x_args c)) (child_env c)) e w)" for a e
    using assms(1) by (intro assms(4) [of _ "[(Execve (the (x_args c)) (child_env c), e)]"]) (auto simp: exec_events_def)
  have 2: "Q a ((tick (Execve (the (x_args c)) (child_env c)) e w)\<lparr>w_log := l\<rparr>)" for a e l
    using assms(1) by (intro assms(4) [of _ "[(Execve (the (x_args c)) (child_env c), e)]"]) (auto simp: exec_events_def)
  show ?thesis
    unfolding exec_program_def Let_def
    by (intro wp_intros) (use assms(2,3) 1 2 in \<open>auto simp: make_exec_ctx_def\<close>)
qed

lemma wp_rootfs:
  assumes "x_rootfs c = Some r" and "extends u w"
    and "\<And>w' es. extends u w' \<Longrightarrow> events u w' = events u w @ es \<Longrightarrow> rootfs_ready r es \<Longrightarrow> Q 0 w'"
    and "\<And>w'. extends u w' \<Longrightarrow> Q (-1) w'"
  shows "wp (nk_container_setup_rootfs (Some c)) Q w"
proof (rule wp_mono [OF rootfs_wp [OF assms(1)]], elim conjE disjE)
  fix a :: int and w'
  assume e: "extends w w'" and a: "a = 0" "a = 0 \<longrightarrow> rootfs_ready r (events w w')"
  have "Q 0 w'"
    using a by (intro assms(3) [OF extends_trans [OF assms(2) e] events_trans [OF assms(2) e]]) simp
  then show "Q a w'" by (simp add: a(1))
qed (simp add: assms(4) extends_trans [OF assms(2)])

lemma child_wp:
  assumes "runnable_ctx c"
  shows "wp (container_child_fn (make_exec_ctx c)) (\<lambda>(pipe, _) w'. extends w w'
    \<and> (pipe = [CHILD_SYNC_READY] \<longrightarrow> child_ready c (events w w'))) w"
proof -
  obtain r where r: "x_rootfs c = Some r" using assms by (auto simp: runnable_ctx_def)
  have args: "x_args c \<noteq> None" "x_args_len c \<noteq> 0" using assms by (auto simp: runnable_ctx_def)
  have e: "e_ctx (make_exec_ctx c) = c" "e_hostname (make_exec_ctx c) = None"
    by (simp_all add: make_exec_ctx_def)
  show ?thesis
    unfolding container_child_fn_def e hostname_only_log [OF e(2)] pipe_write_def
    by (intro wp_bind wp_if wp_return wp_log_calls wp_kernel wp_rootfs [OF r, where u = w]
        wp_events_in [OF calls_change_dir, where u = w] wp_events_in [OF calls_privileges(1) [of c], where u = w]
        wp_events_in [OF calls_privileges(2) [of c], where u = w]
        wp_session [where u = w and c = c] wp_exec [where u = w, OF _ args])
      (simp_all add: failed_def child_readyI [where c = c, unfolded r option.sel] CHILD_SYNC_READY_def CHILD_SYNC_ERROR_def)
qed

section \<open>The parent\<close>

lemma wp_in_child:
  assumes "\<And>v. wp m (\<lambda>a w'. extends v w' \<and> P a (events v w')) v" and "extends u w"
    and "\<And>a w' es. extends u w' \<Longrightarrow> events u w' = events u w @ es \<Longrightarrow> P a es \<Longrightarrow> Q a w'"
  shows "wp (in_child p m) Q w"
proof -
  let ?v = "w\<lparr>w_proc := p\<rparr>"
  have m: "extends ?v (post m ?v)" "P (res m ?v) (events ?v (post m ?v))"
    using assms(1) [of ?v] by (simp_all add: wp_def)
  then have e: "extends w (post m ?v)" by (simp add: extends_def)
  have "events w (post m ?v) = events ?v (post m ?v)" by (simp add: events_def)
  then have ev: "events u (post m ?v) = events u w @ events ?v (post m ?v)"
    using events_trans [OF assms(2) e] by simp
  have u: "extends u (post m ?v)" by (rule extends_trans [OF assms(2) e])
  have "Q (res m ?v) ((post m ?v)\<lparr>w_proc := w_proc w, w_log := l\<rparr>)" for l
    by (rule assms(3) [OF _ _ m(2)]) (use u ev in \<open>simp_all add: extends_def events_def\<close>)
  then show ?thesis by (simp add: in_child_def wp_def split_def)
qed

definition before_clone :: "call \<Rightarrow> bool" where
  "before_clone c \<longleftrightarrow> c = Malloc \<or> c = Pipe"

definition start_events :: "nk_container_ctx \<Rightarrow> (call \<times> errno option) list \<Rightarrow> bool" where
  "start_events c es \<longleftrightarrow> (\<exists>pre child. events_in before_clone pre \<and> child_ready c child
     \<and> es = pre @ [(Clone (clone_flags_of c), None)] @ child @ [(PipeRead, None)])"

text \<open>The pid the kernel gives to the clone, which is the third call of a start.\<close>

definition cloned_pid :: "nk_container_ctx \<Rightarrow> world \<Rightarrow> int" where
  "cloned_pid c w = a_val (w_oracle w (w_calls w + 2) (w_proc w) (Clone (clone_flags_of c)))"

text \<open>A failed start: no process with a pid was cloned, or the last call was to wait for it.\<close>

definition reaped :: "nk_container_ctx \<Rightarrow> int \<Rightarrow> (call \<times> errno option) list \<Rightarrow> bool" where
  "reaped c pid es \<longleftrightarrow> (Clone (clone_flags_of c), None) \<in> set es \<longrightarrow> pid \<noteq> -1 \<longrightarrow>
     (\<exists>e. last es = (Waitpid pid, e))"

lemma events_in_snoc: "events_in C (es @ [(c, e)]) \<longleftrightarrow> events_in C es \<and> C c"
  by (simp add: events_in_def)

lemma events_in_Nil [simp]: "events_in C []"
  by (simp add: events_in_def)

lemma not_before_clone: "events_in before_clone es \<Longrightarrow> (Clone f, e) \<notin> set es"
  by (auto simp: events_in_def before_clone_def list_all_iff)

lemma clone_and_wait_wp:
  assumes "runnable_ctx c"
  shows "wp (clone_and_wait c) (\<lambda>pid w'. extends w w' \<and>
    (if pid = -1 then reaped c (a_val (next_answer (Clone (clone_flags_of c)) w)) (events w w')
     else pid = a_val (next_answer (Clone (clone_flags_of c)) w) \<and> (\<exists>child. child_ready c child \<and>
       events w w' = (Clone (clone_flags_of c), None) # child @ [(PipeRead, None)]))) w"
proof -
  note child = wp_in_child [where u = w and P = "\<lambda>(pipe, _) es. pipe = [CHILD_SYNC_READY] \<longrightarrow> child_ready c es"]
  have cw: "\<And>v. wp (container_child_fn (make_exec_ctx c)) (\<lambda>a w'. extends v w'
      \<and> (case a of (pipe, _) \<Rightarrow> \<lambda>es. pipe = [CHILD_SYNC_READY] \<longrightarrow> child_ready c es) (events v w')) v"
    by (rule wp_mono [OF child_wp [OF assms]]) auto
  have e: "e_container_id (make_exec_ctx c) = None" by (simp add: make_exec_ctx_def)
  show ?thesis
    unfolding clone_and_wait_def Let_def e option.case
    by (intro wp_bind wp_if wp_return wp_log_calls wp_kernel_val [where c = "Clone f" for f] wp_kernel child [OF cw])
      (auto simp: reaped_def failed_def next_answer_def split: if_splits)
qed

lemma wp_clone:
  assumes "runnable_ctx c" and "extends u w" and pid: "a_val (next_answer (Clone (clone_flags_of c)) w) = pid"
    and "\<And>w' child. pid \<noteq> -1 \<Longrightarrow> extends u w' \<Longrightarrow> child_ready c child \<Longrightarrow>
      events u w' = events u w @ (Clone (clone_flags_of c), None) # child @ [(PipeRead, None)] \<Longrightarrow> Q pid w'"
    and "\<And>w' es. extends u w' \<Longrightarrow> reaped c pid es \<Longrightarrow> events u w' = events u w @ es \<Longrightarrow> Q (-1) w'"
  shows "wp (clone_and_wait c) Q w"
proof (rule wp_mono [OF clone_and_wait_wp [OF assms(1)]], elim conjE)
  fix r :: int and w'
  assume e: "extends w w'" and ev: "if r = -1 then reaped c (a_val (next_answer (Clone (clone_flags_of c)) w)) (events w w')
    else r = a_val (next_answer (Clone (clone_flags_of c)) w) \<and> (\<exists>child. child_ready c child \<and>
       events w w' = (Clone (clone_flags_of c), None) # child @ [(PipeRead, None)])"
  note u = extends_trans [OF assms(2) e] events_trans [OF assms(2) e]
  show "Q r w'"
  proof (cases "r = -1")
    case True
    with ev have "reaped c pid (events w w')" by (simp add: pid)
    from assms(5) [OF u(1) this u(2)] True show ?thesis by simp
  next
    case False
    with ev obtain child where ch: "r = pid" "child_ready c child"
      "events w w' = (Clone (clone_flags_of c), None) # child @ [(PipeRead, None)]" by (auto simp: pid)
    show ?thesis unfolding ch(1)
      by (rule assms(4) [OF _ u(1) ch(2)]) (use False in \<open>simp_all add: u(2) ch(1,3)\<close>)
  qed
qed

lemma start_eventsI:
  "child_ready c child \<Longrightarrow>
    start_events c ((Malloc, None) # (Pipe, None) # (Clone (clone_flags_of c), None) # child @ [(PipeRead, None)])"
  unfolding start_events_def
  by (intro exI [of _ "[(Malloc, None), (Pipe, None)]"] exI [of _ child]) (simp add: events_in_def before_clone_def)

lemma exec_wp:
  assumes "runnable_ctx c"
  shows "wp (nk_container_exec (Some c)) (\<lambda>pid w'. extends w w'
    \<and> (if pid = -1 then reaped c (cloned_pid c w) (events w w')
       else pid = cloned_pid c w \<and> start_events c (events w w'))) w"
  unfolding nk_container_exec_def option.case alloc_def
  by (intro wp_bind wp_if wp_return wp_log_calls only_log_explain [THEN wp_only_log] wp_kernel
      wp_clone [OF assms, where u = w and pid = "cloned_pid c w"])
    (use assms in \<open>auto simp: start_eventsI reaped_def failed_def cloned_pid_def next_answer_def\<close>)


fun never_made :: "call \<Rightarrow> bool" where
  "never_made (Sethostname h) = True" | "never_made (Setns t p) = True"
| "never_made (Open p) = True" | "never_made (Write p s) = True"
| "never_made (Setgid g) = True" | "never_made (Setuid u) = True"
| "never_made _ = False"

lemma calls_clone_and_wait: "obeys (calls_rel (\<lambda>c. \<not> never_made c)) (clone_and_wait x)"
proof -
  have e: "e_hostname (make_exec_ctx x) = None" "e_container_id (make_exec_ctx x) = None"
    by (simp_all add: make_exec_ctx_def)
  show ?thesis
    unfolding clone_and_wait_def container_child_fn_def hostname_only_log [OF e(1)] e(2) option.case
      exec_program_def pipe_write_def detach_session_def change_dir_def nk_process_set_rlimits_def
      nk_process_drop_capabilities_def nk_container_setup_rootfs_def mount_default_def
      nk_mount_setup_dev_def nk_mount_create_device_def nk_mount_pivot_root_def
      nk_mount_make_private_def Let_def
    by (intro calls_intros) simp_all
qed

text \<open>C30: starting a process never sets a host name, joins a namespace, adds itself to a cgroup or
  writes a cgroup file, and never changes the user, whatever the context and the kernel: the
  code that would do so is not reached, because the execution context carries neither the host
  name nor the identifier of the container.\<close>

theorem exec_never_sets_hostname:
  "obeys (calls_rel (\<lambda>c. \<not> never_made c)) (nk_container_exec ctx)"
  unfolding nk_container_exec_def by (intro calls_intros calls_clone_and_wait) simp_all

section \<open>Starting succeeds when nothing is refused\<close>

lemma rootfs_ok:
  assumes "x_rootfs c = Some r" and "faultless w" and "\<And>w'. faultless w' \<Longrightarrow> Q 0 w'"
  shows "wp (nk_container_setup_rootfs (Some c)) Q w"
proof -
  have "obeys static_rel (nk_container_setup_rootfs (Some c))"
    unfolding nk_container_setup_rootfs_def nk_mount_pivot_root_def nk_mount_make_private_def Let_def
    by (intro static_intros static_mount_default static_setup_dev)
  then have "wp (nk_container_setup_rootfs (Some c)) (\<lambda>a w'. a = 0 \<and> static_rel w w') w"
    by (intro wp_conj setup_rootfs_succeeds [OF assms(1,2)]) (simp add: wp_def obeys_def)
  then show ?thesis
    by (rule wp_mono) (use assms(3) static_faultless [of w] assms(2) in simp)
qed

lemma static_child_steps:
  "obeys static_rel (change_dir d)" "obeys static_rel nk_process_drop_capabilities"
  "obeys static_rel nk_process_set_rlimits" "obeys static_rel (detach_session t)"
  "obeys static_rel (exec_program x)" "obeys static_rel (set_child_hostname x)"
  unfolding change_dir_def nk_process_drop_capabilities_def nk_process_set_rlimits_def detach_session_def
    exec_program_def set_child_hostname_def nk_namespace_set_hostname_def ns_err_def Let_def
  by (intro static_intros)+

lemma child_ok:
  assumes "runnable_ctx c" and "faultless w"
  shows "wp (container_child_fn (make_exec_ctx c)) (\<lambda>(pipe, _) w'. pipe = [CHILD_SYNC_READY]) w"
proof -
  obtain r where r: "x_rootfs c = Some r" using assms by (auto simp: runnable_ctx_def)
  have e: "e_ctx (make_exec_ctx c) = c" by (simp add: make_exec_ctx_def)
  show ?thesis
    unfolding container_child_fn_def pipe_write_def e
    by (intro wp_bind wp_if wp_return wp_log_calls wp_kernel_ok rootfs_ok [OF r]
        wp_faultless static_child_steps)
      (simp_all add: assms(2) failed_def)
qed

lemma static_child: "obeys static_rel (container_child_fn x)"
  unfolding container_child_fn_def pipe_write_def nk_container_setup_rootfs_def
    nk_mount_pivot_root_def nk_mount_make_private_def Let_def
  by (intro static_intros static_child_steps static_mount_default static_setup_dev)

lemma in_child_ok:
  assumes "\<And>v. faultless v \<Longrightarrow> wp m (\<lambda>a _. P a) v" and "obeys static_rel m" and "faultless w"
    and "\<And>a w'. P a \<Longrightarrow> faultless w' \<Longrightarrow> Q a w'"
  shows "wp (in_child p m) Q w"
proof -
  have "wp (in_child p m) (\<lambda>a _. P a) w"
    using assms(1) [of "w\<lparr>w_proc := p\<rparr>"] assms(3)
    by (simp add: in_child_def wp_def split_def faultless_def)
  moreover have "faultless (post (in_child p m) w)"
    using static_faultless [OF obeys_post [OF static_in_child [OF assms(2)], of w]] assms(3) by simp
  ultimately show ?thesis using assms(4) by (simp add: wp_def)
qed

lemma exec_ok:
  assumes "runnable_ctx c" and "faultless w" and "\<And>n p f. a_val (w_oracle w n p (Clone f)) = v" and "v \<noteq> -1"
  shows "wp (nk_container_exec (Some c)) (\<lambda>pid w'. pid = v) w"
proof -
  note child = in_child_ok [where P = "\<lambda>(pipe, _). pipe = [CHILD_SYNC_READY]", OF _ static_child]
  have cw: "\<And>u. faultless u \<Longrightarrow> wp (container_child_fn (make_exec_ctx c))
      (\<lambda>a _. case a of (pipe, _) \<Rightarrow> pipe = [CHILD_SYNC_READY]) u"
    by (rule wp_mono [OF child_ok [OF assms(1)]]) auto
  have e: "e_container_id (make_exec_ctx c) = None" by (simp add: make_exec_ctx_def)
  show ?thesis
    unfolding nk_container_exec_def option.case alloc_def clone_and_wait_def Let_def e
    apply (intro wp_bind wp_if wp_return wp_log_calls only_log_explain [THEN wp_only_log] wp_kernel_ok
        child [OF cw])
    using assms(1,2)
    apply (simp_all add: failed_def next_answer_def assms(3))
    apply (auto split: prod.splits)
    done
qed

lemma demo_runnable: "runnable_ctx demo_ctx"
  by (simp add: runnable_ctx_def demo_ctx_def)

lemma demo_exec: "res (nk_container_exec (Some demo_ctx)) log_demo_world = 0"
  using exec_ok [OF demo_runnable log_demo_faultless, of 0]
  by (simp add: wp_def log_demo_world_def)


end
