(* ===== verification/Options.thy ===== *)
theory Options
  imports StateStore
begin

text \<open>
  The command line: \<open>nk_parse_args\<close> of \<open>src/main.c\<close> with its helpers, over a model of
  \<open>getopt_long\<close> of the C library. \<open>getopt_long\<close> is called in a loop that ends at the first
  error, so it is given by the list of options it delivers and by the arguments that are no
  options, in order: after permuting, these start at \<open>optind\<close>. The messages that
  \<open>getopt_long\<close> itself prints are not modelled.
\<close>

section \<open>The option scanner of the C library\<close>

datatype getopt_event = Opt char cptr | BadOpt

datatype has_arg = no_argument | required_argument

definition RM :: char where "RM = CHR 0x01"

definition long_options :: "(string \<times> has_arg \<times> char) list" where
  "long_options = [
     (''bundle'', required_argument, CHR ''b''),
     (''runtime'', required_argument, CHR ''r''),
     (''pid-file'', required_argument, CHR ''p''),
     (''attach'', no_argument, CHR ''a''),
     (''detach'', no_argument, CHR ''d''),
     (''exec'', required_argument, CHR ''x''),
     (''rm'', no_argument, RM),
     (''verbose'', no_argument, CHR ''V''),
     (''quiet'', no_argument, CHR ''q''),
     (''log-level'', required_argument, CHR ''L''),
     (''educational'', no_argument, CHR ''E''),
     (''help'', no_argument, CHR ''h''),
     (''version'', no_argument, CHR ''v'')]"

text \<open>The option characters of \<open>"b:r:p:adx:VEhvqL:"\<close>.\<close>

definition short_options :: "(char \<times> has_arg) list" where
  "short_options = [(CHR ''b'', required_argument), (CHR ''r'', required_argument),
     (CHR ''p'', required_argument), (CHR ''a'', no_argument), (CHR ''d'', no_argument),
     (CHR ''x'', required_argument), (CHR ''V'', no_argument), (CHR ''E'', no_argument),
     (CHR ''h'', no_argument), (CHR ''v'', no_argument), (CHR ''q'', no_argument),
     (CHR ''L'', required_argument)]"

text \<open>A long option is found by its exact name, or by an abbreviation that is unique.\<close>

definition find_long :: "string \<Rightarrow> (has_arg \<times> char) option" where
  "find_long name = (case map_of long_options name of
     Some x \<Rightarrow> Some x
   | None \<Rightarrow> (case filter (\<lambda>(n, _). is_prefix name n) long_options of
       [(_, x)] \<Rightarrow> Some x | _ \<Rightarrow> None))"

fun split_eq :: "string \<Rightarrow> string \<times> cptr" where
  "split_eq [] = ([], None)"
| "split_eq (c # cs) = (if c = CHR ''='' then ([], Some cs)
     else (let (n, v) = split_eq cs in (c # n, v)))"

text \<open>
  One element of the vector: the options it delivers, and the option that takes the next
  element as its argument, if any.
\<close>

definition long_option :: "string \<Rightarrow> getopt_event list \<times> char option" where
  "long_option body = (case split_eq body of (name, val) \<Rightarrow>
     (case find_long name of
        None \<Rightarrow> ([BadOpt], None)
      | Some (no_argument, c) \<Rightarrow> (case val of None \<Rightarrow> ([Opt c None], None) | Some _ \<Rightarrow> ([BadOpt], None))
      | Some (required_argument, c) \<Rightarrow>
          (case val of Some v \<Rightarrow> ([Opt c (Some v)], None) | None \<Rightarrow> ([], Some c))))"

fun short_cluster :: "string \<Rightarrow> getopt_event list \<times> char option" where
  "short_cluster [] = ([], None)"
| "short_cluster (c # cs) = (case map_of short_options c of
     None \<Rightarrow> ([BadOpt], None)
   | Some no_argument \<Rightarrow> (let (es, n) = short_cluster cs in (Opt c None # es, n))
   | Some required_argument \<Rightarrow> if cs = [] then ([], Some c) else ([Opt c (Some cs)], None))"

definition is_long :: "string \<Rightarrow> bool" where
  "is_long a \<longleftrightarrow> is_prefix ''--'' a \<and> 2 < length a"

definition is_option :: "string \<Rightarrow> bool" where
  "is_option a \<longleftrightarrow> is_prefix ''-'' a \<and> 1 < length a"

definition scan_option :: "string \<Rightarrow> getopt_event list \<times> char option" where
  "scan_option a = (if is_long a then long_option (drop 2 a) else short_cluster (drop 1 a))"

text \<open>With POSIXLY-CORRECT (an environment variable) the scan ends at the first argument that is no option.\<close>

fun getopt_long :: "bool \<Rightarrow> string list \<Rightarrow> getopt_event list \<times> string list" where
  "getopt_long posix [] = ([], [])"
| "getopt_long posix (a # rest) =
     (if a = ''--'' then ([], rest)
      else if \<not> is_option a then
        (if posix then ([], a # rest) else (let (es, ns) = getopt_long posix rest in (es, a # ns)))
      else (case scan_option a of
        (es, None) \<Rightarrow> (let (es', ns) = getopt_long posix rest in (es @ es', ns))
      | (es, Some c) \<Rightarrow> (case rest of
          [] \<Rightarrow> (es @ [BadOpt], [])
        | v # rest' \<Rightarrow> (let (es', ns) = getopt_long posix rest' in (es @ Opt c (Some v) # es', ns)))))"

section \<open>Data\<close>

record nk_options =
  o_command :: string
  o_container_id :: cptr
  o_bundle_path :: cptr
  o_pid_file :: cptr
  o_resume_exec :: cptr
  o_mode :: nk_execution_mode_t
  o_attach :: bool
  o_detach :: bool
  o_rm :: bool

text \<open>The options after \<open>memset\<close> and the defaults, and the local flags of the parser.\<close>

record parse_state =
  ps_opts :: nk_options
  ps_attach_set :: bool
  ps_detach_set :: bool
  ps_exec_set :: bool

definition default_options :: nk_options where
  "default_options = \<lparr>o_command = [], o_container_id = None, o_bundle_path = Some ''.'', o_pid_file = None,
     o_resume_exec = None, o_mode = NK_MODE_CONTAINER, o_attach = False, o_detach = False, o_rm = False\<rparr>"

text \<open>The parser returns 0 with the options, returns -1, or calls \<open>exit\<close>.\<close>

datatype 'a parse_result = Parsed 'a | ParseError | Exit int

section \<open>Helpers of \<open>main.c\<close>\<close>

definition main_c :: string where
  "main_c = ''src/main.c''"

abbreviation mn_err :: "nat \<Rightarrow> unit prog" where
  "mn_err n \<equiv> nk_log_stderr_at main_c n"

abbreviation mn_log :: "nk_log_level \<Rightarrow> nat \<Rightarrow> unit prog" where
  "mn_log l n \<equiv> nk_log_at l main_c n"

text \<open>Every line of the usage text is one call, on the source lines 103 to 148.\<close>

definition print_usage :: "unit prog" where
  "print_usage = for_each mn_err [103..<149]"

definition print_version :: "unit prog" where
  "print_version = do { mn_log NK_LOG_INFO 152; mn_log NK_LOG_INFO 154 }"

definition safe_str :: "cptr \<Rightarrow> string" where
  "safe_str s = (if nonempty s then the s else ''(none)'')"

definition bool_str :: "bool \<Rightarrow> string" where
  "bool_str v = (if v then ''true'' else ''false'')"

definition parse_log_level :: "cptr \<Rightarrow> nk_log_level option" where
  "parse_log_level value = (case value of
     None \<Rightarrow> None
   | Some v \<Rightarrow>
       if strcaseeq v ''debug'' \<or> v = ''0'' then Some NK_LOG_DEBUG
       else if strcaseeq v ''info'' \<or> v = ''1'' then Some NK_LOG_INFO
       else if strcaseeq v ''warn'' \<or> strcaseeq v ''warning'' \<or> v = ''2'' then Some NK_LOG_WARN
       else if strcaseeq v ''error'' \<or> v = ''3'' then Some NK_LOG_ERROR
       else None)"

section \<open>The option loop\<close>

abbreviation set_opts :: "(nk_options \<Rightarrow> nk_options) \<Rightarrow> parse_state \<Rightarrow> parse_state" where
  "set_opts f s \<equiv> s\<lparr>ps_opts := f (ps_opts s)\<rparr>"

text \<open>The body of the \<open>switch\<close>.\<close>

definition handle_option :: "char \<Rightarrow> cptr \<Rightarrow> parse_state \<Rightarrow> parse_state parse_result prog" where
  "handle_option opt optarg s =
     (if opt = CHR ''b'' then do {
        b \<leftarrow> strdup optarg;
        ret (Parsed (set_opts (o_bundle_path_update (\<lambda>_. b)) s))
      }
      else if opt = CHR ''r'' then
        (if optarg = Some ''container'' then ret (Parsed (set_opts (o_mode_update (\<lambda>_. NK_MODE_CONTAINER)) s))
         else if optarg = Some ''vm'' then ret (Parsed (set_opts (o_mode_update (\<lambda>_. NK_MODE_VM)) s))
         else do { mn_err 326; ret ParseError })
      else if opt = CHR ''p'' then do {
        p \<leftarrow> strdup optarg;
        ret (Parsed (set_opts (o_pid_file_update (\<lambda>_. p)) s))
      }
      else if opt = CHR ''a'' then
        ret (Parsed ((set_opts (o_attach_update (\<lambda>_. True)) s)\<lparr>ps_attach_set := True\<rparr>))
      else if opt = CHR ''d'' then
        ret (Parsed ((set_opts (o_detach_update (\<lambda>_. True)) s)\<lparr>ps_detach_set := True\<rparr>))
      else if opt = CHR ''x'' then do {
        x \<leftarrow> strdup optarg;
        ret (Parsed ((set_opts (o_resume_exec_update (\<lambda>_. x)) s)\<lparr>ps_exec_set := True\<rparr>))
      }
      else if opt = RM then ret (Parsed (set_opts (o_rm_update (\<lambda>_. True)) s))
      else if opt = CHR ''V'' then do { nk_log_set_level NK_LOG_DEBUG; ret (Parsed s) }
      else if opt = CHR ''q'' then do { nk_log_enable False; ret (Parsed s) }
      else if opt = CHR ''L'' then
        (case parse_log_level optarg of
           None \<Rightarrow> do { mn_err 358; ret ParseError }
         | Some level \<Rightarrow> do { nk_log_set_level level; ret (Parsed s) })
      else if opt = CHR ''E'' then
        do { nk_log_set_educational True; nk_log_set_level NK_LOG_INFO; ret (Parsed s) }
      else if opt = CHR ''h'' then do { print_usage; ret (Exit 0) }
      else if opt = CHR ''v'' then do { print_version; ret (Exit 0) }
      else ret ParseError)"

fun option_loop :: "getopt_event list \<Rightarrow> parse_state \<Rightarrow> parse_state parse_result prog" where
  "option_loop [] s = ret (Parsed s)"
| "option_loop (BadOpt # es) s = ret ParseError"
| "option_loop (Opt c v # es) s = do {
     r \<leftarrow> handle_option c v s;
     case r of Parsed s' \<Rightarrow> option_loop es s' | ParseError \<Rightarrow> ret ParseError | Exit n \<Rightarrow> ret (Exit n)
   }"

section \<open>Validation\<close>

definition id_commands :: "string list" where
  "id_commands = [''start'', ''run'', ''exec'', ''resume'', ''delete'', ''state'']"

text \<open>The part that checks the command against the options.\<close>

definition check_command :: "parse_state \<Rightarrow> bool prog" where
  "check_command s = (let opts = ps_opts s; cmd = o_command opts in
     if cmd = ''create'' then
       (if ps_attach_set s \<or> ps_detach_set s \<or> o_rm opts then do { mn_err 392; ret False }
        else if o_container_id opts = None then do { mn_err 396; ret False }
        else ret True)
     else if cmd \<in> set id_commands then
       (if o_container_id opts = None then do { mn_err 406; ret False }
        else if (cmd = ''delete'' \<or> cmd = ''state'' \<or> cmd = ''resume'')
             \<and> (ps_attach_set s \<or> ps_detach_set s \<or> o_rm opts) then do { mn_err 413; ret False }
        else if ps_exec_set s \<and> cmd \<noteq> ''exec'' \<and> cmd \<noteq> ''resume'' then do { mn_err 419; ret False }
        else ret True)
     else do { mn_err 423; ret False })"

text \<open>The part that fixes the attach mode.\<close>

definition fix_mode :: "parse_state \<Rightarrow> nk_options parse_result prog" where
  "fix_mode s = (let opts = ps_opts s; neither = (\<not> ps_attach_set s \<and> \<not> ps_detach_set s) in
     if o_command opts = ''start'' then
       (if o_rm opts then do { mn_err 429; ret ParseError }
        else ret (Parsed (if neither then opts\<lparr>o_detach := True\<rparr> else opts)))
     else if o_command opts = ''run'' then
       (let opts = (if neither then opts\<lparr>o_attach := True\<rparr> else opts) in
        if o_rm opts \<and> o_detach opts then do { mn_err 440; ret ParseError }
        else ret (Parsed opts))
     else ret (Parsed (opts\<lparr>o_attach := False, o_detach := False, o_rm := False\<rparr>)))"

definition finish_args :: "string list \<Rightarrow> parse_state \<Rightarrow> nk_options parse_result prog" where
  "finish_args nonopts s = do {
     let s = (case nonopts of [] \<Rightarrow> s | i # _ \<Rightarrow> set_opts (o_container_id_update (\<lambda>_. Some i)) s);
     if ps_attach_set s \<and> ps_detach_set s then do { mn_err 385; ret ParseError }
     else do {
       ok \<leftarrow> check_command s;
       if \<not> ok then ret ParseError else fix_mode s
     }
   }"

definition nk_parse_args :: "string list \<Rightarrow> nk_options parse_result prog" where
  "nk_parse_args argv = (case argv of
     _ # cmd # rest \<Rightarrow> do {
       dot \<leftarrow> strdup (o_bundle_path default_options);
       let opts = default_options\<lparr>o_bundle_path := dot\<rparr>;
       if cmd = ''-h'' \<or> cmd = ''--help'' then ret (Parsed (opts\<lparr>o_command := ''help''\<rparr>))
       else if cmd = ''-v'' \<or> cmd = ''--version'' then ret (Parsed (opts\<lparr>o_command := ''version''\<rparr>))
       else do {
         posix \<leftarrow> getenv ''POSIXLY_CORRECT'';
         let (events, nonopts) = getopt_long (posix \<noteq> None) rest;
         r \<leftarrow> option_loop events \<lparr>ps_opts = opts\<lparr>o_command := cmd\<rparr>,
                ps_attach_set = False, ps_detach_set = False, ps_exec_set = False\<rparr>;
         case r of
           Parsed s \<Rightarrow> finish_args nonopts s
         | ParseError \<Rightarrow> ret ParseError
         | Exit n \<Rightarrow> ret (Exit n)
       }
     }
   | _ \<Rightarrow> ret ParseError)"

section \<open>Properties\<close>

text \<open>What the rest of the program may rely on after a successful parse.\<close>

definition options_ok :: "nk_options \<Rightarrow> bool" where
  "options_ok x \<longleftrightarrow>
     o_command x \<in> set ([''help'', ''version'', ''create''] @ id_commands)
     \<and> (o_container_id x = None \<longrightarrow> o_command x = ''help'' \<or> o_command x = ''version'')
     \<and> (o_resume_exec x \<noteq> None \<longrightarrow> o_command x \<in> {''create'', ''exec'', ''resume''})
     \<and> (if o_command x \<in> {''start'', ''run''} then o_attach x \<noteq> o_detach x
        else \<not> o_attach x \<and> \<not> o_detach x)
     \<and> (o_rm x \<longrightarrow> o_command x = ''run'' \<and> o_attach x)"

lemma only_log_usage [log_intros]: "only_log print_usage" "only_log print_version"
  unfolding print_usage_def print_version_def by (intro log_intros)+

lemmas usage_rels =
  only_log_usage [THEN only_log_rels(1)] only_log_usage [THEN only_log_rels(4)] only_log_usage [THEN only_log_rels(5)]

lemma obeys_parse_result:
  "(\<And>y. obeys R (f y)) \<Longrightarrow> obeys R m \<Longrightarrow> (\<And>n. obeys R (g n))
    \<Longrightarrow> obeys R (case x of Parsed y \<Rightarrow> f y | ParseError \<Rightarrow> m | Exit n \<Rightarrow> g n)"
  by (cases x) simp_all

text \<open>The parser logs and copies strings: it leaves the surroundings and the file system alone.\<close>

lemma handle_obeys:
  "obeys static_rel (handle_option c v s)" "obeys same_fs (handle_option c v s)"
  "obeys (calls_rel store_call) (handle_option c v s)"
  unfolding handle_option_def
  by (intro static_intros usage_rels, intro same_intros usage_rels, intro calls_intros usage_rels) simp_all

lemma loop_obeys:
  "obeys static_rel (option_loop es s)" "obeys same_fs (option_loop es s)"
  "obeys (calls_rel store_call) (option_loop es s)"
  by (induction es s rule: option_loop.induct)
    (simp_all add: static_intros same_intros calls_intros obeys_parse_result handle_obeys)

lemma only_log_finish: "only_log (finish_args ns s)"
  unfolding finish_args_def check_command_def fix_mode_def Let_def by (intro log_intros)

lemma parse_args_obeys:
  "obeys static_rel (nk_parse_args argv)" "obeys same_fs (nk_parse_args argv)"
  "obeys (calls_rel store_call) (nk_parse_args argv)"
proof -
  note rels = only_log_rels [OF only_log_finish]
  show "obeys static_rel (nk_parse_args argv)"
    unfolding nk_parse_args_def Let_def
    by (auto intro!: static_intros obeys_parse_result rels(1) loop_obeys(1) split: list.split prod.split)
  show "obeys same_fs (nk_parse_args argv)"
    unfolding nk_parse_args_def Let_def
    by (auto intro!: same_intros obeys_parse_result rels(5) loop_obeys(2) split: list.split prod.split)
  show "obeys (calls_rel store_call) (nk_parse_args argv)"
    unfolding nk_parse_args_def Let_def
    by (auto intro!: calls_intros obeys_parse_result rels(4) loop_obeys(3) split: list.split prod.split)
qed

text \<open>The scanner gives every option that needs an argument one.\<close>

fun event_ok :: "getopt_event \<Rightarrow> bool" where
  "event_ok BadOpt = True"
| "event_ok (Opt c v) = (c \<in> set (map fst (filter (\<lambda>(_, h). h = required_argument) short_options)) \<longrightarrow> v \<noteq> None)"

lemma event_ok_Some [simp]: "event_ok (Opt c (Some v))"
  by simp

lemma find_long_no_arg:
  assumes "find_long name = Some (no_argument, c)"
  shows "event_ok (Opt c None)"
proof -
  have "(n, no_argument, c) \<in> set long_options \<Longrightarrow> event_ok (Opt c None)" for n
    by (auto simp: long_options_def short_options_def RM_def)
  moreover have "\<exists>n. (n, no_argument, c) \<in> set long_options"
  proof (cases "map_of long_options name")
    case None
    with assms obtain n where "filter (\<lambda>(n, _). is_prefix name n) long_options = [(n, no_argument, c)]"
      by (auto simp: find_long_def split: list.splits prod.splits)
    then have "(n, no_argument, c) \<in> set (filter (\<lambda>(n, _). is_prefix name n) long_options)" by simp
    then show ?thesis by auto
  next
    case (Some x)
    with assms show ?thesis by (auto simp: find_long_def dest: map_of_SomeD)
  qed
  ultimately show ?thesis by blast
qed

lemma long_option_ok: "list_all event_ok (fst (long_option body))"
  using find_long_no_arg
  by (auto simp: long_option_def split: prod.splits option.splits has_arg.splits)

lemma short_no_arg: "map_of short_options c = Some no_argument \<Longrightarrow> event_ok (Opt c None)"
  by (auto simp: short_options_def split: if_splits)

lemma short_cluster_ok: "list_all event_ok (fst (short_cluster cs))"
proof (induction cs)
  case (Cons c cs)
  then show ?case
    using short_no_arg [of c]
    by (auto simp del: event_ok.simps(2) split: option.splits has_arg.splits prod.splits)
qed simp

lemma scan_option_ok: "list_all event_ok (fst (scan_option a))"
  by (simp add: scan_option_def long_option_ok short_cluster_ok)

lemma getopt_long_ok: "list_all event_ok (fst (getopt_long posix as))"
proof (induction posix as rule: getopt_long.induct)
  case (2 posix a rest)
  obtain es n where sc: "scan_option a = (es, n)" by (cases "scan_option a")
  have es: "list_all event_ok es" using scan_option_ok [of a] by (simp add: sc)
  show ?case
  proof (cases "a = ''--'' \<or> \<not> is_option a")
    case True
    then show ?thesis using 2(1) by (auto split: prod.split)
  next
    case False
    then have "a \<noteq> ''--''" "is_option a" by simp_all
    show ?thesis
    proof (cases n)
      case None
      then show ?thesis using 2(2) \<open>a \<noteq> ''--''\<close> \<open>is_option a\<close> es
        by (cases "getopt_long posix rest") (simp add: sc)
    next
      case (Some c)
      then show ?thesis
        using 2(3) \<open>a \<noteq> ''--''\<close> \<open>is_option a\<close> es
        by (cases rest; cases "getopt_long posix (tl rest)") (simp_all add: sc)
    qed
  qed
qed simp

text \<open>The invariant of the option loop.\<close>

definition loop_ok :: "string \<Rightarrow> parse_state \<Rightarrow> bool" where
  "loop_ok cmd s \<longleftrightarrow> o_command (ps_opts s) = cmd \<and> o_container_id (ps_opts s) = None
     \<and> o_attach (ps_opts s) = ps_attach_set s \<and> o_detach (ps_opts s) = ps_detach_set s
     \<and> (o_resume_exec (ps_opts s) \<noteq> None \<longrightarrow> ps_exec_set s)"

fun parsed :: "('a \<Rightarrow> bool) \<Rightarrow> 'a parse_result \<Rightarrow> bool" where
  "parsed P (Parsed x) = P x"
| "parsed P ParseError = True"
| "parsed P (Exit n) = (n = 0)"

text \<open>A bundle path that is NULL has an excuse: since \<open>u\<close>, a copy of a string was refused.\<close>

definition excused :: "world \<Rightarrow> world \<Rightarrow> nk_options \<Rightarrow> bool" where
  "excused u w x \<longleftrightarrow> extends u w
     \<and> (o_bundle_path x = None \<longrightarrow> (\<exists>e. (Malloc, Some e) \<in> set (events u w)))"

lemma excused_log [simp]: "excused u (w\<lparr>w_log := l\<rparr>) x = excused u w x"
  by (simp add: excused_def)

lemma excused_tick: "excused u w x \<Longrightarrow> excused u (tick c e w) x"
  by (auto simp: excused_def)

lemma excused_bundle: "excused u w x \<Longrightarrow> o_bundle_path y = o_bundle_path x \<Longrightarrow> excused u w y"
  by (simp add: excused_def)

lemma excused_set:
  "excused u w x \<Longrightarrow> o_bundle_path y = Some p \<Longrightarrow> excused u w y"
  "excused u w x \<Longrightarrow> excused u (tick Malloc (Some e) w) y"
  by (auto simp: excused_def)

lemma handle_option_ok:
  assumes "loop_ok cmd s" and "event_ok (Opt c v)" and "excused u w (ps_opts s)"
  shows "wp (handle_option c v s) (\<lambda>r w'. parsed (\<lambda>s. loop_ok cmd s \<and> excused u w' (ps_opts s)) r) w"
proof -
  have 1: "c = CHR ''b'' \<Longrightarrow> \<exists>p. v = Some p" using assms(2) by (auto simp: short_options_def)
  note ex = assms(3) excused_tick [OF assms(3)]
  note set = excused_set(1) [OF ex(2)] excused_set(2) [OF assms(3)]
  show ?thesis
    unfolding handle_option_def
    by (intro wp_if wp_return wp_bind wp_log_calls wp_option wp_strdup_any only_log_usage [THEN wp_only_log])
      (use assms(1) 1 ex in \<open>auto simp: loop_ok_def intro: set excused_bundle [OF ex(1)] excused_bundle [OF ex(2)]\<close>)
qed

lemma option_loop_ok:
  "loop_ok cmd s \<Longrightarrow> list_all event_ok es \<Longrightarrow> excused u w (ps_opts s) \<Longrightarrow>
    wp (option_loop es s) (\<lambda>r w'. parsed (\<lambda>s. loop_ok cmd s \<and> excused u w' (ps_opts s)) r) w"
proof (induction es s arbitrary: w rule: option_loop.induct)
  case (3 c v es s w)
  have step: "wp (handle_option c v s) (\<lambda>r w'. parsed (\<lambda>s. loop_ok cmd s \<and> excused u w' (ps_opts s)) r) w"
    using 3(2-4) by (intro handle_option_ok) (simp_all del: event_ok.simps)
  show ?case
    unfolding option_loop.simps
  proof (rule wp_bind, rule wp_mono [OF step])
    fix r and w' :: world
    assume "parsed (\<lambda>s. loop_ok cmd s \<and> excused u w' (ps_opts s)) r"
    then show "wp (case r of Parsed s' \<Rightarrow> option_loop es s' | ParseError \<Rightarrow> ret ParseError | Exit n \<Rightarrow> ret (Exit n))
        (\<lambda>r w'. parsed (\<lambda>s. loop_ok cmd s \<and> excused u w' (ps_opts s)) r) w'"
      using 3(1,3) by (cases r) (auto intro: wp_return)
  qed
qed (auto intro: wp_return)

lemma finish_args_ok:
  assumes "loop_ok cmd s" and "excused u w (ps_opts s)"
  shows "wp (finish_args ns s) (\<lambda>r w'. parsed (\<lambda>x. options_ok x
    \<and> o_container_id x = (case ns of [] \<Rightarrow> None | i # _ \<Rightarrow> Some i) \<and> excused u w' x) r) w"
  unfolding finish_args_def check_command_def fix_mode_def Let_def
  by (intro wp_if wp_return wp_bind wp_log_calls)
    (use assms in \<open>auto simp: loop_ok_def options_ok_def id_commands_def
      intro: excused_bundle [OF assms(2)] split: list.splits\<close>)

lemma run_args_wp:
  assumes "cmd \<notin> {''-h'', ''--help'', ''-v'', ''--version''}"
  shows "wp (nk_parse_args (prog # cmd # rest)) (\<lambda>r w'. parsed (\<lambda>x. options_ok x
    \<and> o_container_id x = (case snd (getopt_long (w_env w ''POSIXLY_CORRECT'' \<noteq> None) rest) of
        [] \<Rightarrow> None | i # _ \<Rightarrow> Some i) \<and> excused w w' x) r) w"
proof -
  let ?s = "\<lambda>dot. \<lparr>ps_opts = default_options\<lparr>o_bundle_path := dot, o_command := cmd\<rparr>, ps_attach_set = False,
    ps_detach_set = False, ps_exec_set = False\<rparr>"
  define posix where "posix \<longleftrightarrow> w_env w ''POSIXLY_CORRECT'' \<noteq> None"
  obtain es ns where g: "getopt_long posix rest = (es, ns)" by (cases "getopt_long posix rest")
  have es: "list_all event_ok es" using getopt_long_ok [of posix rest] by (simp add: g)
  have s: "loop_ok cmd (?s dot)" for dot by (simp add: loop_ok_def default_options_def)
  have rest: "wp (case r of Parsed s \<Rightarrow> finish_args ns s | ParseError \<Rightarrow> ret ParseError | Exit n \<Rightarrow> ret (Exit n))
     (\<lambda>r w'. parsed (\<lambda>x. options_ok x \<and> o_container_id x = (case ns of [] \<Rightarrow> None | i # _ \<Rightarrow> Some i)
       \<and> excused w w' x) r) w1"
    if "parsed (\<lambda>s. loop_ok cmd s \<and> excused w w1 (ps_opts s)) r" for r w1
    using that finish_args_ok [of cmd _ w w1 ns] by (cases r) (auto intro: wp_return)
  have body: "wp (do { r \<leftarrow> option_loop es (?s dot); case r of Parsed s \<Rightarrow> finish_args ns s
       | ParseError \<Rightarrow> ret ParseError | Exit n \<Rightarrow> ret (Exit n) })
     (\<lambda>r w'. parsed (\<lambda>x. options_ok x \<and> o_container_id x = (case ns of [] \<Rightarrow> None | i # _ \<Rightarrow> Some i)
       \<and> excused w w' x) r) w1" if "excused w w1 (ps_opts (?s dot))" for dot w1
    by (rule wp_bind, rule wp_mono [OF option_loop_ok [OF s es that]]) (rule rest)
  have front: "wp (nk_parse_args (prog # cmd # rest)) Q w"
    if "\<And>e. wp (do { r \<leftarrow> option_loop es (?s None); case r of Parsed s \<Rightarrow> finish_args ns s
       | ParseError \<Rightarrow> ret ParseError | Exit n \<Rightarrow> ret (Exit n) }) Q (tick Malloc (Some e) w)"
      "wp (do { r \<leftarrow> option_loop es (?s (Some ''.'')); case r of Parsed s \<Rightarrow> finish_args ns s
       | ParseError \<Rightarrow> ret ParseError | Exit n \<Rightarrow> ret (Exit n) }) Q (tick Malloc None w)" for Q
    unfolding nk_parse_args_def list.case Let_def getenv_def
    by (intro wp_bind wp_strdup_any wp_if wp_gets)
      (use assms that in \<open>simp_all add: g [unfolded posix_def] default_options_def del: not_None_eq\<close>)
  show ?thesis
    unfolding posix_def [symmetric] g snd_conv
    by (rule front; rule body) (auto simp: excused_def)
qed

lemma parse_args_wp: "wp (nk_parse_args argv) (\<lambda>r w'. parsed (\<lambda>x. options_ok x \<and> excused w w' x) r) w"
proof -
  consider "length argv < 2" | p cmd rest where "argv = p # cmd # rest"
    by (cases argv; cases "tl argv") auto
  then show ?thesis
  proof cases
    case 1
    then show ?thesis by (auto simp: nk_parse_args_def intro: wp_return split: list.splits)
  next
    case 2
    show ?thesis
    proof (cases "cmd \<in> {''-h'', ''--help'', ''-v'', ''--version''}")
      case True
      show ?thesis
        unfolding 2 nk_parse_args_def list.case Let_def
        by (intro wp_bind wp_strdup_any wp_if wp_return wp_any)
          (use True in \<open>auto simp: options_ok_def excused_def default_options_def id_commands_def\<close>)
    next
      case False
      have imp: "parsed (\<lambda>x. P x \<and> Q x \<and> R x) r \<Longrightarrow> parsed (\<lambda>x. P x \<and> R x) r" for P Q R :: "nk_options \<Rightarrow> bool" and r
        by (cases r) auto
      show ?thesis
        unfolding 2 by (rule wp_mono [OF run_args_wp [OF False]]) (rule imp)
    qed
  qed
qed

lemma parsed_mono: "parsed P r \<Longrightarrow> (\<And>x. P x \<Longrightarrow> Q x) \<Longrightarrow> parsed Q r"
  by (cases r) simp_all

text \<open>C26: whatever the command line and the kernel's answers, the parser either fails, or exits with
  0, or delivers options the rest of the program can rely on: a known command; a container
  identifier unless the command is help or version; an exec command only for create, exec and
  resume; exactly one of attach and detach for start and run and none for the others;
  \<open>--rm\<close> only for an attached run; and a bundle path, unless a copy of a string was refused while
  parsing, whose NULL the parser does not check.\<close>

theorem parse_args_valid:
  "wp (nk_parse_args argv) (\<lambda>r w'. case r of
     Parsed x \<Rightarrow> options_ok x \<and> ((\<exists>b. o_bundle_path x = Some b) \<or> (\<exists>e. (Malloc, Some e) \<in> set (events w w')))
   | ParseError \<Rightarrow> True | Exit n \<Rightarrow> n = 0) w"
proof (rule wp_mono [OF parse_args_wp])
  fix r and w' :: world
  assume "parsed (\<lambda>x. options_ok x \<and> excused w w' x) r"
  then show "case r of
     Parsed x \<Rightarrow> options_ok x \<and> ((\<exists>b. o_bundle_path x = Some b) \<or> (\<exists>e. (Malloc, Some e) \<in> set (events w w')))
   | ParseError \<Rightarrow> True | Exit n \<Rightarrow> n = 0"
    by (cases r) (auto simp: excused_def)
qed

text \<open>C27: the container identifier of a successful parse is the first argument after the
  command that is neither an option nor the argument of one, wherever the options stand
  (the comment in the code says the last one); further such arguments are ignored.\<close>

theorem container_id_is_first:
  assumes "cmd \<notin> {''-h'', ''--help'', ''-v'', ''--version''}"
  shows "wp (nk_parse_args (prog # cmd # rest)) (\<lambda>r _. parsed (\<lambda>x.
    o_container_id x = (case snd (getopt_long (w_env w ''POSIXLY_CORRECT'' \<noteq> None) rest) of
      [] \<Rightarrow> None | i # _ \<Rightarrow> Some i)) r) w"
  by (rule wp_mono [OF run_args_wp [OF assms]]) (erule parsed_mono, simp)

lemma demo_scan: "getopt_long False [''first'', ''--pid'', ''f'', ''-db/b'', ''second''] =
  ([Opt (CHR ''p'') (Some ''f''), Opt (CHR ''d'') None, Opt (CHR ''b'') (Some ''/b'')], [''first'', ''second''])"
  by code_simp

lemma demo_env: "w_env log_demo_world ''POSIXLY_CORRECT'' = None"
  by (simp add: log_demo_world_def)

theorem container_id_is_first_witness:
  "wp (nk_parse_args [''ns-runtime'', ''run'', ''first'', ''--pid'', ''f'', ''-db/b'', ''second''])
    (\<lambda>r _. parsed (\<lambda>x. o_container_id x = Some ''first'') r) log_demo_world"
  using container_id_is_first [of "''run''" "''ns-runtime''" "[''first'', ''--pid'', ''f'', ''-db/b'', ''second'']" log_demo_world]
  by (simp add: demo_scan demo_env del: getopt_long.simps)

end
