(* ===== verification/Lifecycle.thy ===== *)
theory Lifecycle
  imports ProcessFacts Options
begin

text \<open>
  The lifecycle commands of \<open>src/main.c\<close>: create, start, run, resume (exec), delete and
  state, with their helpers. Each logs, loads and saves the container through the state
  store, and starts or signals processes through the container components. A NULL pointer
  handed to \<open>strcmp\<close> is a crash: \<open>nk_container_start\<close> and what calls it return \<open>None\<close>
  then. \<open>main.c\<close> has its own copies of \<open>mkdir_p\<close> and \<open>get_state_dir\<close>, which are modelled
  as written.
\<close>

section \<open>State directory and pid file\<close>

definition main_mkdir_p :: "cptr \<Rightarrow> int prog" where
  "main_mkdir_p path = (case path of
     None \<Rightarrow> ret (-1)
   | Some p \<Rightarrow>
       if p = [] then ret (-1)
       else if PATH_MAX \<le> length p then ret (-1)
       else do {
         let tmp = (if last p = CHR ''/'' then butlast p else p);
         r \<leftarrow> mkdir_p_loop (take 1 tmp) (drop 1 tmp);
         if r = -1 then ret (-1)
         else do {
           r \<leftarrow> sys_mkdir tmp;
           if mkdir_failed r then ret (-1) else ret 0
         }
       })"

definition main_get_state_dir :: "string prog" where
  "main_get_state_dir = do {
     dir \<leftarrow> getenv ''NS_RUN_DIR'';
     if nonempty dir then do { mn_err 68; ret (the dir) }
     else do {
       dir \<leftarrow> getenv ''NK_RUN_DIR'';
       if nonempty dir then do { mn_err 76; ret (the dir) }
       else do {
         euid \<leftarrow> geteuid;
         if euid = 0 then do { mn_err 82; ret NS_STATE_DIR_ROOT }
         else do {
           home \<leftarrow> getenv ''HOME'';
           let user_dir = the home @ NS_STATE_DIR_USER_SUFFIX;
           if nonempty home \<and> length user_dir < PATH_MAX then do { mn_err 91; ret user_dir }
           else do { mn_err 97; ret ''run'' }
         }
       }
     }
   }"

definition ensure_state_dir :: "int prog" where
  "ensure_state_dir = do {
     state_dir \<leftarrow> main_get_state_dir;
     st \<leftarrow> sys_stat state_dir;
     case st of
       Inr nd \<Rightarrow> if nd = Dir then ret 0 else do { mn_err 460; ret (-1) }
     | Inl _ \<Rightarrow> do {
         r \<leftarrow> main_mkdir_p (Some state_dir);
         if r = -1 then do { mn_err 465; ret (-1) } else ret 0
       }
   }"

text \<open>The results of \<open>fprintf\<close> and \<open>fclose\<close> are not looked at.\<close>

definition write_pid_file :: "cptr \<Rightarrow> int \<Rightarrow> int prog" where
  "write_pid_file pid_file pid =
     (if \<not> nonempty pid_file then ret 0
      else do {
        f \<leftarrow> sys_fopen_w (the pid_file);
        case f of
          Inl _ \<Rightarrow> do { mn_log NK_LOG_ERROR 480; ret (-1) }
        | Inr k \<Rightarrow> do {
            sys_fwrite (the pid_file) k (dec_int pid @ [CHR 10]);
            sys_fclose_w (the pid_file) k;
            mn_log NK_LOG_INFO 486;
            ret 0
          }
      })"

definition write_container_pid_file :: "'j jansson \<Rightarrow> cptr \<Rightarrow> cptr \<Rightarrow> int prog" where
  "write_container_pid_file J pid_file container_id = (case pid_file of
     None \<Rightarrow> ret 0
   | Some _ \<Rightarrow> do {
       c \<leftarrow> nk_state_load J container_id;
       case c of
         None \<Rightarrow> do { mn_log NK_LOG_ERROR 500; ret (-1) }
       | Some container \<Rightarrow>
           if c_init_pid container \<le> 0 then do { mn_log NK_LOG_ERROR 504; ret (-1) }
           else write_pid_file pid_file (c_init_pid container)
     })"

section \<open>Create\<close>

text \<open>\<open>if (nk_log_educational) nk_log_explain(...)\<close>.\<close>

definition explain :: "nat \<Rightarrow> string \<Rightarrow> string \<Rightarrow> unit prog" where
  "explain line what why = do {
     edu \<leftarrow> gets (\<lambda>w. nk_log_educational (w_log w));
     if edu then nk_log_explain_at main_c line what (Some why) else ret ()
   }"

text \<open>The container that \<open>calloc\<close> returned, filled in; either copy of a string may be NULL.\<close>

definition new_container :: "nk_options \<Rightarrow> nk_container prog" where
  "new_container opts = do {
     id \<leftarrow> strdup (o_container_id opts);
     bundle_path \<leftarrow> strdup (o_bundle_path opts);
     ret (zero_container\<lparr>c_id := id, c_bundle_path := bundle_path,
       c_state := NK_STATE_CREATED, c_mode := o_mode opts, c_init_pid := 0, c_control_fd := -1\<rparr>)
   }"

text \<open>Steps 4 to 6 of \<open>nk_container_create\<close>: make the container and save it.\<close>

definition create_container :: "'j jansson \<Rightarrow> nk_options \<Rightarrow> int prog" where
  "create_container J opts = do {
     mn_log NK_LOG_INFO 562;
     mn_log NK_LOG_INFO 563;
     mn_log NK_LOG_DEBUG 566;
     nk_log_step main_c 567 ''Creating container metadata'';
     ok \<leftarrow> alloc;
     if \<not> ok then do { mn_log NK_LOG_ERROR 570; ret (-1) }
     else do {
       mn_log NK_LOG_DEBUG 574;
       container \<leftarrow> new_container opts;
       mn_log NK_LOG_DEBUG 582;
       mn_log NK_LOG_DEBUG 583;
       mn_log NK_LOG_DEBUG 586;
       nk_log_step main_c 587 ''Saving container state to disk'';
       r \<leftarrow> nk_state_save J (Some container);
       if r = -1 then do { mn_log NK_LOG_ERROR 589; mn_log NK_LOG_ERROR 590; ret (-1) }
       else do {
         mn_log NK_LOG_DEBUG 595;
         mn_log NK_LOG_DEBUG 597;
         mn_log NK_LOG_INFO 601;
         mn_log NK_LOG_DEBUG 602;
         ret 0
       }
     }
   }"

definition nk_container_create :: "'j jansson \<Rightarrow> nk_options \<Rightarrow> int prog" where
  "nk_container_create J opts = do {
     mn_log NK_LOG_INFO 515;
     explain 520 ''Creating container'' ''Container creation validates the OCI spec and prepares metadata. The actual isolation happens during 'start' with clone() and namespaces.'';
     mn_log NK_LOG_DEBUG 526;
     r \<leftarrow> ensure_state_dir;
     if r = -1 then ret (-1)
     else do {
       mn_log NK_LOG_DEBUG 530;
       mn_log NK_LOG_DEBUG 533;
       exists \<leftarrow> nk_state_exists (o_container_id opts);
       if exists then do { mn_log NK_LOG_ERROR 535; ret (-1) }
       else do {
         mn_log NK_LOG_DEBUG 538;
         mn_log NK_LOG_DEBUG 541;
         nk_log_step main_c 542 ''Loading OCI spec from bundle'';
         spec \<leftarrow> nk_oci_spec_load J (o_bundle_path opts);
         case spec of
           None \<Rightarrow> do { mn_log NK_LOG_ERROR 545; ret (-1) }
         | Some _ \<Rightarrow> do {
             mn_log NK_LOG_DEBUG 548;
             mn_log NK_LOG_DEBUG 549;
             mn_log NK_LOG_DEBUG 552;
             nk_log_step main_c 553 ''Validating OCI spec'';
             valid \<leftarrow> nk_oci_spec_validate spec;
             if \<not> valid then do { mn_log NK_LOG_ERROR 555; ret (-1) }
             else do {
               mn_log NK_LOG_DEBUG 559;
               mn_log NK_LOG_DEBUG 560;
               create_container J opts
             }
           }
       }
     }
   }"

section \<open>Start\<close>

text \<open>
  The command text of the summary: the arguments, separated by blanks, in a buffer of 512
  bytes; the loop stops at an argument that adds nothing.
\<close>

fun summary_loop :: "bool \<Rightarrow> string \<Rightarrow> cptr list \<Rightarrow> string" where
  "summary_loop first cmd [] = cmd"
| "summary_loop first cmd (a # as) =
     (if 511 \<le> length cmd then cmd
      else (let text = (if first then [] else '' '') @ (case a of None \<Rightarrow> [] | Some s \<Rightarrow> s) in
        if text = [] then cmd
        else if 512 - length cmd \<le> length text then cmd @ take (511 - length cmd) text
        else summary_loop False (cmd @ text) as))"

definition summary_command :: "nk_oci_process \<Rightarrow> string" where
  "summary_command p = summary_loop True []
     (case p_args p of None \<Rightarrow> replicate (p_args_len p) None | Some as \<Rightarrow> take (p_args_len p) as)"

definition log_oci_start_summary :: "nk_container option \<Rightarrow> nk_oci_spec option \<Rightarrow> unit prog" where
  "log_oci_start_summary container spec = (case (container, spec) of
     (Some _, Some s) \<Rightarrow> do {
       nk_log_step main_c 193 ''Parsed OCI spec for startup'';
       mn_log NK_LOG_INFO 194;
       mn_log NK_LOG_INFO 200;
       (case s_process s of
          Some p \<Rightarrow> do {
            mn_log NK_LOG_INFO 223;
            mn_log NK_LOG_INFO 224;
            for_each (\<lambda>_. mn_log NK_LOG_DEBUG 230) [0..<(if p_env_len p < 3 then p_env_len p else 3)]
          }
        | None \<Rightarrow> mn_log NK_LOG_WARN 233);
       mn_log NK_LOG_INFO 236;
       (case s_linux_config s of
          Some l \<Rightarrow> do {
            mn_log NK_LOG_INFO 239;
            for_each (\<lambda>_. mn_log NK_LOG_INFO 245) [0..<lx_namespaces_len l]
          }
        | None \<Rightarrow> mn_log NK_LOG_WARN 251);
       for_each (\<lambda>_. mn_log NK_LOG_DEBUG 255) [0..<s_mounts_len s]
     }
   | _ \<Rightarrow> ret ())"

text \<open>
  The type of a namespace: a name that is not known leaves the zero of \<open>calloc\<close>, which is
  \<open>NK_NS_PID\<close>.
\<close>

definition ns_type_of :: "string \<Rightarrow> nk_namespace_type_t" where
  "ns_type_of type =
     (if type = ''pid'' then NK_NS_PID
      else if type = ''network'' then NK_NS_NETWORK
      else if type = ''ipc'' then NK_NS_IPC
      else if type = ''uts'' then NK_NS_UTS
      else if type = ''mount'' then NK_NS_MOUNT
      else if type = ''user'' then NK_NS_USER
      else if type = ''cgroup'' then NK_NS_CGROUP
      else NK_NS_PID)"

fun build_namespaces :: "nk_oci_namespace list \<Rightarrow> nk_namespace_config list option prog" where
  "build_namespaces [] = ret (Some [])"
| "build_namespaces (n # ns) = (case n_type n of
     None \<Rightarrow> ret None
   | Some type \<Rightarrow> do {
       mn_log NK_LOG_DEBUG 686;
       r \<leftarrow> build_namespaces ns;
       ret (map_option (\<lambda>cs. \<lparr>nc_type = ns_type_of type, nc_path = n_path n, nc_enable = True\<rparr> # cs) r)
     })"

text \<open>The namespaces of the context: the outer \<open>None\<close> is the crash.\<close>

definition ctx_namespaces :: "nk_oci_spec \<Rightarrow> nk_namespace_config list option option prog" where
  "ctx_namespaces spec = (case s_linux_config spec of
     None \<Rightarrow> ret (Some None)
   | Some l \<Rightarrow> (case lx_namespaces l of
       None \<Rightarrow> ret (Some None)
     | Some ns \<Rightarrow> do {
         ok \<leftarrow> alloc;
         if \<not> ok then ret (Some None)
         else do {
           r \<leftarrow> build_namespaces (take (lx_namespaces_len l) ns);
           case r of
             None \<Rightarrow> ret None
           | Some cs \<Rightarrow> do { mn_log NK_LOG_INFO 689; ret (Some (Some cs)) }
         }
       }))"

definition make_ctx :: "nk_container \<Rightarrow> nk_oci_process \<Rightarrow> nk_oci_root \<Rightarrow> nk_namespace_config list option
    \<Rightarrow> nk_container_ctx" where
  "make_ctx container process root namespaces = \<lparr>
     x_rootfs = Some (snprintf_n PATH_MAX (printed (c_bundle_path container) @ ''/'' @ printed (r_path root))),
     x_mounts = None, x_mounts_len = 0,
     x_namespaces = namespaces,
     x_namespaces_len = (case namespaces of None \<Rightarrow> 0 | Some ns \<Rightarrow> length ns),
     x_cgroup = Some \<lparr>cg_path = None, cg_memory_limit = 0, cg_cpu_shares = 0, cg_pids_limit = 0\<rparr>,
     x_env = p_env process, x_env_len = p_env_len process,
     x_cwd = (case p_cwd process of Some d \<Rightarrow> Some d | None \<Rightarrow> Some ''/''),
     x_args = p_args process, x_args_len = p_args_len process,
     x_terminal = p_terminal process\<rparr>"

text \<open>The macros of \<open>sys/wait.h\<close> on a wait status.\<close>

definition WTERMSIG :: "32 word \<Rightarrow> 32 word" where
  "WTERMSIG s = s AND 0x7F"

definition WIFEXITED :: "32 word \<Rightarrow> bool" where
  "WIFEXITED s \<longleftrightarrow> WTERMSIG s = 0"

definition WEXITSTATUS :: "32 word \<Rightarrow> 32 word" where
  "WEXITSTATUS s = drop_bit 8 (s AND 0xFF00)"

definition WIFSIGNALED :: "32 word \<Rightarrow> bool" where
  "WIFSIGNALED s \<longleftrightarrow> 0 < sint (signed_drop_bit 1 (ucast ((s AND 0x7F) + 1) :: 8 word))"

definition start_exit_code :: "32 word \<Rightarrow> int" where
  "start_exit_code s =
     (if WIFEXITED s then uint (WEXITSTATUS s)
      else if WIFSIGNALED s then 128 + uint (WTERMSIG s)
      else 0)"

text \<open>The part of \<open>nk_container_start\<close> that waits for an attached container.\<close>

definition wait_attached :: "'j jansson \<Rightarrow> nk_container \<Rightarrow> int \<Rightarrow> (int \<times> int) prog" where
  "wait_attached J container pid = do {
     mn_log NK_LOG_INFO 745;
     r \<leftarrow> nk_container_wait pid;
     if fst r = -1 then ret (-1, 0)
     else do {
       let s = word_of_int (snd r);
       let exit_code = start_exit_code s;
       (if WIFEXITED s then mn_log NK_LOG_INFO 754
        else if WIFSIGNALED s then mn_log NK_LOG_WARN 757 else ret ());
       r \<leftarrow> nk_state_save J (Some (container\<lparr>c_state := NK_STATE_STOPPED, c_init_pid := 0\<rparr>));
       (if r = -1 then mn_err 763 else ret ());
       mn_log NK_LOG_INFO 767;
       ret (0, exit_code)
     }
   }"

text \<open>The part from \<open>nk_container_exec\<close> on.\<close>

definition launch :: "'j jansson \<Rightarrow> nk_container \<Rightarrow> nk_container_ctx \<Rightarrow> bool \<Rightarrow> (int \<times> int) prog" where
  "launch J container ctx attach = do {
     mn_log NK_LOG_INFO 705;
     nk_log_step main_c 707 ''Executing container process'';
     explain 709 ''Calling clone()'' ''clone() system call creates new process with isolated namespaces. Returns in both parent (gets PID) and child (gets 0).'';
     pid \<leftarrow> nk_container_exec (Some ctx);
     if pid = -1 then do { mn_log NK_LOG_ERROR 716; ret (-1, 0) }
     else do {
       mn_log NK_LOG_INFO 723;
       let container = container\<lparr>c_state := NK_STATE_RUNNING, c_init_pid := pid\<rparr>;
       r \<leftarrow> nk_state_save J (Some container);
       (if r = -1 then mn_err 728 else ret ());
       mn_log NK_LOG_INFO 734;
       if \<not> attach then do { mn_log NK_LOG_INFO 737; ret (0, 0) }
       else wait_attached J container pid
     }
   }"

text \<open>
  \<open>nk_container_start\<close> returns its result and what it stores through
  \<open>container_exit_code\<close>, which both callers initialise to 0.
\<close>

definition nk_container_start :: "'j jansson \<Rightarrow> cptr \<Rightarrow> bool \<Rightarrow> (int \<times> int) option prog" where
  "nk_container_start J container_id attach = do {
     mn_log NK_LOG_INFO 610;
     explain 614 ''Starting container'' ''Container start creates isolated process(es) using clone() with namespaces. Parent process monitors, child process runs in isolated environment.'';
     nk_log_step main_c 620 ''Loading container state'';
     c \<leftarrow> nk_state_load J container_id;
     case c of
       None \<Rightarrow> do { mn_log NK_LOG_ERROR 623; ret (Some (-1, 0)) }
     | Some container \<Rightarrow> do {
         mn_log NK_LOG_DEBUG 626;
         if c_state container \<noteq> NK_STATE_CREATED
         then do { mn_log NK_LOG_ERROR 629; ret (Some (-1, 0)) }
         else do {
           nk_log_step main_c 635 ''Loading OCI spec'';
           sp \<leftarrow> nk_oci_spec_load J (c_bundle_path container);
           case sp of
             None \<Rightarrow> do { mn_log NK_LOG_ERROR 638; ret (Some (-1, 0)) }
           | Some spec \<Rightarrow>
               (case (s_process spec, s_root spec) of
                  (Some process, Some root) \<Rightarrow> do {
                    log_oci_start_summary (Some container) (Some spec);
                    if c_mode container = NK_MODE_VM
                    then do { mn_log NK_LOG_ERROR 654; ret (Some (-1, 0)) }
                    else do {
                      nk_log_step main_c 661 ''Building container execution context'';
                      mn_log NK_LOG_DEBUG 668;
                      ns \<leftarrow> ctx_namespaces spec;
                      case ns of
                        None \<Rightarrow> ret None
                      | Some namespaces \<Rightarrow> do {
                          r \<leftarrow> launch J container (make_ctx container process root namespaces) attach;
                          ret (Some r)
                        }
                    }
                  }
                | _ \<Rightarrow> do { mn_log NK_LOG_ERROR 644; ret (Some (-1, 0)) })
         }
       }
   }"

section \<open>Delete and state\<close>

definition stop_init :: "nk_container \<Rightarrow> unit prog" where
  "stop_init container =
     (if c_state container = NK_STATE_RUNNING \<and> 0 < c_init_pid container then do {
        mn_log NK_LOG_INFO 958;
        r \<leftarrow> nk_container_signal (c_init_pid container) SIGTERM;
        if r = 0 then do {
          kernel (Usleep 100000);
          k \<leftarrow> kernel (Kill (c_init_pid container) SIG0);
          if \<not> failed k then do {
            mn_log NK_LOG_WARN 968;
            nk_container_signal (c_init_pid container) SIGKILL;
            ret ()
          }
          else ret ()
        }
        else ret ()
      }
      else ret ())"

definition nk_container_delete :: "'j jansson \<Rightarrow> cptr \<Rightarrow> int prog" where
  "nk_container_delete J container_id = do {
     mn_log NK_LOG_INFO 947;
     c \<leftarrow> nk_state_load J container_id;
     case c of
       None \<Rightarrow> do { mn_err 952; ret (-1) }
     | Some container \<Rightarrow> do {
         stop_init container;
         nk_cgroup_cleanup container_id;
         r \<leftarrow> nk_state_delete container_id;
         (if r = -1 then mn_err 979 else ret ());
         mn_log NK_LOG_INFO 984;
         ret 0
       }
   }"

definition nk_container_state :: "'j jansson \<Rightarrow> cptr \<Rightarrow> nk_container_state_t prog" where
  "nk_container_state J container_id = do {
     c \<leftarrow> nk_state_load J container_id;
     case c of
       None \<Rightarrow> do { mn_err 993; ret NK_STATE_INVALID }
     | Some container \<Rightarrow> ret (c_state container)
   }"

section \<open>Run\<close>

text \<open>The part after the start, which gave \<open>s\<close>.\<close>

definition finish_run :: "'j jansson \<Rightarrow> nk_options \<Rightarrow> (int \<times> int) option \<Rightarrow> int option prog" where
  "finish_run J opts s = (case s of
     None \<Rightarrow> ret None
   | Some (r, exit_code) \<Rightarrow>
       if r = -1 then do {
         (if o_rm opts then do {
            mn_log NK_LOG_WARN 790;
            nk_container_delete J (o_container_id opts);
            ret ()
          } else ret ());
         ret (Some (-1))
       }
       else do {
         d \<leftarrow> (if o_rm opts then do {
                  mn_log NK_LOG_INFO 797;
                  nk_container_delete J (o_container_id opts)
                } else ret 0);
         if d = -1 then ret (Some (-1))
         else ret (Some (if o_attach opts then exit_code else 0))
       })"

definition nk_container_run :: "'j jansson \<Rightarrow> nk_options option \<Rightarrow> int option prog" where
  "nk_container_run J options = (case options of
     None \<Rightarrow> do { mn_log NK_LOG_ERROR 776; ret (Some (-1)) }
   | Some opts \<Rightarrow>
       if o_container_id opts = None then do { mn_log NK_LOG_ERROR 776; ret (Some (-1)) }
       else do {
         mn_log NK_LOG_INFO 780;
         r \<leftarrow> nk_container_create J opts;
         if r = -1 then ret (Some (-1))
         else do {
           s \<leftarrow> nk_container_start J (o_container_id opts) (o_attach opts);
           finish_run J opts s
         }
       })"

section \<open>Resume\<close>

definition is_pid_alive :: "int \<Rightarrow> bool prog" where
  "is_pid_alive pid =
     (if pid \<le> 0 then ret False
      else do {
        r \<leftarrow> kernel (Kill pid SIG0);
        ret (case r of Inr _ \<Rightarrow> True | Inl e \<Rightarrow> e = EPERM)
      })"

definition is_procfs_available :: "bool prog" where
  "is_procfs_available = do { r \<leftarrow> kernel (Access ''/proc/self/ns/pid''); ret (\<not> failed r) }"

definition has_pid_namespace_handles :: "int \<Rightarrow> bool prog" where
  "has_pid_namespace_handles pid =
     (if pid \<le> 0 then ret False
      else do {
        r \<leftarrow> kernel (Access (snprintf_n 64 (''/proc/'' @ dec_int pid @ ''/ns/pid'')));
        ret (\<not> failed r)
      })"

definition update_stopped_state_if_dead :: "'j jansson \<Rightarrow> nk_container option \<Rightarrow> unit prog" where
  "update_stopped_state_if_dead J container = (case container of
     None \<Rightarrow> ret ()
   | Some c \<Rightarrow>
       if c_state c \<noteq> NK_STATE_RUNNING \<or> c_init_pid c \<le> 0 then ret ()
       else do {
         alive \<leftarrow> is_pid_alive (c_init_pid c);
         if alive then ret ()
         else do {
           mn_log NK_LOG_WARN 839;
           r \<leftarrow> nk_state_save J (Some (c\<lparr>c_state := NK_STATE_STOPPED, c_init_pid := 0\<rparr>));
           if r = -1 then mn_log NK_LOG_WARN 844 else ret ()
         }
       })"

definition nsenter_argv :: "string \<Rightarrow> cptr \<Rightarrow> cptr list" where
  "nsenter_argv pid_str exec_cmd =
     map Some ([''nsenter'', ''--target'', pid_str, ''--mount'', ''--uts'', ''--ipc'', ''--net'', ''--pid'',
        ''--'', ''/bin/sh''] @ (if nonempty exec_cmd then [''-lc'', the exec_cmd] else []))"

definition resume_exit_code :: "32 word \<Rightarrow> int" where
  "resume_exit_code s =
     (if WIFEXITED s then uint (WEXITSTATUS s)
      else if WIFSIGNALED s then 128 + uint (WTERMSIG s)
      else 1)"

text \<open>The child of the fork: it is replaced by nsenter, or exits with 127.\<close>

definition exec_nsenter :: "cptr list \<Rightarrow> int option prog" where
  "exec_nsenter argv = do {
     r \<leftarrow> kernel (Execvp ''nsenter'' argv);
     case r of Inr _ \<Rightarrow> ret None | Inl _ \<Rightarrow> do { mn_err 922; ret (Some 127) }
   }"

definition enter_namespaces :: "'j jansson \<Rightarrow> nk_container \<Rightarrow> cptr \<Rightarrow> int prog" where
  "enter_namespaces J container exec_cmd = do {
     handles \<leftarrow> has_pid_namespace_handles (c_init_pid container);
     (if handles then ret () else mn_log NK_LOG_WARN 885);
     let argv = nsenter_argv (snprintf_n 32 (dec_int (c_init_pid container))) exec_cmd;
     mn_log NK_LOG_INFO 911;
     f \<leftarrow> kernel Fork;
     let child = (case f of Inl _ \<Rightarrow> -1 | Inr p \<Rightarrow> p);
     if child = -1 then do { mn_log NK_LOG_ERROR 915; ret (-1) }
     else do {
       in_child Helper (exec_nsenter argv);
       r \<leftarrow> kernel (Waitpid child);
       case r of
         Inl _ \<Rightarrow> do { mn_log NK_LOG_ERROR 928; ret (-1) }
       | Inr status \<Rightarrow> do {
           update_stopped_state_if_dead J (Some container);
           ret (resume_exit_code (word_of_int status))
         }
     }
   }"

definition nk_container_resume :: "'j jansson \<Rightarrow> cptr \<Rightarrow> cptr \<Rightarrow> int prog" where
  "nk_container_resume J container_id exec_cmd = do {
     mn_log NK_LOG_INFO 852;
     c \<leftarrow> nk_state_load J container_id;
     case c of
       None \<Rightarrow> do { mn_log NK_LOG_ERROR 858; ret (-1) }
     | Some container \<Rightarrow>
         if c_state container \<noteq> NK_STATE_RUNNING \<or> c_init_pid container \<le> 0
         then do { mn_log NK_LOG_ERROR 863; ret (-1) }
         else do {
           alive \<leftarrow> is_pid_alive (c_init_pid container);
           if \<not> alive then do {
             update_stopped_state_if_dead J (Some container);
             mn_log NK_LOG_ERROR 871;
             ret (-1)
           }
           else do {
             procfs \<leftarrow> is_procfs_available;
             if \<not> procfs then do { mn_log NK_LOG_ERROR 878; mn_log NK_LOG_ERROR 879; ret (-1) }
             else enter_namespaces J container exec_cmd
           }
         }
   }"

end
