(* ===== verification/OciFacts.thy ===== *)
theory OciFacts
  imports OciSpec StoreProperties
begin

text \<open>
  What loading a bundle promises. \<open>spec_of\<close> is the specification of the parser: the
  configuration that a JSON document denotes, as one expression without allocation or error
  handling. When the kernel refuses nothing the loader computes it (\<open>load_refines\<close>); whatever
  the kernel does, a loaded configuration satisfies \<open>spec_wf\<close>, which the lifecycle commands
  rely on.
\<close>

section \<open>The configuration of a document\<close>

text \<open>
  The members of an object by kind, on the interface of jansson alone: none of the helpers of
  the loader is used here.
\<close>

definition text_of :: "'j jansson \<Rightarrow> 'j \<Rightarrow> cptr" where
  "text_of J x = (if json_is_string J x then Some (json_string_value J x) else None)"

definition text_at :: "'j jansson \<Rightarrow> 'j \<Rightarrow> string \<Rightarrow> cptr" where
  "text_at J v k = Option.bind (json_object_get J v k) (text_of J)"

definition list_at :: "'j jansson \<Rightarrow> 'j \<Rightarrow> string \<Rightarrow> 'j list option" where
  "list_at J v k = Option.bind (json_object_get J v k)
     (\<lambda>x. if json_is_array J x then Some (json_elems J x) else None)"

definition texts_at :: "'j jansson \<Rightarrow> 'j \<Rightarrow> string \<Rightarrow> cptr list option" where
  "texts_at J v k = map_option (map (text_of J)) (list_at J v k)"

definition count_at :: "'j jansson \<Rightarrow> 'j \<Rightarrow> string \<Rightarrow> nat" where
  "count_at J v k = (case list_at J v k of None \<Rightarrow> 0 | Some xs \<Rightarrow> length xs)"

definition flag_at :: "'j jansson \<Rightarrow> 'j \<Rightarrow> string \<Rightarrow> bool" where
  "flag_at J v k = (case json_object_get J v k of None \<Rightarrow> False | Some x \<Rightarrow> json_is_true J x)"

definition object_member :: "'j jansson \<Rightarrow> 'j \<Rightarrow> string \<Rightarrow> 'j option" where
  "object_member J v k = (case json_object_get J v k of
     None \<Rightarrow> None | Some x \<Rightarrow> if json_is_object J x then Some x else None)"

definition id_member :: "'j jansson \<Rightarrow> 'j option \<Rightarrow> string \<Rightarrow> 32 word" where
  "id_member J user k = (case Option.bind user (\<lambda>u. json_object_get J u k) of
     None \<Rightarrow> 0 | Some x \<Rightarrow> word_of_int (json_integer_value J x))"

definition has_string :: "'j jansson \<Rightarrow> string \<Rightarrow> 'j \<Rightarrow> bool" where
  "has_string J k v \<longleftrightarrow> text_at J v k \<noteq> None"

text \<open>The parts of a configuration.\<close>

definition process_of :: "'j jansson \<Rightarrow> 'j \<Rightarrow> nk_oci_process option" where
  "process_of J v = map_option (\<lambda>args. \<lparr>
     p_args = Some args, p_args_len = count_at J v ''args'',
     p_env = texts_at J v ''env'', p_env_len = count_at J v ''env'',
     p_cwd = Some (case text_at J v ''cwd'' of None \<Rightarrow> ''/'' | Some d \<Rightarrow> d),
     p_user = None,
     p_uid = id_member J (object_member J v ''user'') ''uid'',
     p_gid = id_member J (object_member J v ''user'') ''gid'',
     p_additional_gids = None, p_additional_gids_len = 0,
     p_no_new_privileges = flag_at J v ''noNewPrivileges'',
     p_console_size = text_at J v ''consoleSize'',
     p_terminal = flag_at J v ''terminal''\<rparr>) (texts_at J v ''args'')"

definition root_of :: "'j jansson \<Rightarrow> 'j \<Rightarrow> nk_oci_root option" where
  "root_of J v = map_option (\<lambda>p. \<lparr>r_path = Some p, r_readonly = flag_at J v ''readonly''\<rparr>)
     (text_at J v ''path'')"

definition mount_of :: "'j jansson \<Rightarrow> 'j \<Rightarrow> nk_oci_mount" where
  "mount_of J v = (if has_string J ''destination'' v then \<lparr>
     m_destination = text_at J v ''destination'', m_type = text_at J v ''type'',
     m_source = text_at J v ''source'',
     m_options = texts_at J v ''options'', m_options_len = count_at J v ''options''\<rparr>
   else \<lparr>m_destination = None, m_type = None, m_source = None, m_options = None, m_options_len = 0\<rparr>)"

definition namespace_of :: "'j jansson \<Rightarrow> 'j \<Rightarrow> nk_oci_namespace" where
  "namespace_of J v = (if has_string J ''type'' v
     then \<lparr>n_type = text_at J v ''type'', n_path = text_at J v ''path''\<rparr>
     else \<lparr>n_type = None, n_path = None\<rparr>)"

definition linux_of :: "'j jansson \<Rightarrow> 'j \<Rightarrow> nk_oci_linux" where
  "linux_of J v = \<lparr>
     lx_namespaces = map_option (map (namespace_of J)) (list_at J v ''namespaces''),
     lx_namespaces_len = (case list_at J v ''namespaces'' of
        None \<Rightarrow> 0 | Some ns \<Rightarrow> length (filter (has_string J ''type'') ns)),
     lx_resources = None,
     lx_rootfs_propagation = text_at J v ''rootfsPropagation''\<rparr>"

definition annotations_of :: "'j jansson \<Rightarrow> 'j \<Rightarrow> string list option" where
  "annotations_of J v = map_option
     (\<lambda>x. [k @ ''='' @ t. (k, y) \<leftarrow> json_members J x, t \<leftarrow> (case text_of J y of None \<Rightarrow> [] | Some t \<Rightarrow> [t])])
     (object_member J v ''annotations'')"

definition spec_of :: "'j jansson \<Rightarrow> 'j \<Rightarrow> nk_oci_spec" where
  "spec_of J v = \<lparr>
     s_oci_version = text_at J v ''ociVersion'',
     s_process = Option.bind (json_object_get J v ''process'') (process_of J),
     s_root = Option.bind (json_object_get J v ''root'') (root_of J),
     s_hostname = text_at J v ''hostname'',
     s_mounts = map_option (map (mount_of J)) (list_at J v ''mounts''),
     s_mounts_len = (case list_at J v ''mounts'' of
        None \<Rightarrow> 0 | Some ms \<Rightarrow> length (filter (has_string J ''destination'') ms)),
     s_linux_config = map_option (linux_of J) (json_object_get J v ''linux''),
     s_annotations = annotations_of J v,
     s_annotations_len = (case annotations_of J v of None \<Rightarrow> 0 | Some as \<Rightarrow> length as)\<rparr>"

text \<open>What the helpers of the loader compute, in these terms.\<close>

lemma text_of_code: "string_array J vs = map (text_of J) vs"
  by (simp add: string_array_def text_of_def)

lemma text_at_code: "string_member J v k = text_at J v k"
  by (simp add: string_member_def text_at_def text_of_def split: option.split)

lemma list_at_code: "array_member J v k = list_at J v k"
  by (simp add: array_member_def list_at_def split: option.split)

lemma flag_at_code: "true_member J v k = flag_at J v k"
  by (simp add: true_member_def flag_at_def split: option.split)

lemma namespace_of_code: "parse_namespace J v = namespace_of J v"
  by (simp add: parse_namespace_def namespace_of_def has_string_def zero_namespace_def text_at_code split: option.split)

lemma annotations_code: "annotation_texts J ms
    = [k @ ''='' @ t. (k, y) \<leftarrow> ms, t \<leftarrow> (case text_of J y of None \<Rightarrow> [] | Some t \<Rightarrow> [t])]"
  by (induction ms) (auto simp: annotation_texts_def text_of_def)

lemma parse_namespace_fun: "parse_namespace J = namespace_of J"
  by (rule ext) (rule namespace_of_code)

lemmas member_code = text_of_code text_at_code list_at_code flag_at_code parse_namespace_fun annotations_code

lemmas member_defs = text_of_def text_at_def list_at_def texts_at_def count_at_def flag_at_def

text \<open>The document of a bundle: the text of its \<open>config.json\<close>, if the bundle is a directory that has one.\<close>

definition config_path :: "string \<Rightarrow> string" where
  "config_path b = snprintf_n PATH_MAX (b @ ''/'' @ CONFIG_JSON)"

definition bundle_document :: "'j jansson \<Rightarrow> world \<Rightarrow> cptr \<Rightarrow> 'j option" where
  "bundle_document J w b = (case b of
     None \<Rightarrow> None
   | Some p \<Rightarrow>
       (case (lookup w p, lookup w (config_path p)) of
          (Inr Dir, Inr (Reg s)) \<Rightarrow> if int (length s) < LONG_MAX then json_loads J (c_string s) else None
        | (Inr Dir, Inr Special) \<Rightarrow> json_loads J []
        | _ \<Rightarrow> None))"

definition bundle_spec :: "'j jansson \<Rightarrow> world \<Rightarrow> cptr \<Rightarrow> nk_oci_spec option" where
  "bundle_spec J w b = map_option (spec_of J) (bundle_document J w b)"

section \<open>The loader computes it\<close>

text \<open>A program that allocates only, when no allocation is refused: \<open>gives a m\<close> says it returns \<open>a\<close>.\<close>

definition gives :: "'a \<Rightarrow> 'a prog \<Rightarrow> bool" where
  "gives a m \<longleftrightarrow> (\<forall>w. reliable w \<longrightarrow> res m w = a \<and> reliable (post m w))"

lemma gives_return: "gives a (ret a)"
  by (simp add: gives_def)

lemma gives_bind: "gives a m \<Longrightarrow> gives b (f a) \<Longrightarrow> gives b (State_Monad.bind m f)"
  by (auto simp: gives_def split_def)

lemma gives_alloc: "gives True alloc"
  by (simp add: gives_def run_alloc)

lemma gives_log: "only_log m \<Longrightarrow> gives b n \<Longrightarrow> gives b (State_Monad.bind m (\<lambda>_. n))"
  by (auto simp: gives_def split_def only_log_def) (metis world_of_log(1))+

lemma gives_wp: "gives a m \<Longrightarrow> reliable w \<Longrightarrow> wp m (\<lambda>x w'. x = a) w"
  by (simp add: gives_def wp_def)

lemma gives_parse_env:
  "gives (p\<lparr>p_env := (case list_at J v ''env'' of None \<Rightarrow> p_env p | Some e \<Rightarrow> Some (map (text_of J) e)),
     p_env_len := (case list_at J v ''env'' of None \<Rightarrow> p_env_len p | Some e \<Rightarrow> length e)\<rparr>) (parse_env J v p)"
  unfolding parse_env_def member_code
  by (cases "list_at J v ''env''") (auto intro!: gives_return gives_bind [OF gives_alloc])

lemma gives_process: "gives (process_of J v) (parse_process J v)"
proof (cases "list_at J v ''args''")
  case None
  then show ?thesis
    unfolding parse_process_def member_code
    by (auto simp: process_of_def texts_at_def intro!: gives_bind [OF gives_alloc] gives_log only_log_oci gives_return)
next
  case (Some args)
  show ?thesis
    unfolding parse_process_def member_code Some option.case Let_def
    apply (rule gives_bind [OF gives_alloc])
    apply simp
    apply (rule gives_bind [OF gives_alloc])
    apply simp
    apply (rule gives_bind [OF gives_parse_env])
    apply (rule back_subst [of "\<lambda>x. gives x _", OF gives_return])
    apply (simp add: process_of_def texts_at_def count_at_def Some parse_user_def zero_process_def object_member_def
        id_member_def int32_def split: option.split)
    done
qed

lemma gives_root: "gives (root_of J v) (parse_root J v)"
  unfolding parse_root_def root_of_def member_code
  by (cases "text_at J v ''path''")
    (auto intro!: gives_bind [OF gives_alloc] gives_log only_log_oci gives_return)

lemma gives_linux: "gives (Some (linux_of J v)) (parse_linux J v)"
proof -
  have ns: "gives (zero_linux\<lparr>lx_namespaces := lx_namespaces (linux_of J v),
      lx_namespaces_len := lx_namespaces_len (linux_of J v)\<rparr>)
    (case list_at J v ''namespaces'' of None \<Rightarrow> ret zero_linux
     | Some namespaces \<Rightarrow> do { ok \<leftarrow> alloc; ret (if \<not> ok then zero_linux else zero_linux\<lparr>
         lx_namespaces := Some (map (namespace_of J) namespaces),
         lx_namespaces_len := length (filter (\<lambda>ns. text_at J ns ''type'' \<noteq> None) namespaces)\<rparr>) })"
    by (cases "list_at J v ''namespaces''")
      (auto simp: linux_of_def zero_linux_def has_string_def [abs_def]
        intro!: gives_bind [OF gives_alloc] gives_return)
  show ?thesis
    unfolding parse_linux_def member_code
    apply (rule gives_bind [OF gives_alloc])
    apply simp
    apply (rule gives_bind [OF ns])
    apply (rule back_subst [of "\<lambda>x. gives x _", OF gives_return])
    apply (simp add: linux_of_def zero_linux_def)
    done
qed

lemma gives_mount: "gives (mount_of J m) (parse_mount J m)"
proof (cases "text_at J m ''destination''")
  case None
  then show ?thesis by (simp add: parse_mount_def member_code mount_of_def zero_mount_def has_string_def gives_return)
next
  case (Some d)
  then show ?thesis
    unfolding parse_mount_def mount_of_def has_string_def member_code
    by (cases "list_at J m ''options''")
      (auto simp: zero_mount_def texts_at_def count_at_def Let_def intro!: gives_return gives_bind [OF gives_alloc])
qed

lemma gives_mount_list: "gives (map (mount_of J) ms) (parse_mount_list J ms)"
proof (induction ms)
  case (Cons m ms)
  show ?case
    unfolding parse_mount_list.simps list.map
    by (rule gives_bind [OF gives_mount], rule gives_bind [OF Cons.IH], rule gives_return)
qed (simp add: gives_return)

lemma gives_mounts:
  "gives (case list_at J v ''mounts'' of None \<Rightarrow> s
     | Some ms \<Rightarrow> s\<lparr>s_mounts := Some (map (mount_of J) ms),
         s_mounts_len := length (filter (has_string J ''destination'') ms)\<rparr>) (parse_mounts J v s)"
proof (cases "list_at J v ''mounts''")
  case (Some ms)
  show ?thesis
    unfolding parse_mounts_def member_code Some option.case
    by (rule gives_bind [OF gives_alloc], simp, rule gives_bind [OF gives_mount_list])
      (simp add: has_string_def [abs_def] gives_return)
qed (simp add: parse_mounts_def member_code gives_return)

lemma gives_annotations:
  "gives (case annotations_of J v of None \<Rightarrow> s
     | Some as \<Rightarrow> s\<lparr>s_annotations := Some as, s_annotations_len := length as\<rparr>) (parse_annotations J v s)"
  unfolding parse_annotations_def annotations_of_def object_member_def member_code
  by (auto simp: Let_def split: option.split intro!: gives_return gives_bind [OF gives_alloc])

lemma gives_member:
  "(\<And>x. gives (f x) (m x)) \<Longrightarrow>
    gives (Option.bind a f) (case a of None \<Rightarrow> ret None | Some x \<Rightarrow> m x)"
  by (cases a) (simp_all add: gives_return)

lemma gives_spec: "gives (spec_of J v) (build_spec J v)"
proof -
  have lin: "gives (map_option (linux_of J) (json_object_get J v ''linux''))
      (case json_object_get J v ''linux'' of None \<Rightarrow> ret None | Some x \<Rightarrow> parse_linux J x)"
    by (cases "json_object_get J v ''linux''") (simp_all add: gives_return gives_linux)
  show ?thesis
    unfolding build_spec_def Let_def member_code
    apply (rule gives_bind [OF gives_member [OF gives_process]])
    apply (rule gives_bind [OF gives_member [OF gives_root]])
    apply (rule gives_bind [OF gives_mounts])
    apply (rule gives_bind [OF lin])
    apply (rule back_subst [of "\<lambda>x. gives x _", OF gives_annotations])
    apply (simp add: spec_of_def zero_spec_def split: option.split)
    done
qed

lemma only_log_for_each_oci [log_intros]: "only_log (for_each oci_err ns)"
  by (intro log_intros)

text \<open>What the loader makes of the node it opens.\<close>

definition file_content :: "errno + node \<Rightarrow> cptr" where
  "file_content l = (case l of
     Inr (Reg s) \<Rightarrow> if int (length s) < LONG_MAX then Some (c_string s) else None
   | Inr Special \<Rightarrow> Some []
   | _ \<Rightarrow> None)"

lemma load_json_file_wp:
  assumes "reliable w"
  shows "wp (load_json_file p) (\<lambda>r w'. reliable w' \<and> r = file_content (lookup w p)) w"
  unfolding load_json_file_def fread_content_def Let_def
  by (intro wp_intros wp_calls only_log_for_each_oci [THEN wp_only_log])
    (use assms in \<open>auto simp: file_content_def file_size_def delivered_def LONG_MAX_def c_string_def split: node.splits\<close>)

lemma spec_load_wp:
  assumes "reliable w"
  shows "wp (nk_oci_spec_load J b) (\<lambda>r w'. r = bundle_spec J w b \<and> w_fs w' = w_fs w) w"
proof -
  have load: "wp (load_json_file (config_path p)) Q w1"
    if "reliable w1" "lookup w1 = lookup w"
      "\<And>w'. reliable w' \<Longrightarrow> Q (file_content (lookup w (config_path p))) w'" for p Q w1
    by (rule wp_mono [OF load_json_file_wp [OF that(1)]]) (use that in auto)
  have build: "wp (build_spec J root) Q w1" if "reliable w1" "\<And>w'. Q (spec_of J root) w'" for root Q w1
    by (rule wp_mono [OF gives_wp [OF gives_spec that(1)]]) (use that in simp)
  have "wp (nk_oci_spec_load J b) (\<lambda>r w'. r = bundle_spec J w b) w"
  proof (cases b)
    case None
    then show ?thesis
      unfolding nk_oci_spec_load_def Let_def
      by (intro wp_intros only_log_for_each_oci [THEN wp_only_log])
        (auto simp: bundle_spec_def bundle_document_def wp_def)
  next
    case (Some p)
    show ?thesis
      unfolding nk_oci_spec_load_def Let_def Some option.case printed_simps config_path_def [symmetric]
      by (intro wp_intros wp_calls only_log_for_each_oci [THEN wp_only_log] load build)
        (use assms in \<open>auto simp: bundle_spec_def bundle_document_def file_content_def
          split: sum.splits node.splits option.splits if_splits\<close>)
  qed
  then show ?thesis
    using spec_load_obeys(2) [of J b] by (auto simp: wp_def obeys_def same_fs_def)
qed

text \<open>C17: when the kernel refuses the loader no call, loading a bundle returns exactly the configuration that
  its \<open>config.json\<close> denotes, and fails exactly when the bundle is no directory, the file is
  missing or the text is not JSON.\<close>

theorem load_refines:
  assumes "reliable w"
  shows "wp (nk_oci_spec_load J b) (\<lambda>r w'. r = bundle_spec J w b \<and> w_fs w' = w_fs w) w"
  by (rule spec_load_wp [OF assms])

section \<open>What every loaded configuration satisfies\<close>

definition elems :: "'a list option \<Rightarrow> 'a list" where
  "elems xs = (case xs of None \<Rightarrow> [] | Some ys \<Rightarrow> ys)"

definition process_wf :: "nk_oci_process \<Rightarrow> bool" where
  "process_wf p \<longleftrightarrow> p_args p \<noteq> None \<and> length (elems (p_args p)) = p_args_len p
     \<and> length (elems (p_env p)) = p_env_len p \<and> p_cwd p \<noteq> None"

definition mount_wf :: "nk_oci_mount \<Rightarrow> bool" where
  "mount_wf m \<longleftrightarrow> length (elems (m_options m)) = m_options_len m
     \<and> (m_destination m = None \<longrightarrow> m = zero_mount)"

definition linux_wf :: "nk_oci_linux \<Rightarrow> bool" where
  "linux_wf l \<longleftrightarrow> lx_namespaces_len l = length (filter (\<lambda>n. n_type n \<noteq> None) (elems (lx_namespaces l)))
     \<and> lx_resources l = None"

definition spec_wf :: "nk_oci_spec \<Rightarrow> bool" where
  "spec_wf s \<longleftrightarrow> pred_option process_wf (s_process s)
     \<and> pred_option (\<lambda>r. r_path r \<noteq> None) (s_root s)
     \<and> list_all mount_wf (elems (s_mounts s))
     \<and> s_mounts_len s = length (filter (\<lambda>m. m_destination m \<noteq> None) (elems (s_mounts s)))
     \<and> pred_option linux_wf (s_linux_config s)
     \<and> length (elems (s_annotations s)) = s_annotations_len s
     \<and> list_all (\<lambda>a. CHR ''='' \<in> set a) (elems (s_annotations s))"

lemma elems_simps [simp]: "elems None = []" "elems (Some xs) = xs"
  by (simp_all add: elems_def)

lemma wp_alloc_any: "(\<And>b w'. Q b w') \<Longrightarrow> wp alloc Q w"
  by (simp add: wp_def)

lemma wp_all: "(\<And>w. wp m (\<lambda>a _. P a) w) \<Longrightarrow> (\<And>a w'. P a \<Longrightarrow> Q a w') \<Longrightarrow> wp m Q w"
  by (simp add: wp_def)

lemma length_string_array [simp]: "length (string_array J vs) = length vs"
  by (simp add: string_array_def)

lemma process_wf_wp: "wp (parse_process J v) (\<lambda>r _. pred_option process_wf r) w"
  unfolding parse_process_def parse_env_def parse_user_def Let_def
  by (intro wp_intros wp_alloc_any only_log_oci [THEN wp_only_log])
    (auto simp: process_wf_def zero_process_def split: option.splits)

lemma root_wf_wp: "wp (parse_root J v) (\<lambda>r _. pred_option (\<lambda>r. r_path r \<noteq> None) r) w"
  unfolding parse_root_def
  by (intro wp_intros wp_alloc_any only_log_oci [THEN wp_only_log]) simp_all

lemma typed_namespace: "n_type (namespace_of J v) \<noteq> None \<longleftrightarrow> text_at J v ''type'' \<noteq> None"
  by (simp add: namespace_of_def has_string_def)

lemma linux_wf_wp: "wp (parse_linux J v) (\<lambda>r _. pred_option linux_wf r) w"
proof -
  have "length (filter (\<lambda>n. n_type n \<noteq> None) (map (namespace_of J) ns))
      = length (filter (\<lambda>n. text_at J n ''type'' \<noteq> None) ns)" for ns
    by (simp only: filter_map length_map comp_def typed_namespace)
  then show ?thesis
    unfolding parse_linux_def member_code
    by (intro wp_intros wp_alloc_any) (auto simp: linux_wf_def zero_linux_def)
qed

lemma mount_wf_wp:
  "wp (parse_mount J v) (\<lambda>m _. mount_wf m \<and> (m_destination m \<noteq> None) = (string_member J v ''destination'' \<noteq> None)) w"
  unfolding parse_mount_def Let_def
  by (intro wp_intros wp_alloc_any) (auto simp: mount_wf_def zero_mount_def)

lemma mount_list_wf_wp:
  "wp (parse_mount_list J vs) (\<lambda>ms _. list_all mount_wf ms
    \<and> length (filter (\<lambda>m. m_destination m \<noteq> None) ms)
      = length (filter (\<lambda>v. string_member J v ''destination'' \<noteq> None) vs)) w"
proof (induction vs arbitrary: w)
  case (Cons v vs)
  show ?case
    unfolding parse_mount_list.simps
    by (intro wp_bind wp_return wp_all [OF mount_wf_wp] wp_all [OF Cons.IH]) auto
qed (simp add: wp_return)

definition rest_wf :: "nk_oci_spec \<Rightarrow> bool" where
  "rest_wf s \<longleftrightarrow> pred_option process_wf (s_process s) \<and> pred_option (\<lambda>r. r_path r \<noteq> None) (s_root s)
     \<and> list_all mount_wf (elems (s_mounts s))
     \<and> s_mounts_len s = length (filter (\<lambda>m. m_destination m \<noteq> None) (elems (s_mounts s)))"

lemma mounts_wf_wp:
  assumes "pred_option process_wf (s_process s)" and "pred_option (\<lambda>r. r_path r \<noteq> None) (s_root s)"
    and "s_mounts s = None" and "s_mounts_len s = 0" and "s_annotations s = None" and "s_annotations_len s = 0"
  shows "wp (parse_mounts J v s) (\<lambda>s _. rest_wf s \<and> s_annotations s = None \<and> s_annotations_len s = 0) w"
  unfolding parse_mounts_def
  by (intro wp_intros wp_alloc_any wp_all [OF mount_list_wf_wp]) (use assms in \<open>auto simp: rest_wf_def\<close>)

lemma annotations_wf_wp:
  assumes "rest_wf s" and "s_annotations s = None" and "s_annotations_len s = 0" and "pred_option linux_wf l"
  shows "wp (parse_annotations J v (s\<lparr>s_linux_config := l\<rparr>)) (\<lambda>s _. spec_wf s) w"
proof -
  have "list_all (\<lambda>a. CHR ''='' \<in> set a) (annotation_texts J ms)" for ms
    by (auto simp: annotation_texts_def list_all_iff)
  then show ?thesis
    unfolding parse_annotations_def Let_def
    by (intro wp_intros wp_alloc_any) (use assms in \<open>auto simp: spec_wf_def rest_wf_def\<close>)
qed

lemma wp_member:
  "(\<And>x w. wp (m x) (\<lambda>r _. pred_option P r) w) \<Longrightarrow> (\<And>r w'. pred_option P r \<Longrightarrow> Q r w')
    \<Longrightarrow> wp (case a of None \<Rightarrow> ret None | Some x \<Rightarrow> m x) Q w"
  by (cases a) (simp_all add: wp_def)


section \<open>Validation\<close>

lemma res_validate:
  "res (nk_oci_spec_validate s) w \<longleftrightarrow> (\<exists>x r p. s = Some x \<and> s_root x = Some r \<and> r_path r \<noteq> None
    \<and> s_process x = Some p \<and> p_args p \<noteq> None \<and> p_args_len p \<noteq> 0)"
proof -
  have fe: "(\<And>a w'. Q a w') \<Longrightarrow> wp (for_each f xs) Q w" for f :: "nat \<Rightarrow> unit prog" and xs Q w by (simp add: wp_def)
  have "wp (nk_oci_spec_validate s) (\<lambda>r _. r \<longleftrightarrow> (\<exists>x r p. s = Some x \<and> s_root x = Some r \<and> r_path r \<noteq> None
    \<and> s_process x = Some p \<and> p_args p \<noteq> None \<and> p_args_len p \<noteq> 0)) w"
    unfolding nk_oci_spec_validate_def
    by (intro wp_intros fe only_log_oci [THEN wp_only_log]) auto
  then show ?thesis by (simp add: wp_def)
qed

definition valid_document :: "'j jansson \<Rightarrow> 'j \<Rightarrow> bool" where
  "valid_document J v \<longleftrightarrow> (\<exists>r. json_object_get J v ''root'' = Some r \<and> has_string J ''path'' r)
     \<and> (\<exists>p args. json_object_get J v ''process'' = Some p \<and> list_at J p ''args'' = Some args \<and> args \<noteq> [])"

lemma validate_spec_of: "res (nk_oci_spec_validate (Some (spec_of J v))) w = valid_document J v"
  unfolding res_validate valid_document_def
  by (auto simp: spec_of_def root_of_def process_of_def texts_at_def count_at_def has_string_def bind_eq_Some_conv)

text \<open>C18: loading and validating a bundle succeeds, when the kernel refuses the loader nothing,
  exactly for a document whose \<open>root\<close> has a string \<open>path\<close> and whose \<open>process\<close> has a nonempty
  array \<open>args\<close>; nothing else of the document is checked.\<close>

theorem accepted_bundles:
  assumes "reliable w"
  shows "wp (do { s \<leftarrow> nk_oci_spec_load J b; nk_oci_spec_validate s })
    (\<lambda>ok _. ok = (case bundle_document J w b of None \<Rightarrow> False | Some v \<Rightarrow> valid_document J v)) w"
proof (rule wp_bind, rule wp_mono [OF spec_load_wp [OF assms]], elim conjE)
  fix s and w' :: world
  assume s: "s = bundle_spec J w b"
  have "res (nk_oci_spec_validate s) w' = (case bundle_document J w b of None \<Rightarrow> False | Some v \<Rightarrow> valid_document J v)"
    by (cases "bundle_document J w b") (simp_all add: s bundle_spec_def validate_spec_of, simp add: res_validate)
  then show "wp (nk_oci_spec_validate s)
      (\<lambda>ok _. ok = (case bundle_document J w b of None \<Rightarrow> False | Some v \<Rightarrow> valid_document J v)) w'"
    by (simp add: wp_def)
qed

section \<open>Annotations\<close>

lemma annotation_value_eq:
  assumes "CHR ''='' \<notin> set key" and "CHR ''='' \<notin> set k"
  shows "annotation_value key (k @ ''='' @ v) = (if k = key then Some v else None)"
proof (cases "k = key")
  case True
  then show ?thesis by (simp add: annotation_value_def)
next
  case False
  have "\<not> (take (length key) (k @ ''='' @ v) = key \<and> length key < length (k @ ''='' @ v)
      \<and> (k @ ''='' @ v) ! length key = CHR ''='')"
  proof
    assume a: "take (length key) (k @ ''='' @ v) = key \<and> length key < length (k @ ''='' @ v)
      \<and> (k @ ''='' @ v) ! length key = CHR ''=''"
    consider "length key < length k" | "length key = length k" | "length k < length key" by linarith
    then show False
    proof cases
      case 1
      with a have "k ! length key = CHR ''=''" by (simp add: nth_append)
      with 1 assms(2) show False by (metis nth_mem)
    next
      case 2
      with a False show False by simp
    next
      case 3
      then have "(take (length key) (k @ ''='' @ v)) ! length k = CHR ''=''" by (simp add: nth_append)
      with a 3 have "key ! length k = CHR ''=''" by simp
      with 3 assms(1) show False by (metis nth_mem)
    qed
  qed
  then show ?thesis using False by (auto simp: annotation_value_def)
qed

lemma find_annotation_texts:
  assumes "CHR ''='' \<notin> set key" and "list_all (\<lambda>(k, _). CHR ''='' \<notin> set k) ms" and "distinct (map fst ms)"
  shows "find_annotation key (annotation_texts J ms) =
    (case map_of ms key of
       Some v \<Rightarrow> if json_is_string J v then Some (json_string_value J v) else None
     | None \<Rightarrow> None)"
  using assms(2,3)
proof (induction ms)
  case (Cons m ms)
  obtain k v where m: "m = (k, v)" by (cases m)
  have none: "map_of ms key = None" if "k = key"
    using Cons.prems that by (auto simp: m map_of_eq_None_iff)
  show ?case
    using Cons annotation_value_eq [OF assms(1), of k "json_string_value J v"] none
    by (auto simp: m annotation_texts_def split: option.split)
qed (simp add: annotation_texts_def)

text \<open>C40: asking a loaded configuration for an annotation returns the string the document has
  under that name, and NULL if it has none or the value is no string, provided that neither
  the key nor a name of the document contains \<open>=\<close>, on which the encoding relies.\<close>

theorem get_annotation_spec:
  assumes "CHR ''='' \<notin> set key"
    and "json_object_get J v ''annotations'' = Some anns" and "json_is_object J anns"
    and "list_all (\<lambda>(k, _). CHR ''='' \<notin> set k) (json_members J anns)"
    and "distinct (map fst (json_members J anns))"
  shows "nk_oci_spec_get_annotation (Some (spec_of J v)) (Some key) =
    (case map_of (json_members J anns) key of
       Some x \<Rightarrow> if json_is_string J x then Some (json_string_value J x) else None
     | None \<Rightarrow> None)"
  using find_annotation_texts [OF assms(1,4,5), of J] assms(2,3)
  by (simp add: nk_oci_spec_get_annotation_def spec_of_def annotations_of_def annotations_code object_member_def)

section \<open>A concrete bundle\<close>

definition demo_doc :: rj where
  "demo_doc = RObj [(''process'', RObj [(''args'', RArr [RStr ''/bin/sh'']), (''terminal'', RTrue)]),
     (''root'', RObj [(''path'', RStr ''rootfs'')]),
     (''linux'', RObj [(''namespaces'', RArr [RObj [(''type'', RStr ''pid'')],
        RObj [(''type'', RStr ''mount''), (''path'', RStr ''/n'')]])]),
     (''annotations'', RObj [(''a'', RStr ''1''), (''b'', RInt 2)])]"

definition bundle_world :: world where
  "bundle_world = demo_world\<lparr>w_fs := [([''b''], Dir), ([''b'', CONFIG_JSON], Reg (print_rj demo_doc))]\<rparr>"

lemma demo_doc_parses: "rj_loads (c_string (print_rj demo_doc)) = Some demo_doc"
  by code_simp

lemma demo_doc_length: "int (length (print_rj demo_doc)) < LONG_MAX"
  by code_simp

lemma bundle_reliable: "reliable bundle_world"
  by (simp add: reliable_def bundle_world_def demo_world_def)

lemma demo_bundle: "bundle_document RefJ bundle_world (Some ''/b'') = Some demo_doc"
proof -
  have path: "config_path ''/b'' = ''/b/config.json''"
    by (simp add: config_path_def snprintf_n_id PATH_MAX_def CONFIG_JSON_def)
  have dir: "lookup bundle_world ''/b'' = Inr Dir"
    by (simp add: lookup_def resolve_def start_of_def absolute_def comps_def bundle_world_def node_at_def)
  have conf: "lookup bundle_world ''/b/config.json'' = Inr (Reg (print_rj demo_doc))"
    by (simp add: lookup_def resolve_def start_of_def absolute_def comps_def bundle_world_def node_at_def CONFIG_JSON_def)
  show ?thesis
    by (simp add: bundle_document_def path dir conf demo_doc_parses demo_doc_length del: print_rj.simps)
qed

lemma demo_spec:
  "\<exists>p l. s_process (spec_of RefJ demo_doc) = Some p \<and> p_args p = Some [Some ''/bin/sh''] \<and> p_cwd p = Some ''/''
     \<and> p_terminal p \<and> s_linux_config (spec_of RefJ demo_doc) = Some l \<and> lx_namespaces_len l = 2
     \<and> map_option (map n_path) (lx_namespaces l) = Some [None, Some ''/n'']
     \<and> s_annotations (spec_of RefJ demo_doc) = Some [''a=1'']"
  by (simp add: spec_of_def demo_doc_def process_of_def member_defs linux_of_def namespace_of_def annotations_of_def
      object_member_def has_string_def RefJ_def)

lemma demo_valid: "valid_document RefJ demo_doc"
  by (simp add: valid_document_def demo_doc_def member_defs has_string_def RefJ_def)

theorem load_refines_witness:
  "wp (nk_oci_spec_load RefJ (Some ''/b'')) (\<lambda>r w'. \<exists>s p l. r = Some s \<and> s_process s = Some p
     \<and> p_args p = Some [Some ''/bin/sh''] \<and> p_cwd p = Some ''/'' \<and> p_terminal p
     \<and> s_linux_config s = Some l \<and> lx_namespaces_len l = 2
     \<and> map_option (map n_path) (lx_namespaces l) = Some [None, Some ''/n'']
     \<and> s_annotations s = Some [''a=1'']) bundle_world"
  by (rule wp_mono [OF load_refines [OF bundle_reliable]]) (use demo_spec in \<open>auto simp: bundle_spec_def demo_bundle\<close>)

theorem accepted_bundles_witness:
  "wp (do { s \<leftarrow> nk_oci_spec_load RefJ (Some ''/b''); nk_oci_spec_validate s }) (\<lambda>ok _. ok) bundle_world"
  by (rule wp_mono [OF accepted_bundles [OF bundle_reliable]]) (simp add: demo_bundle demo_valid)

theorem get_annotation_spec_witness:
  "nk_oci_spec_get_annotation (Some (spec_of RefJ demo_doc)) (Some ''a'') = Some ''1''
   \<and> nk_oci_spec_get_annotation (Some (spec_of RefJ demo_doc)) (Some ''b'') = None"
  using get_annotation_spec [of "''a''" RefJ demo_doc "RObj [(''a'', RStr ''1''), (''b'', RInt 2)]"]
    get_annotation_spec [of "''b''" RefJ demo_doc "RObj [(''a'', RStr ''1''), (''b'', RInt 2)]"]
  by (simp add: demo_doc_def RefJ_def clearjunk_delete)

end
