(* ===== verification/LifecycleFacts.thy ===== *)
theory LifecycleFacts
  imports Lifecycle OciFacts
begin

text \<open>
  What the lifecycle commands do to the containers in the store. \<open>views J w m w'\<close>: from \<open>w\<close> to
  \<open>w'\<close> the store stayed usable and its entries are now \<open>m\<close>. The store operations are used
  through the laws of the locale \<open>container_store\<close> only, as interpreted on the model of
  \<open>state.c\<close>; every other call a command makes may fail in any way.
\<close>

section \<open>Views of the store\<close>

type_synonym entries = "string \<Rightarrow> nk_container option option"

definition views :: "'j jansson \<Rightarrow> world \<Rightarrow> entries \<Rightarrow> world \<Rightarrow> bool" where
  "views J w m w' \<longleftrightarrow> static_rel w w' \<and> store_ok w' \<and> (\<forall>i. plain_name i \<longrightarrow> entry J w' i = m i)"

lemma views_refl: "store_ok w \<Longrightarrow> views J w (entry J w) w"
  by (simp add: views_def static_rel_def)

lemma entry_cong: "static_rel w w' \<Longrightarrow> w_fs w' = w_fs w \<Longrightarrow> entry J w' = entry J w"
  using stored_cong(1) [of w w'] by (simp add: entry_def fun_eq_iff)

lemma views_cong: "views J w m w1 \<Longrightarrow> static_rel w1 w2 \<Longrightarrow> w_fs w2 = w_fs w1 \<Longrightarrow> views J w m w2"
  using entry_cong [of w1 w2 J] store_ok_static [of w1 w2] by (auto simp: views_def intro: static.trans)

lemma views_log [simp]: "views J w m w1 \<Longrightarrow> views J w m (w1\<lparr>w_log := l\<rparr>)"
  by (erule views_cong) simp_all

lemma views_tick [simp]: "views J w m w1 \<Longrightarrow> views J w m (tick c e w1)"
  by (erule views_cong) simp_all

lemma views_entry: "views J w m w' \<Longrightarrow> plain_name i \<Longrightarrow> entry J w' i = m i"
  by (simp add: views_def)

lemma views_trans:
  assumes "views J w1 t w2" and "views J w m w1" and "\<And>i. plain_name i \<Longrightarrow> t i = m' i"
  shows "views J w m' w2"
  using assms by (auto simp: views_def intro: static.trans)

lemma wp_frame:
  assumes "obeys static_rel m" and "obeys same_fs m" and "views J w t w1"
    and "\<And>a w'. views J w t w' \<Longrightarrow> Q a w'"
  shows "wp m Q w1"
  using assms(1,2) views_cong [OF assms(3)] assms(4)
  by (simp add: wp_def obeys_def same_fs_def)

text \<open>What loading returns for an entry.\<close>

definition loaded :: "world \<Rightarrow> entries \<Rightarrow> string \<Rightarrow> nk_container option" where
  "loaded w m i = map_option (\<lambda>c. c\<lparr>c_state_file := Some (state_path w i)\<rparr>) (Option.bind (m i) id)"

lemma stored_loaded: "stored J w i = loaded w (entry J w) i"
  unfolding stored_def loaded_def entry_def
  by (auto simp: container_of_json_def option.map_comp comp_def split: option.split)

lemma wp_view_load:
  assumes "views J w m w1" and "plain_name i" and "\<And>w'. views J w m w' \<Longrightarrow> Q (loaded w m i) w'"
  shows "wp (nk_state_load J (Some i)) Q w1"
proof -
  have ok: "store_ok w1" "static_rel w w1" using assms(1) by (simp_all add: views_def)
  have eq: "stored J w1 i = loaded w m i"
    using views_entry [OF assms(1,2)] state_path_static [OF ok(2)] by (simp add: stored_loaded loaded_def)
  show ?thesis
    by (rule wp_mono [OF wp_conj [OF nk_state_load_wp [OF store_okD(1) [OF ok(1)]]
        wp_obeys [OF nk_state_load_obeys(1)]]])
      (use eq assms(3) views_cong [OF assms(1)] in auto)
qed

lemma wp_view_exists:
  assumes "views J w m w1" and "plain_name i" and "\<And>w'. views J w m w' \<Longrightarrow> Q (m i \<noteq> None) w'"
  shows "wp (nk_state_exists (Some i)) Q w1"
proof -
  have ok: "store_ok w1" using assms(1) by (simp add: views_def)
  have eq: "(stored_text w1 i \<noteq> None) = (m i \<noteq> None)"
    using views_entry [OF assms(1,2)] entry_None [of J w1 i] by simp
  show ?thesis
    by (rule wp_mono [OF wp_conj [OF nk_state_exists_wp [OF store_okD(1) [OF ok]]
        wp_obeys [OF nk_state_exists_obeys(1)]]])
      (use eq assms(3) views_cong [OF assms(1)] in auto)
qed

lemma wp_view_delete:
  assumes "views J w m w1" and "plain_name i"
    and "\<And>w'. views J w (m(i := None)) w' \<Longrightarrow> Q (if m i = None then -1 else 0) w'"
  shows "wp (nk_state_delete (Some i)) Q w1"
proof -
  have ok: "store_ok w1" using assms(1) by (simp add: views_def)
  have eq: "(stored_text w1 i = None) = (m i = None)"
    using views_entry [OF assms(1,2)] entry_None [of J w1 i] by simp
  show ?thesis
  proof (rule wp_mono [OF nk_state_delete_wp [OF ok assms(2)]], elim conjE)
    fix r :: int and w'
    assume r: "r = (if stored_text w1 i = None then - 1 else 0)"
      and out: "outcome w1 ((stored_text w1)(i := None)) w'"
    have "views J w (m(i := None)) w'"
      using out assms(1) by (auto simp: views_def outcome_def entry_def intro: static.trans)
    then show "Q r w'" using assms(3) r eq by simp
  qed
qed

text \<open>The identifier that a stored container carries, and saving it under that identifier.\<close>

context jansson_library begin

lemma wp_view_save:
  assumes "views J w m w1" and "good_container utf8 c" and "c_id c = Some i"
    and "\<And>w'. views J w (m(i := Some (Some (norm c)))) w' \<Longrightarrow> Q 0 w'"
  shows "wp (nk_state_save J (Some c)) Q w1"
proof -
  have ok: "store_ok w1" using assms(1) by (simp add: views_def)
  note save = st.save_law [OF ok assms(2)]
  have st: "wp (nk_state_save J (Some c)) (\<lambda>_. static_rel w1) w1"
    by (rule wp_obeys [OF nk_state_save_obeys(1)])
  show ?thesis
    by (rule wp_mono [OF wp_conj [OF save st]])
      (use assms in \<open>auto simp: views_def intro!: assms(4) intro: static.trans\<close>)
qed

end

section \<open>Frames\<close>

lemma only_log_explain_main [log_intros]: "only_log (explain n a b)"
  unfolding explain_def by (intro log_intros)

lemma only_log_summary [log_intros]: "only_log (log_oci_start_summary c s)"
  unfolding log_oci_start_summary_def by (cases c; cases s) (auto intro!: log_intros)

lemmas main_log_programs = only_log_explain_main only_log_summary only_log_usage
lemmas [wp_intros] = main_log_programs [THEN wp_only_log]
lemmas [static_intros] = main_log_programs [THEN only_log_rels(1)]
lemmas [grow_intros] = main_log_programs [THEN only_log_rels(2)]
lemmas [tree_intros] = main_log_programs [THEN only_log_rels(3)]
lemmas [calls_intros] = main_log_programs [THEN only_log_rels(4)]
lemmas [same_intros] = main_log_programs [THEN only_log_rels(5)]

lemma build_namespaces_obeys:
  "only_log (build_namespaces ns)"
  by (induction ns) (auto intro!: log_intros split: option.split)

lemma ctx_namespaces_obeys:
  "obeys static_rel (ctx_namespaces s)" "obeys same_fs (ctx_namespaces s)"
  "obeys (calls_rel store_call) (ctx_namespaces s)"
  unfolding ctx_namespaces_def
  by (intro static_intros build_namespaces_obeys [THEN only_log_rels(1)])
    (intro same_intros build_namespaces_obeys [THEN only_log_rels(5)],
     intro calls_intros build_namespaces_obeys [THEN only_log_rels(4)], simp_all)

lemma wait_signal_obeys:
  "obeys static_rel (nk_container_wait p)" "obeys same_fs (nk_container_wait p)"
  "obeys static_rel (nk_container_signal p s)" "obeys same_fs (nk_container_signal p s)"
  unfolding nk_container_wait_def nk_container_signal_def
  by (intro static_intros same_intros)+

lemma stop_init_obeys: "obeys static_rel (stop_init c)" "obeys same_fs (stop_init c)"
  unfolding stop_init_def by (intro static_intros same_intros wait_signal_obeys)+

lemma cleanup_obeys: "obeys static_rel (nk_cgroup_cleanup i)" "obeys same_fs (nk_cgroup_cleanup i)"
  unfolding nk_cgroup_cleanup_def nk_cgroup_delete_def cg_err_def Let_def
  by (intro static_intros same_intros)+

lemma main_dirs_obey:
  "obeys static_rel (main_mkdir_p p)" "obeys (calls_rel store_call) (main_mkdir_p p)"
  "obeys static_rel main_get_state_dir" "obeys same_fs main_get_state_dir"
  "obeys (calls_rel store_call) main_get_state_dir"
  unfolding main_mkdir_p_def main_get_state_dir_def
  by (intro static_intros mkdir_p_loop_obeys)
    (intro calls_intros mkdir_p_loop_obeys, simp_all,
     intro static_intros, intro same_intros, intro calls_intros)

section \<open>The state directory\<close>

text \<open>The copy of \<open>mkdir_p\<close> in \<open>main.c\<close> is the function of \<open>state.c\<close>; that of
  \<open>get_state_dir\<close> differs in what it logs only.\<close>

lemma main_mkdir_p_eq: "main_mkdir_p = mkdir_p"
  by (rule ext) (simp add: main_mkdir_p_def mkdir_p_def)

lemma wp_main_state_dir: "(\<And>l. Q (state_dir w) (w\<lparr>w_log := l\<rparr>)) \<Longrightarrow> wp main_get_state_dir Q w"
proof -
  assume Q: "\<And>l. Q (state_dir w) (w\<lparr>w_log := l\<rparr>)"
  have env: "Q (f w) w \<Longrightarrow> wp (gets f) Q w" for f :: "world \<Rightarrow> 'b" and Q by (rule wp_gets)
  have sd: "state_dir w = (if nonempty (w_env w ''NS_RUN_DIR'') then the (w_env w ''NS_RUN_DIR'')
      else if nonempty (w_env w ''NK_RUN_DIR'') then the (w_env w ''NK_RUN_DIR'')
      else if w_euid w = 0 then NS_STATE_DIR_ROOT
      else (let user_dir = the (w_env w ''HOME'') @ NS_STATE_DIR_USER_SUFFIX in
        if nonempty (w_env w ''HOME'') \<and> length user_dir < PATH_MAX then user_dir else ''run''))"
    by (simp add: state_dir_def get_state_dir_def geteuid_def run_if Let_def)
  show ?thesis
    unfolding main_get_state_dir_def getenv_def geteuid_def Let_def
    by (intro wp_bind wp_if wp_return env wp_log_calls) (use Q in \<open>auto simp: sd Let_def split: if_splits\<close>)
qed

lemma lookup_state_dir:
  assumes "store_ok w" and "lookup w (state_dir w) = Inr nd"
  shows "nd = Dir"
proof -
  have k: "resolve w (state_dir w) = Inr k \<Longrightarrow> k = base_key w" for k
    using store_okD(5) [OF assms(1)]
    by (auto simp: resolve_def Let_def walk_Inr base_key_def split: if_splits)
  with assms(2) have "node_at (w_fs w) (base_key w) = Some nd" by (auto simp: lookup_Inr)
  then show ?thesis
    using store_okD(6) [OF assms(1)] by (auto simp: free_way_def base_key_def)
qed

lemma wp_view_mkdir_p:
  assumes "views J w m v" and "p = state_dir v" and "\<And>w'. views J w m w' \<Longrightarrow> Q 0 w'"
  shows "wp (mkdir_p (Some p)) Q v"
  unfolding assms(2)
proof (rule wp_mkdir_p, goal_cases)
  case 1
  then show ?case using assms(1) by (simp add: views_def)
next
  case (2 w')
  have ok: "store_ok v" using assms(1) by (simp add: views_def)
  note d = dirs_made_store_ok [OF ok 2]
  have "file_key w' = file_key v" using 2(1) by (simp add: keys_static)
  then have "stored_text w' i = stored_text v i" if "plain_name i" for i
    using d(2) [of "[i, STATE_FILE]"]
    by (simp add: stored_text_node [OF ok that] stored_text_node [OF d(1) that] file_key_def)
  then have "views J w m w'"
    using assms(1) d(1) 2(1) by (auto simp: views_def entry_def intro: static.trans)
  then show ?case by (rule assms(3))
qed

lemma wp_view_ensure:
  assumes "views J w m w1" and "\<And>w'. views J w m w' \<Longrightarrow> Q 0 w'"
  shows "wp ensure_state_dir Q w1"
proof -
  have ok: "store_ok w1" using assms(1) by (simp add: views_def)
  show ?thesis
    unfolding ensure_state_dir_def main_mkdir_p_eq
    by (intro wp_bind wp_main_state_dir wp_stat wp_sum wp_if wp_return wp_log_calls
        wp_view_mkdir_p [where J = J and w = w and m = m])
      (use ok lookup_state_dir [OF ok] assms in \<open>simp_all add: store_okD(1)\<close>)
qed

lemma wp_ensure_there:
  assumes "reliable w1" and "lookup w1 (state_dir w1) = Inr Dir"
    and "\<And>w'. static_rel w1 w' \<Longrightarrow> w_fs w' = w_fs w1 \<Longrightarrow> Q 0 w'"
  shows "wp ensure_state_dir Q w1"
proof -
  have st: "static_rel w1 (tick c e (w1\<lparr>w_log := l\<rparr>))" for c e l by (simp add: static_rel_def)
  show ?thesis
    unfolding ensure_state_dir_def
    by (intro wp_bind wp_main_state_dir wp_stat wp_sum wp_if wp_return wp_log_calls)
      (use assms st in simp_all)
qed

section \<open>Create\<close>

definition good_options :: "(string \<Rightarrow> bool) \<Rightarrow> nk_options \<Rightarrow> bool" where
  "good_options utf8 opts \<longleftrightarrow> (\<exists>i. o_container_id opts = Some i \<and> plain_name i \<and> utf8 i)
     \<and> pred_option utf8 (o_bundle_path opts)"

text \<open>
  The new entry, written out: the container's name, the path of its bundle (a state file does
  not tell an empty path from none), the mode of the options, the state CREATED, no process.
\<close>

definition created :: "nk_options \<Rightarrow> nk_container" where
  "created opts = \<lparr>c_id = o_container_id opts,
     c_bundle_path = (if o_bundle_path opts = Some [] then None else o_bundle_path opts),
     c_state = NK_STATE_CREATED, c_mode = o_mode opts, c_init_pid = 0, c_state_file = None, c_control_fd = -1\<rparr>"

lemma created_fields [simp]:
  "c_state (created opts) = NK_STATE_CREATED" "c_init_pid (created opts) = 0"
  "c_id (created opts) = o_container_id opts" "c_mode (created opts) = o_mode opts"
  by (simp_all add: created_def)

text \<open>The container that is saved: \<open>created opts\<close> before its trip through the file.\<close>

definition filled :: "nk_options \<Rightarrow> nk_container" where
  "filled opts = (created opts)\<lparr>c_bundle_path := o_bundle_path opts\<rparr>"

lemma norm_filled: "norm (filled opts) = created opts"
  by (simp add: filled_def created_def norm_def to_pid_def)

lemma good_filled: "good_options utf8 opts \<Longrightarrow> good_container utf8 (filled opts)"
  by (auto simp: good_options_def good_container_def writable_def filled_def split: option.split)

lemma filled_id [simp]: "c_id (filled opts) = o_container_id opts"
  by (simp add: filled_def)

lemma wp_view_alloc: "views J w m w1 \<Longrightarrow> (\<And>w'. views J w m w' \<Longrightarrow> Q True w') \<Longrightarrow> wp alloc Q w1"
  by (rule wp_alloc) (simp_all add: views_def store_okD(1), simp add: views_def [symmetric])

lemma wp_view_new:
  assumes "views J w m w1" and "\<And>w'. views J w m w' \<Longrightarrow> Q (filled opts) w'"
  shows "wp (new_container opts) Q w1"
proof -
  have dup: "wp (strdup s) R w2" if "views J w m w2" "\<And>w'. views J w m w' \<Longrightarrow> R s w'" for s R w2
    unfolding strdup_def by (intro wp_bind wp_view_alloc [OF that(1)] wp_return) (simp add: that(2))
  have fill: "zero_container\<lparr>c_id := o_container_id opts, c_bundle_path := o_bundle_path opts,
       c_state := NK_STATE_CREATED, c_mode := o_mode opts, c_init_pid := 0, c_control_fd := -1\<rparr> = filled opts"
    by (simp add: zero_container_def filled_def created_def)
  show ?thesis
    unfolding new_container_def
    by (intro wp_bind dup wp_return) (use assms in \<open>simp_all add: fill\<close>)
qed

context jansson_library begin

lemma create_container_wp:
  assumes "views J w m w1" and "good_options utf8 opts" and "o_container_id opts = Some i"
    and "\<And>w'. views J w (m(i := Some (Some (created opts)))) w' \<Longrightarrow> Q 0 w'"
  shows "wp (create_container J opts) Q w1"
  unfolding create_container_def Let_def
  by (intro wp_bind wp_if wp_return wp_log_calls wp_view_alloc [where J = J and w = w and m = m]
      wp_view_new [where J = J and w = w and m = m]
      wp_view_save [OF _ good_filled [OF assms(2)], where i = i and w = w and m = m])
    (use assms in \<open>simp_all add: norm_filled\<close>)

lemma create_wp:
  assumes "views J w m w1" and "good_options utf8 opts" and "o_container_id opts = Some i"
    and "\<And>w'. m i = None \<Longrightarrow> views J w (m(i := Some (Some (created opts)))) w' \<Longrightarrow> Q 0 w'"
    and "\<And>w'. views J w m w' \<Longrightarrow> Q (-1) w'"
  shows "wp (nk_container_create J opts) Q w1"
proof -
  have i: "plain_name i" using assms(2,3) by (auto simp: good_options_def)
  show ?thesis
    unfolding nk_container_create_def assms(3)
    by (intro wp_bind wp_if wp_return wp_option wp_log_calls only_log_explain_main [THEN wp_only_log]
        only_log_validate [THEN wp_only_log]
        wp_view_ensure [where J = J and w = w and m = m]
        wp_view_exists [OF _ i, where J = J and w = w and m = m]
        wp_frame [OF spec_load_obeys(1,2), where J = J and w = w and t = m]
        create_container_wp [OF _ assms(2,3), where w = w and m = m])
      (use assms in simp_all)
qed

end

section \<open>Start\<close>

text \<open>
  \<open>known\<close>: every readable entry carries its own name and can be written again.
  \<open>int_answers\<close>: the numbers the kernel returns are C integers, and the pid that \<open>clone\<close>
  returns to the parent is positive.
\<close>

definition known :: "(string \<Rightarrow> bool) \<Rightarrow> entries \<Rightarrow> bool" where
  "known utf8 m \<longleftrightarrow> (\<forall>i c. plain_name i \<longrightarrow> m i = Some (Some c) \<longrightarrow>
     c_id c = Some i \<and> writable utf8 c \<and> norm c = c)"

definition c_int :: "int \<Rightarrow> bool" where
  "c_int v \<longleftrightarrow> - (2 ^ 31) \<le> v \<and> v < 2 ^ 31"

definition int_answers :: "world \<Rightarrow> bool" where
  "int_answers w \<longleftrightarrow> (\<forall>n p c. c_int (a_val (w_oracle w n p c)))
     \<and> (\<forall>n p f. 0 < a_val (w_oracle w n p (Clone f)))"

lemma int_answers_static: "static_rel w w' \<Longrightarrow> int_answers w' = int_answers w"
  by (simp add: int_answers_def static_rel_def)

lemma int_answers_simps [simp]:
  "int_answers (w\<lparr>w_log := l\<rparr>) = int_answers w" "int_answers (tick c e w) = int_answers w"
  by (rule int_answers_static; simp)+

lemma to_pid_c_int: "c_int v \<Longrightarrow> to_pid v = v"
  by (simp add: to_pid_def c_int_def signed_take_bit_int_eq_self)

lemma wp_kernel_int:
  "int_answers w \<Longrightarrow> (\<And>e. Q (Inl e) (tick c (Some e) w))
    \<Longrightarrow> (\<And>v. c_int v \<Longrightarrow> Q (Inr v) (tick c None w)) \<Longrightarrow> wp (kernel c) Q w"
  by (simp add: wp_def run_kernel int_answers_def next_answer_def split: option.split)

lemma wp_kernel_clone:
  "int_answers w \<Longrightarrow> (\<And>e. Q (Inl e) (tick (Clone f) (Some e) w))
    \<Longrightarrow> (\<And>v. c_int v \<Longrightarrow> 0 < v \<Longrightarrow> Q (Inr v) (tick (Clone f) None w)) \<Longrightarrow> wp (kernel (Clone f)) Q w"
  by (simp add: wp_def run_kernel int_answers_def next_answer_def split: option.split)

text \<open>What the functions that clone return: a positive pid or -1.\<close>

definition pid_or_fail :: "int \<Rightarrow> bool" where
  "pid_or_fail pid \<longleftrightarrow> c_int pid \<and> (pid = -1 \<or> 0 < pid)"

lemma pid_or_fail_fail [simp]: "pid_or_fail (-1)"
  by (simp add: pid_or_fail_def c_int_def)

lemma clone_pid:
  assumes "int_answers w"
  shows "wp (clone_and_wait c) (\<lambda>pid _. pid_or_fail pid) w"
proof -
  have e: "e_container_id (make_exec_ctx c) = None" by (simp add: make_exec_ctx_def)
  have child: "int_answers w \<Longrightarrow> (\<And>a w'. int_answers w' \<Longrightarrow> Q a w')
      \<Longrightarrow> wp (in_child Init (container_child_fn x)) Q w" for x Q w
    using obeys_post [OF static_in_child [OF static_child], of w Init x] int_answers_static
    by (simp add: wp_def)
  show ?thesis
    unfolding clone_and_wait_def Let_def e option.case
    by (intro wp_bind wp_if wp_return wp_log_calls wp_kernel_clone wp_kernel_int child)
      (use assms in \<open>simp_all add: pid_or_fail_def c_int_def\<close>)
qed

lemma exec_pid:
  assumes "int_answers w"
  shows "wp (nk_container_exec c) (\<lambda>pid _. pid_or_fail pid) w"
proof -
  have clone: "int_answers w \<Longrightarrow> (\<And>a w'. pid_or_fail a \<Longrightarrow> Q a w') \<Longrightarrow> wp (clone_and_wait x) Q w" for x Q w
    using clone_pid [of w x] by (simp add: wp_def)
  show ?thesis
    unfolding nk_container_exec_def alloc_def
    by (intro wp_option wp_bind wp_if wp_return wp_log_calls only_log_explain [THEN wp_only_log] wp_kernel_int clone)
      (use assms in simp_all)
qed

lemma wp_view_exec:
  assumes "views J w m w1" and "int_answers w" and "\<And>pid w'. pid_or_fail pid \<Longrightarrow> views J w m w' \<Longrightarrow> Q pid w'"
  shows "wp (nk_container_exec c) Q w1"
proof -
  have i: "int_answers w1" using assms(1,2) int_answers_static by (auto simp: views_def)
  have "wp (nk_container_exec c) (\<lambda>pid w'. pid_or_fail pid \<and> views J w m w') w1"
    by (intro wp_conj exec_pid [OF i] wp_frame [OF static_exec same_exec assms(1)])
  then show ?thesis by (rule wp_mono) (simp add: assms(3))
qed

text \<open>The entries a start leaves behind.\<close>

definition running :: "nk_container \<Rightarrow> int \<Rightarrow> nk_container" where
  "running c pid = c\<lparr>c_state := NK_STATE_RUNNING, c_init_pid := pid\<rparr>"

definition stopped :: "nk_container \<Rightarrow> nk_container" where
  "stopped c = c\<lparr>c_state := NK_STATE_STOPPED, c_init_pid := 0\<rparr>"

lemma norm_loaded:
  assumes "norm c = c" and "c_int pid"
  shows "norm (c\<lparr>c_state_file := f, c_state := NK_STATE_RUNNING, c_init_pid := pid\<rparr>) = running c pid"
    "norm (c\<lparr>c_state_file := f, c_state := NK_STATE_STOPPED, c_init_pid := 0\<rparr>) = stopped c"
proof -
  have "c_bundle_path c \<noteq> Some []" "c_control_fd c = -1" "c_state_file c = None"
    using arg_cong [OF assms(1), of c_bundle_path] arg_cong [OF assms(1), of c_control_fd]
      arg_cong [OF assms(1), of c_state_file]
    by (auto simp: norm_def split: if_splits)
  then show "norm (c\<lparr>c_state_file := f, c_state := NK_STATE_RUNNING, c_init_pid := pid\<rparr>) = running c pid"
    "norm (c\<lparr>c_state_file := f, c_state := NK_STATE_STOPPED, c_init_pid := 0\<rparr>) = stopped c"
    using to_pid_c_int [OF assms(2)] to_pid_c_int [of 0]
    by (simp_all add: norm_def running_def stopped_def c_int_def)
qed

definition known_container :: "(string \<Rightarrow> bool) \<Rightarrow> string \<Rightarrow> nk_container \<Rightarrow> bool" where
  "known_container utf8 i c \<longleftrightarrow> plain_name i \<and> c_id c = Some i \<and> writable utf8 c \<and> norm c = c"

lemma knownD: "known utf8 m \<Longrightarrow> plain_name i \<Longrightarrow> m i = Some (Some c) \<Longrightarrow> known_container utf8 i c"
  by (simp add: known_def known_container_def)

lemma good_update:
  assumes "known_container utf8 i c" and "c_int pid"
  shows "good_container utf8 (c\<lparr>c_state_file := f, c_state := st, c_init_pid := pid\<rparr>)"
  using assms by (auto simp: known_container_def good_container_def writable_def c_int_def split: option.splits)

context jansson_library begin

lemma wp_view_update:
  assumes "views J w m w1" and "known_container utf8 i c" and "c_int pid"
    and "\<And>w'. views J w (m(i := Some (Some (norm (c\<lparr>c_state_file := f, c_state := st, c_init_pid := pid\<rparr>))))) w' \<Longrightarrow> Q 0 w'"
  shows "wp (nk_state_save J (Some (c\<lparr>c_state_file := f, c_state := st, c_init_pid := pid\<rparr>))) Q w1"
proof (rule wp_view_save [OF assms(1) good_update [OF assms(2,3)]])
  show "c_id (c\<lparr>c_state_file := f, c_state := st, c_init_pid := pid\<rparr>) = Some i"
    using assms(2) by (simp add: known_container_def)
qed (rule assms(4))

lemma wait_attached_wp:
  assumes "views J w m w1" and "known_container utf8 i c"
    and "\<And>w'. views J w m w' \<Longrightarrow> Q (-1, 0) w'"
    and "\<And>s w'. views J w (m(i := Some (Some (stopped c)))) w' \<Longrightarrow> Q (0, start_exit_code s) w'"
  shows "wp (wait_attached J (c\<lparr>c_state_file := f, c_state := st, c_init_pid := p\<rparr>) pid) Q w1"
proof -
  have n: "norm c = c" using assms(2) by (simp add: known_container_def)
  have z: "c_int 0" by (simp add: c_int_def)
  have upd: "c\<lparr>c_state_file := f, c_state := st, c_init_pid := p\<rparr>\<lparr>c_state := NK_STATE_STOPPED, c_init_pid := 0\<rparr>
      = c\<lparr>c_state_file := f, c_state := NK_STATE_STOPPED, c_init_pid := 0\<rparr>"
    by simp
  show ?thesis
    unfolding wait_attached_def nk_container_wait_def Let_def upd
    by (intro wp_bind wp_if wp_return wp_sum wp_log_calls wp_kernel
        wp_view_update [OF _ assms(2) z, where w = w and m = m])
      (use assms norm_loaded(2) [OF n z] in simp_all)
qed

lemma launch_wp:
  assumes "views J w m w1" and "int_answers w" and "known_container utf8 i c"
    and "\<And>w'. views J w m w' \<Longrightarrow> Q (-1, 0) w'"
    and "\<And>pid w'. c_int pid \<Longrightarrow> 0 < pid \<Longrightarrow> \<not> attach \<Longrightarrow> views J w (m(i := Some (Some (running c pid)))) w' \<Longrightarrow> Q (0, 0) w'"
    and "\<And>pid w'. c_int pid \<Longrightarrow> 0 < pid \<Longrightarrow> attach \<Longrightarrow> views J w (m(i := Some (Some (running c pid)))) w' \<Longrightarrow> Q (-1, 0) w'"
    and "\<And>s w'. attach \<Longrightarrow> views J w (m(i := Some (Some (stopped c)))) w' \<Longrightarrow> Q (0, start_exit_code s) w'"
  shows "wp (launch J (c\<lparr>c_state_file := f\<rparr>) ctx attach) Q w1"
proof -
  have n: "norm c = c" using assms(3) by (simp add: known_container_def)
  have wait: "wp (wait_attached J (c\<lparr>c_state_file := f, c_state := NK_STATE_RUNNING, c_init_pid := pid\<rparr>) pid) Q w2"
    if "views J w (m(i := Some (Some (running c pid)))) w2" "attach" "c_int pid" "0 < pid" for pid w2
    by (rule wait_attached_wp [OF that(1) assms(3)]) (use assms(6,7) that in simp_all)
  show ?thesis
    unfolding launch_def Let_def
    apply (intro wp_bind wp_if wp_return wp_log_calls only_log_explain_main [THEN wp_only_log]
        wp_view_exec [where J = J and w = w and m = m]
        wp_view_update [OF _ assms(3), where w = w and m = m] wait)
    apply (use assms norm_loaded [OF n] in \<open>simp_all add: pid_or_fail_def\<close>)
    apply (elim conjE, simp)
    done
qed

end

lemma loaded_Some: "m i = Some (Some c) \<Longrightarrow> loaded w m i = Some (c\<lparr>c_state_file := Some (state_path w i)\<rparr>)"
  by (simp add: loaded_def)

lemma loaded_cases:
  obtains (none) "\<And>c. m i \<noteq> Some (Some c)" "loaded w m i = None"
    | (some) c where "m i = Some (Some c)"
  by (cases "m i"; cases "the (m i)") (auto simp: loaded_def)

text \<open>
  The ways a start of the container \<open>i\<close> can end, as a relation between the result, the entries
  before and the entries after. \<open>None\<close> is the crash.
\<close>

inductive start_outcome :: "string \<Rightarrow> bool \<Rightarrow> entries \<Rightarrow> (int \<times> int) option \<Rightarrow> entries \<Rightarrow> bool"
  for i :: string and attach :: bool and m :: entries where
  refused: "start_outcome i attach m (Some (-1, 0)) m"
| crashed: "m i = Some (Some c) \<Longrightarrow> c_state c = NK_STATE_CREATED \<Longrightarrow> c_mode c = NK_MODE_CONTAINER \<Longrightarrow>
    start_outcome i attach m None m"
| detached: "m i = Some (Some c) \<Longrightarrow> c_state c = NK_STATE_CREATED \<Longrightarrow> c_mode c = NK_MODE_CONTAINER \<Longrightarrow>
    \<not> attach \<Longrightarrow> c_int pid \<Longrightarrow> 0 < pid \<Longrightarrow>
    start_outcome i attach m (Some (0, 0)) (m(i := Some (Some (running c pid))))"
| lost: "m i = Some (Some c) \<Longrightarrow> c_state c = NK_STATE_CREATED \<Longrightarrow> c_mode c = NK_MODE_CONTAINER \<Longrightarrow>
    attach \<Longrightarrow> c_int pid \<Longrightarrow> 0 < pid \<Longrightarrow>
    start_outcome i attach m (Some (-1, 0)) (m(i := Some (Some (running c pid))))"
| finished: "m i = Some (Some c) \<Longrightarrow> c_state c = NK_STATE_CREATED \<Longrightarrow> c_mode c = NK_MODE_CONTAINER \<Longrightarrow>
    attach \<Longrightarrow>
    start_outcome i attach m (Some (0, start_exit_code s)) (m(i := Some (Some (stopped c))))"

inductive_cases start_outcomeE: "start_outcome i attach m r m'"

context jansson_library begin

lemma start_wp:
  assumes "views J w m w1" and "int_answers w" and "known utf8 m" and "plain_name i"
    and Q: "\<And>r m' w'. start_outcome i attach m r m' \<Longrightarrow> views J w m' w' \<Longrightarrow> Q r w'"
  shows "wp (nk_container_start J (Some i) attach) Q w1"
proof (cases rule: loaded_cases [of m i w])
  case none
  then show ?thesis
    unfolding nk_container_start_def
    by (intro wp_bind wp_log_calls only_log_explain_main [THEN wp_only_log]
        wp_view_load [OF _ assms(4), where J = J and w = w and m = m])
      (auto simp: assms(1) intro!: wp_bind wp_return wp_log_calls Q [OF refused])
next
  case (some c)
  have k: "known_container utf8 i c" by (rule knownD [OF assms(3,4) some])
  have ns: "wp (ctx_namespaces s) R w2" if "views J w m w2" "\<And>a w'. views J w m w' \<Longrightarrow> R a w'" for s R w2
    by (rule wp_frame [OF ctx_namespaces_obeys(1,2) that])
  have launch: "wp (launch J (c\<lparr>c_state_file := f\<rparr>) ctx attach) (\<lambda>r. wp (ret (Some r)) Q) w2"
    if "views J w m w2" "c_state c = NK_STATE_CREATED" "c_mode c \<noteq> NK_MODE_VM" for f ctx w2
  proof -
    have mode: "c_mode c = NK_MODE_CONTAINER" using that(3) by (cases "c_mode c") auto
    show ?thesis
      by (rule launch_wp [OF that(1) assms(2) k])
        (auto intro: wp_return Q [OF refused] Q [OF detached [where m = m and i = i, OF some that(2) mode]]
          Q [OF lost [where m = m and i = i, OF some that(2) mode]]
          Q [OF finished [where m = m and i = i, OF some that(2) mode]])
  qed
  have crash: "Q None w2" if "views J w m w2" "c_state c = NK_STATE_CREATED" "c_mode c \<noteq> NK_MODE_VM" for w2
  proof -
    have mode: "c_mode c = NK_MODE_CONTAINER" using that(3) by (cases "c_mode c") auto
    show ?thesis by (rule Q [OF crashed [where attach = attach and m = m and i = i, OF some that(2) mode] that(1)])
  qed
  show ?thesis
    unfolding nk_container_start_def
    apply (intro wp_bind wp_log_calls only_log_explain_main [THEN wp_only_log]
        wp_view_load [OF _ assms(4), where J = J and w = w and m = m])
    apply (simp add: assms(1))
    unfolding loaded_Some [where m = m and i = i, OF some] option.case
    apply (intro wp_bind wp_if wp_return wp_option wp_prod wp_log_calls only_log_summary [THEN wp_only_log]
        wp_frame [OF spec_load_obeys(1,2), where J = J and w = w and t = m] ns launch)
    apply (simp_all add: Q [OF refused] crash)
    done
qed

end

section \<open>Delete and state\<close>

inductive delete_outcome :: "string \<Rightarrow> entries \<Rightarrow> int \<Rightarrow> entries \<Rightarrow> bool"
  for i :: string and m :: entries where
  missing: "(\<And>c. m i \<noteq> Some (Some c)) \<Longrightarrow> delete_outcome i m (-1) m"
| removed: "m i = Some (Some c) \<Longrightarrow> delete_outcome i m 0 (m(i := None))"

inductive_cases delete_outcomeE: "delete_outcome i m r m'"

lemma delete_wp:
  assumes "views J w m w1" and "plain_name i"
    and Q: "\<And>r m' w'. delete_outcome i m r m' \<Longrightarrow> views J w m' w' \<Longrightarrow> Q r w'"
  shows "wp (nk_container_delete J (Some i)) Q w1"
proof (cases rule: loaded_cases [of m i w])
  case none
  then show ?thesis
    unfolding nk_container_delete_def
    by (intro wp_bind wp_log_calls wp_view_load [OF _ assms(2), where J = J and w = w and m = m])
      (auto simp: assms(1) intro!: wp_bind wp_return wp_log_calls Q [OF missing])
next
  case (some c)
  show ?thesis
    unfolding nk_container_delete_def
    apply (intro wp_bind wp_log_calls wp_view_load [OF _ assms(2), where J = J and w = w and m = m])
    apply (simp add: assms(1))
    unfolding loaded_Some [where m = m and i = i, OF some] option.case
    apply (intro wp_bind wp_if wp_return wp_log_calls
        wp_frame [OF stop_init_obeys, where J = J and w = w and t = m]
        wp_frame [OF cleanup_obeys, where J = J and w = w and t = m]
        wp_view_delete [OF _ assms(2), where J = J and w = w and m = m])
    apply (simp_all add: Q [OF removed [where m = m and i = i, OF some]])
    done
qed

lemma state_wp:
  assumes "views J w m w1" and "plain_name i"
    and "\<And>w'. views J w m w' \<Longrightarrow> Q (case m i of Some (Some c) \<Rightarrow> c_state c | _ \<Rightarrow> NK_STATE_INVALID) w'"
  shows "wp (nk_container_state J (Some i)) Q w1"
proof (cases rule: loaded_cases [of m i w])
  case none
  have "(case m i of Some (Some c) \<Rightarrow> c_state c | _ \<Rightarrow> NK_STATE_INVALID) = NK_STATE_INVALID"
    using none(1) by (auto split: option.split)
  with none show ?thesis
    unfolding nk_container_state_def
    by (intro wp_bind wp_view_load [OF _ assms(2), where J = J and w = w and m = m])
      (use assms(3) in \<open>auto simp: assms(1) intro!: wp_bind wp_return wp_log_calls split: option.splits\<close>)
next
  case (some c)
  show ?thesis
    unfolding nk_container_state_def
    by (intro wp_bind wp_view_load [OF _ assms(2), where J = J and w = w and m = m])
      (use assms(3) in \<open>auto simp: assms(1) loaded_Some [where m = m and i = i, OF some] some intro!: wp_return\<close>)
qed

section \<open>Run\<close>

inductive run_outcome :: "nk_options \<Rightarrow> string \<Rightarrow> entries \<Rightarrow> int option \<Rightarrow> entries \<Rightarrow> bool"
  for opts :: nk_options and i :: string and m :: entries where
  not_created: "run_outcome opts i m (Some (-1)) m"
| crashed: "m i = None \<Longrightarrow> start_outcome i (o_attach opts) (m(i := Some (Some (created opts)))) None m' \<Longrightarrow>
    run_outcome opts i m None m'"
| kept: "m i = None \<Longrightarrow> start_outcome i (o_attach opts) (m(i := Some (Some (created opts)))) (Some (r, e)) m' \<Longrightarrow>
    \<not> o_rm opts \<Longrightarrow> run_outcome opts i m (Some (if r = -1 then -1 else if o_attach opts then e else 0)) m'"
| cleaned: "m i = None \<Longrightarrow> start_outcome i (o_attach opts) (m(i := Some (Some (created opts)))) (Some (r, e)) m' \<Longrightarrow>
    o_rm opts \<Longrightarrow> delete_outcome i m' d m'' \<Longrightarrow>
    run_outcome opts i m (Some (if r = -1 \<or> d = -1 then -1 else if o_attach opts then e else 0)) m''"

inductive_cases run_outcomeE: "run_outcome opts i m r m'"

lemma known_upd:
  "known utf8 m \<Longrightarrow> (plain_name i \<Longrightarrow> known_container utf8 i c) \<Longrightarrow> known utf8 (m(i := Some (Some c)))"
  by (auto simp: known_def known_container_def)

lemma known_del: "known utf8 m \<Longrightarrow> known utf8 (m(i := None))"
  by (simp add: known_def)

lemma norm_norm [simp]: "norm (norm c) = norm c"
  using to_pid_c_int by (simp add: norm_def to_pid_def)

lemma known_created:
  assumes "good_options utf8 opts" and "o_container_id opts = Some i"
  shows "known_container utf8 i (created opts)"
proof -
  have "writable utf8 (created opts)"
    using assms(1) by (auto simp: good_options_def writable_def created_def split: option.split)
  moreover have "norm (created opts) = created opts" using norm_norm [of "filled opts"] by (simp add: norm_filled)
  ultimately show ?thesis using assms by (auto simp: known_container_def good_options_def)
qed

lemma known_running:
  assumes "known_container utf8 i c" and "c_int pid"
  shows "known_container utf8 i (running c pid)" "known_container utf8 i (stopped c)"
proof -
  have n: "norm c = c" using assms(1) by (simp add: known_container_def)
  have "norm (running c pid) = running c pid" "norm (stopped c) = stopped c"
    using norm_norm norm_loaded [OF n assms(2)] by metis+
  with assms show "known_container utf8 i (running c pid)" "known_container utf8 i (stopped c)"
    by (auto simp: known_container_def writable_def running_def stopped_def c_int_def split: option.splits)
qed

context jansson_library begin

lemma run_wp:
  assumes "views J w m w1" and "int_answers w" and "known utf8 m" and "good_options utf8 opts"
    and "o_container_id opts = Some i"
    and Q: "\<And>r m' w'. run_outcome opts i m r m' \<Longrightarrow> views J w m' w' \<Longrightarrow> Q r w'"
  shows "wp (nk_container_run J (Some opts)) Q w1"
proof -
  have i: "plain_name i" using assms(4,5) by (auto simp: good_options_def)
  let ?m = "m(i := Some (Some (created opts)))"
  have known: "known utf8 ?m" by (rule known_upd [OF assms(3) known_created [OF assms(4,5)]])
  have rest: "wp (finish_run J opts s) Q w2"
    if s: "start_outcome i (o_attach opts) ?m s m'" "m i = None" and v: "views J w m' w2" for s m' w2
  proof (cases s)
    case None
    with s show ?thesis by (simp add: finish_run_def wp_return Q [OF crashed] v)
  next
    case (Some re)
    obtain r e where re: "s = Some (r, e)" using Some by (cases re) simp
    note so = s(1) [unfolded re]
    have kept: "Q (Some x) w2"
      if "\<not> o_rm opts" "x = (if r = -1 then -1 else if o_attach opts then e else 0)" for x
      using Q [OF run_outcome.kept [OF s(2) so that(1)] v] by (simp only: that(2))
    have cleaned: "Q (Some x) w'"
      if "delete_outcome i m' d m''" "views J w m'' w'" "o_rm opts"
        "x = (if r = -1 \<or> d = -1 then -1 else if o_attach opts then e else 0)" for d m'' w' x
      using Q [OF run_outcome.cleaned [OF s(2) so that(3,1)] that(2)] by (simp only: that(4))
    show ?thesis
      unfolding finish_run_def re option.case prod.case assms(5)
      by (intro wp_bind wp_if wp_return wp_log_calls delete_wp [OF _ i, where J = J and w = w and m = m'])
        (rule views_log [OF v], (erule (1) cleaned; simp), (rule kept; simp), rule views_log [OF v],
         (erule (1) cleaned; simp), (erule (1) cleaned; simp), simp, (rule kept; simp))
  qed
  show ?thesis
    unfolding nk_container_run_def option.case assms(5)
    apply (intro wp_bind wp_log_calls wp_if wp_return create_wp [OF _ assms(4,5), where w = w and m = m])
    apply (simp_all add: assms(1) Q [OF not_created])
    apply (rule start_wp [OF _ assms(2) known i], assumption)
    apply (simp add: rest)
    done
qed

end

section \<open>Exec\<close>

text \<open>Entering a container changes at most a running entry whose process is gone.\<close>

inductive resume_outcome :: "string \<Rightarrow> entries \<Rightarrow> entries \<Rightarrow> bool" for i :: string and m :: entries where
  same: "resume_outcome i m m"
| found_dead: "m i = Some (Some c) \<Longrightarrow> c_state c = NK_STATE_RUNNING \<Longrightarrow> 0 < c_init_pid c \<Longrightarrow>
    resume_outcome i m (m(i := Some (Some (stopped c))))"

inductive_cases resume_outcomeE: "resume_outcome i m m'"

lemma pid_checks_obey:
  "obeys static_rel (is_pid_alive p)" "obeys same_fs (is_pid_alive p)"
  "obeys static_rel is_procfs_available" "obeys same_fs is_procfs_available"
  "obeys static_rel (has_pid_namespace_handles p)" "obeys same_fs (has_pid_namespace_handles p)"
  unfolding is_pid_alive_def is_procfs_available_def has_pid_namespace_handles_def
  by (intro static_intros same_intros)+

lemma nsenter_obeys:
  "obeys static_rel (in_child p (exec_nsenter a))" "obeys same_fs (in_child p (exec_nsenter a))"
  unfolding exec_nsenter_def by (intro static_intros same_intros)+

context jansson_library begin

lemma update_stopped_wp:
  assumes "views J w m w1" and "known_container utf8 i c" and "m i = Some (Some c)"
    and Q: "\<And>m' w'. resume_outcome i m m' \<Longrightarrow> views J w m' w' \<Longrightarrow> Q () w'"
  shows "wp (update_stopped_state_if_dead J (Some (c\<lparr>c_state_file := f\<rparr>))) Q w1"
proof -
  have n: "norm c = c" using assms(2) by (simp add: known_container_def)
  have z: "c_int 0" by (simp add: c_int_def)
  have dead: "resume_outcome i m (m(i := Some (Some (stopped c))))"
    if "c_state c = NK_STATE_RUNNING" "0 < c_init_pid c"
    by (rule found_dead [where m = m and i = i, OF assms(3) that])
  show ?thesis
    unfolding update_stopped_state_if_dead_def option.case
    by (intro wp_bind wp_if wp_return wp_log_calls wp_frame [OF pid_checks_obey(1,2), where J = J and w = w and t = m]
        wp_view_update [OF _ assms(2) z, where w = w and m = m])
      (use assms(1) dead Q same [of i m] norm_loaded(2) [OF n z] in simp_all)
qed

lemma resume_wp:
  assumes "views J w m w1" and "known utf8 m" and "plain_name i"
    and Q: "\<And>r m' w'. resume_outcome i m m' \<Longrightarrow> views J w m' w' \<Longrightarrow> Q r w'"
  shows "wp (nk_container_resume J (Some i) cmd) Q w1"
proof (cases rule: loaded_cases [of m i w])
  case none
  then show ?thesis
    unfolding nk_container_resume_def
    by (intro wp_bind wp_log_calls wp_view_load [OF _ assms(3), where J = J and w = w and m = m])
      (auto simp: assms(1) intro!: wp_bind wp_return wp_log_calls Q [OF same])
next
  case (some c)
  have k: "known_container utf8 i c" by (rule knownD [OF assms(2,3) some])
  note upd = update_stopped_wp [where w = w and m = m and i = i, OF _ k some]
  show ?thesis
    unfolding nk_container_resume_def
    apply (intro wp_bind wp_log_calls wp_view_load [OF _ assms(3), where J = J and w = w and m = m])
    apply (simp add: assms(1))
    unfolding loaded_Some [where m = m and i = i, OF some] option.case enter_namespaces_def Let_def
    apply (intro wp_bind wp_if wp_return wp_sum wp_log_calls wp_kernel upd
        wp_frame [OF pid_checks_obey(1,2), where J = J and w = w and t = m]
        wp_frame [OF pid_checks_obey(3,4), where J = J and w = w and t = m]
        wp_frame [OF pid_checks_obey(5,6), where J = J and w = w and t = m]
        wp_frame [OF nsenter_obeys, where J = J and w = w and t = m])
    apply (simp_all add: Q [OF same] Q)
    done
qed

end

section \<open>The pid file\<close>

text \<open>
  A pid file is written wherever the option says. \<open>apart w p\<close>: the path \<open>p\<close> leads, without \<open>..\<close>,
  neither into the state directory nor over a directory on the way to it. Then the entries stay.
\<close>

definition path_key :: "world \<Rightarrow> string \<Rightarrow> string list" where
  "path_key w p = start_of w p @ comps p"

definition apart :: "world \<Rightarrow> string \<Rightarrow> bool" where
  "apart w p \<longleftrightarrow> p = [] \<or> (''..'' \<notin> set (comps p)
     \<and> \<not> prefix (path_key w p) (base_key w) \<and> \<not> prefix (base_key w) (path_key w p))"

lemma apart_static: "static_rel w w' \<Longrightarrow> apart w' = apart w" "static_rel w w' \<Longrightarrow> path_key w' = path_key w"
  by (simp_all add: apart_def path_key_def keys_static start_of_static fun_eq_iff)

text \<open>Only the node at \<open>k\<close> changes.\<close>

definition touch_rel :: "string list \<Rightarrow> world \<Rightarrow> world \<Rightarrow> bool" where
  "touch_rel k w w' \<longleftrightarrow> (\<forall>k'. k' \<noteq> k \<longrightarrow> node_at (w_fs w') k' = node_at (w_fs w) k')
     \<and> (fs_wf (w_fs w) \<longrightarrow> fs_wf (w_fs w')) \<and> static_rel w w'"

interpretation touch: step_rel "touch_rel k" for k
  by unfold_locales (auto simp: touch_rel_def static_rel_def)

lemma touch_writes: "obeys (touch_rel k) (sys_fwrite p k s)" "obeys (touch_rel k) (sys_fclose_w p k)"
  unfolding fs_calls
  by (rule obeys_syscall;
      auto simp: touch_rel_def static_rel_def fs_wf_file_edit node_append_file node_cut_file split: option.split node.split)+

lemma touch_log: "obeys (touch_rel k) (mn_log l n)"
  by (rule obeys_only_log [OF only_log_calls(1)]) (simp add: touch_rel_def static_rel_def)

lemma wp_fopen_touch:
  assumes "''..'' \<notin> set (comps p)" and "fs_wf (w_fs w)"
    and "\<And>e w'. touch_rel (path_key w p) w w' \<Longrightarrow> Q (Inl e) w'"
    and "\<And>w'. touch_rel (path_key w p) w w' \<Longrightarrow> Q (Inr (path_key w p)) w'"
  shows "wp (sys_fopen_w p) Q w"
proof -
  have same: "touch_rel k w (tick c e w)" for k c e by (simp add: touch_rel_def static_rel_def)
  have key: "k = path_key w p" if "resolve w p = Inr k" for k
    using that assms(1) by (auto simp: resolve_def path_key_def Let_def walk_Inr split: if_splits)
  have new: "touch_rel (path_key w p) w ((tick c e w)\<lparr>w_fs := put_node (path_key w p) (Reg []) (w_fs w)\<rparr>)"
    if "resolve w p = Inr (path_key w p)" "node_at (w_fs w) (path_key w p) \<noteq> Some Dir" for c e
  proof -
    let ?k = "path_key w p"
    have "?k \<noteq> [] \<and> node_at (w_fs w) (butlast ?k) = Some Dir"
    proof (cases "node_at (w_fs w) ?k")
      case None
      then show ?thesis using resolve_new [OF that(1) assms(2)] by blast
    next
      case (Some nd)
      then show ?thesis using that(2) fs_wf_butlast [OF assms(2) Some] by auto
    qed
    then show ?thesis
      using that(2) assms(2) by (auto simp: touch_rel_def static_rel_def intro: fs_wf_put)
  qed
  show ?thesis
    unfolding sys_fopen_w_def
  proof (rule wp_syscall)
    fix e show "Q (Inl e) ((tick (FopenW p) (Some e) w)\<lparr>w_fs := w_fs w\<rparr>)"
      by (simp add: assms(3) same)
  next
    fix r fs
    assume f: "(case resolve w p of Inl e \<Rightarrow> (Inl e, w_fs w)
      | Inr k \<Rightarrow> (case node_at (w_fs w) k of Some Dir \<Rightarrow> (Inl EISDIR, w_fs w) | Some Special \<Rightarrow> (Inr k, w_fs w)
         | _ \<Rightarrow> (Inr k, put_node k (Reg []) (w_fs w)))) = (r, fs)"
    show "Q r ((tick (FopenW p) (err_of r) w)\<lparr>w_fs := fs\<rparr>)"
    proof (cases "resolve w p")
      case (Inl e)
      with f have "r = Inl e" "fs = w_fs w" by simp_all
      then show ?thesis by (simp add: assms(3) same)
    next
      case (Inr k)
      then have k: "k = path_key w p" by (rule key)
      note new = new [OF Inr [unfolded k]]
      show ?thesis
      proof (cases "node_at (w_fs w) k")
        case None
        with f Inr k have "r = Inr (path_key w p)" "fs = put_node (path_key w p) (Reg []) (w_fs w)" by simp_all
        with None show ?thesis by (simp add: k assms(4) new)
      next
        case (Some nd)
        with f Inr k have "(r, fs) = (case nd of Dir \<Rightarrow> (Inl EISDIR, w_fs w) | Special \<Rightarrow> (Inr (path_key w p), w_fs w)
            | _ \<Rightarrow> (Inr (path_key w p), put_node (path_key w p) (Reg []) (w_fs w)))"
          by simp
        with Some show ?thesis by (cases nd) (simp_all add: k assms(3,4) same new)
      qed
    qed
  qed
qed

lemma views_touch:
  assumes "views J w m w1" and "apart w p" and "p \<noteq> []" and "touch_rel (path_key w1 p) w1 w2"
  shows "views J w m w2"
proof -
  have w1: "store_ok w1" "static_rel w w1" using assms(1) by (simp_all add: views_def)
  have t: "fs_wf (w_fs w2)" "static_rel w1 w2"
    and same: "k \<noteq> path_key w1 p \<Longrightarrow> node_at (w_fs w2) k = node_at (w_fs w1) k" for k
    using assms(4) store_okD(2) [OF w1(1)] by (auto simp: touch_rel_def)
  have ap: "\<not> prefix (path_key w1 p) (base_key w1)" "\<not> prefix (base_key w1) (path_key w1 p)"
    using assms(2,3) apart_static [OF w1(2)] keys_static [OF w1(2)] by (auto simp: apart_def)
  have n: "node_at (w_fs w2) (base_key w1 @ ks) = node_at (w_fs w1) (base_key w1 @ ks)" for ks
    by (rule same) (metis ap(2) prefixI)
  have "node_at (w_fs w2) (start_of w1 (state_dir w1) @ q) = node_at (w_fs w1) (start_of w1 (state_dir w1) @ q)"
    if "prefix q (comps (state_dir w1))" for q
    by (rule same) (metis ap(1) base_key_def that same_prefix_prefix)
  then have ok: "store_ok w2"
    by (intro store_ok_change [OF w1(1) t(2,1)]) (auto simp: n file_key_def)
  have "stored_text w2 i = stored_text w1 i" if "plain_name i" for i
    using keys_static [OF t(2)] by (simp add: stored_text_node [OF ok that] stored_text_node [OF w1(1) that] file_key_def n)
  then show ?thesis
    using assms(1) ok t(2) by (auto simp: views_def entry_def intro: static.trans)
qed

lemma wp_view_pid:
  assumes "views J w m w1" and "apart w p" and "\<And>r w'. r = 0 \<or> r = -1 \<Longrightarrow> views J w m w' \<Longrightarrow> Q r w'"
  shows "wp (write_pid_file (Some p) pid) Q w1"
proof (cases "p = []")
  case True
  then show ?thesis by (simp add: write_pid_file_def wp_return assms)
next
  case False
  let ?k = "path_key w1 p"
  have dots: "''..'' \<notin> set (comps p)" using assms(2) False by (simp add: apart_def)
  have wf: "fs_wf (w_fs w1)" using assms(1) by (simp add: views_def store_okD(2))
  have rest: "wp M Q w2" if "obeys (touch_rel ?k) M" "touch_rel ?k w1 w2" "res M w2 = 0 \<or> res M w2 = -1" for M w2
    using assms(3) [OF that(3)] views_touch [OF assms(1,2) False] touch.trans [OF that(2)] that(1)
    by (auto simp: wp_def obeys_def)
  show ?thesis
    unfolding write_pid_file_def option.sel
    by (intro wp_if wp_bind wp_fopen_touch [OF dots wf] wp_return)
      (use False in \<open>auto intro!: rest touch.rules touch_writes touch_log simp: split_def assms(1,3)\<close>)
qed

lemma wp_view_container_pid:
  assumes "views J w m w1" and "plain_name i" and "apart w p"
    and "\<And>r w'. r = 0 \<or> r = -1 \<Longrightarrow> views J w m w' \<Longrightarrow> Q r w'"
  shows "wp (write_container_pid_file J (Some p) (Some i)) Q w1"
  unfolding write_container_pid_file_def option.case
  by (intro wp_bind wp_view_load [OF assms(1,2)] wp_option wp_if wp_return wp_log_calls
      wp_view_pid [OF _ assms(3), where J = J and m = m])
    (use assms(4) in simp_all)

end
