(* ===== verification/LifecycleProperties.thy ===== *)
theory LifecycleProperties
  imports LifecycleFacts
begin

text \<open>
  The properties of the lifecycle commands: which containers a command may create, change and
  remove, which calls it makes, and what it returns. The hypotheses are the invariant of the
  store (\<open>store_ok\<close>), the laws of jansson and, where an entry is rewritten, that the entries
  were written by the program (\<open>known\<close>) and that the kernel's numbers are C integers
  (\<open>int_answers\<close>); the kernel may refuse every call that is not one of the store. The
  witnesses run the commands on a bundle and a store of their own.
\<close>

section \<open>A concrete world with a bundle and an empty store\<close>

definition life_world :: world where
  "life_world = demo_world\<lparr>w_fs := [([''b''], Dir), ([''b'', CONFIG_JSON], Reg (print_rj demo_doc)),
     ([''run''], Dir), ([''run'', ''ns''], Dir)]\<rparr>"

definition life_opts :: nk_options where
  "life_opts = default_options\<lparr>o_command := ''create'', o_container_id := Some ''web'', o_bundle_path := Some ''/b''\<rparr>"

lemma node_life: "node_at (w_fs life_world) k = (if k \<in> {[], [''b''], [''run''], [''run'', ''ns'']} then Some Dir
    else if k = [''b'', CONFIG_JSON] then Some (Reg (print_rj demo_doc)) else None)"
  by (simp add: life_world_def node_at_def)

lemma life_static: "static_rel demo_world life_world"
  by (simp add: life_world_def static_rel_def)

lemma life_state_dir: "state_dir life_world = ''/run/ns''"
  using state_dir_static [OF life_static] by (simp add: demo_state_dir)

lemma life_faultless: "faultless life_world"
  by (simp add: faultless_def life_world_def demo_world_def)

lemma life_reliable: "reliable life_world"
  by (rule faultless_reliable [OF life_faultless]) (simp add: life_world_def demo_world_def)

lemma life_wf: "fs_wf (w_fs life_world)"
  unfolding fs_wf_def node_life by (auto simp: append_eq_Cons_conv)

lemma life_store_ok: "store_ok life_world"
  by (simp add: store_ok_def life_reliable life_wf life_state_dir demo_comps free_way_def PATH_MAX_def
      base_key_def file_key_def start_of_def absolute_def node_life)

lemma life_empty: "plain_name i \<Longrightarrow> entry RefJ life_world i = None"
  by (simp add: entry_None stored_text_node life_store_ok file_key_def base_key_def life_state_dir demo_comps
      start_of_def absolute_def node_life)

lemma life_known: "known (\<lambda>_. True) (entry RefJ life_world)"
  by (simp add: known_def life_empty)

lemma life_ints: "int_answers life_world"
  by (simp add: int_answers_def c_int_def life_world_def demo_world_def)

lemma life_good: "good_options (\<lambda>_. True) life_opts" "o_container_id life_opts = Some ''web''"
  by (simp_all add: good_options_def life_opts_def)

lemma life_lookup: "lookup life_world ''/run/ns'' = Inr Dir" "lookup life_world ''/b'' = Inr Dir"
    "lookup life_world ''/b/config.json'' = Inr (Reg (print_rj demo_doc))"
  by (simp_all add: lookup_def resolve_def start_of_def absolute_def comps_def node_life CONFIG_JSON_def)

lemma life_document: "bundle_document RefJ life_world (Some ''/b'') = Some demo_doc"
proof -
  have path: "config_path ''/b'' = ''/b/config.json''"
    by (simp add: config_path_def snprintf_n_id PATH_MAX_def CONFIG_JSON_def)
  show ?thesis
    by (simp add: bundle_document_def path life_lookup demo_doc_parses demo_doc_length del: print_rj.simps)
qed

section \<open>Wait statuses\<close>

text \<open>The wait status of a process that exited with a code, and of one that a signal killed.\<close>

definition exited :: "8 word \<Rightarrow> 32 word" where
  "exited code = push_bit 8 (ucast code)"

definition killed :: "7 word \<Rightarrow> bool \<Rightarrow> 32 word" where
  "killed sig core = ucast sig OR push_bit 7 (of_bool core)"

text \<open>The macros of \<open>sys/wait.h\<close> on the bits of a status.\<close>

lemma low_bits: "s AND 0x7F = take_bit 7 (s::32 word)" "s AND 0xFF00 = push_bit 8 (take_bit 8 (drop_bit 8 (s::32 word)))"
proof -
  have m: "(0x7F::32 word) = mask 7" "(0xFF00::32 word) = push_bit 8 (mask 8)" by (simp_all add: mask_eq_exp_minus_1 push_bit_eq_mult)
  show "s AND 0x7F = take_bit 7 s" unfolding m by (simp add: take_bit_eq_mask)
  show "s AND 0xFF00 = push_bit 8 (take_bit 8 (drop_bit 8 s))"
    unfolding m by (rule bit_word_eqI) (auto simp: bit_simps)
qed

lemma signal_table: "list_all (\<lambda>n. (0 < sint (signed_drop_bit 1 (ucast ((word_of_nat n :: 32 word) + 1) :: 8 word)))
    = (n \<noteq> 0 \<and> n \<noteq> 127)) [0..<128]"
  by code_simp

lemma WIFSIGNALED_iff: "WIFSIGNALED s \<longleftrightarrow> take_bit 7 s \<noteq> 0 \<and> take_bit 7 s \<noteq> 127"
proof -
  let ?n = "unat (take_bit 7 s)"
  have n: "?n < 128" using take_bit_nat_less_exp [of 7 "unat s"] by (simp only: unsigned_take_bit_eq) simp
  have w: "take_bit 7 s = word_of_nat ?n" by simp
  have "?n = 0 \<longleftrightarrow> take_bit 7 s = 0" "?n = 127 \<longleftrightarrow> take_bit 7 s = 127"
    by (simp_all only: word_unat_eq_iff) simp_all
  then show ?thesis
    using signal_table n unfolding WIFSIGNALED_def low_bits list_all_iff by (metis atLeastLessThan_iff le0 set_upt w)
qed

lemma killed_low: "take_bit 7 (killed sig core) = ucast sig"
  by (rule bit_word_eqI) (auto simp: killed_def bit_simps dest: bit_imp_le_length)

lemma exited_parts: "take_bit 7 (exited c) = 0" "take_bit 8 (drop_bit 8 (exited c)) = ucast c"
  by (rule bit_word_eqI; auto simp: exited_def bit_simps dest: bit_imp_le_length)+

lemma exit_code_spec:
  "start_exit_code s = (if take_bit 7 s = 0 then uint (take_bit 8 (drop_bit 8 s))
     else if take_bit 7 s = 127 then 0 else 128 + uint (take_bit 7 s))"
  "resume_exit_code s = (if take_bit 7 s = 127 then 1 else start_exit_code s)"
proof -
  have "drop_bit 8 (push_bit 8 (take_bit 8 (drop_bit 8 s))) = take_bit 8 (drop_bit 8 s)"
    by (rule bit_word_eqI) (auto simp: bit_simps)
  then show "start_exit_code s = (if take_bit 7 s = 0 then uint (take_bit 8 (drop_bit 8 s))
     else if take_bit 7 s = 127 then 0 else 128 + uint (take_bit 7 s))"
    by (simp add: start_exit_code_def WIFEXITED_def WTERMSIG_def WEXITSTATUS_def WIFSIGNALED_iff low_bits)
  show "resume_exit_code s = (if take_bit 7 s = 127 then 1 else start_exit_code s)"
    by (simp add: start_exit_code_def resume_exit_code_def WIFEXITED_def WTERMSIG_def WIFSIGNALED_iff low_bits)
qed

lemma killed_high: "take_bit 8 (drop_bit 8 (killed sig core)) = 0"
  by (rule bit_word_eqI) (auto simp: killed_def bit_simps dest: bit_imp_le_length)

lemma ucast_sig: "(ucast sig = (0::32 word)) = (sig = 0)" "(ucast sig = (127::32 word)) = (sig = 127)"
  "uint (ucast sig :: 32 word) = uint sig" "uint (ucast c :: 32 word) = uint c" for sig :: "7 word" and c :: "8 word"
proof -
  show u: "uint (ucast sig :: 32 word) = uint sig" "uint (ucast c :: 32 word) = uint c" for sig :: "7 word" and c :: "8 word"
    by (rule uint_up_ucast, simp add: is_up)+
  show "(ucast sig = (0::32 word)) = (sig = 0)" "(ucast sig = (127::32 word)) = (sig = 127)"
    by (simp_all add: word_uint_eq_iff u)
qed

text \<open>C23: the exit code of an attached start, and that of exec, is the exit status of the process if
  it exited, and 128 plus the number of the signal if one killed it, with or without a core
  dump. The two differ for the statuses that are neither (a stopped process), for which start
  says 0 and exec 1.\<close>

theorem exit_codes:
  "start_exit_code (exited c) = uint c \<and> resume_exit_code (exited c) = uint c
   \<and> start_exit_code (killed sig core) = (if sig = 0 \<or> sig = 127 then 0 else 128 + uint sig)
   \<and> resume_exit_code (killed sig core) = (if sig = 0 then 0 else if sig = 127 then 1 else 128 + uint sig)"
  by (simp add: exit_code_spec killed_low killed_high exited_parts ucast_sig)

lemma start_exit_code_bounds: "0 \<le> start_exit_code s" "start_exit_code s \<le> 255"
proof -
  have "s AND 0xFF00 \<le> 0xFF00" "s AND 0x7F \<le> 0x7F" by (rule word_and_le1)+
  then have "uint (s AND 0xFF00) \<le> 0xFF00" "uint (s AND 0x7F) \<le> 0x7F" by (simp_all add: word_le_def)
  then have "uint (WEXITSTATUS s) < 256" "uint (WTERMSIG s) < 128"
    by (simp_all add: WEXITSTATUS_def WTERMSIG_def drop_bit_eq_div uint_div)
  then show "0 \<le> start_exit_code s" "start_exit_code s \<le> 255"
    by (auto simp: start_exit_code_def)
qed

section \<open>Create\<close>

lemma store_calls_create: "obeys (calls_rel store_call) (nk_container_create J opts)"
  unfolding nk_container_create_def create_container_def new_container_def ensure_state_dir_def Let_def
  by (intro calls_intros main_dirs_obey only_log_validate [THEN only_log_rels(4)]) simp_all

text \<open>C3: creating a container returns 0 only if no container of that name existed, and then the
  store holds it in the state CREATED, without a process; if it returns -1 no entry has
  changed. No other entry changes in either case, and the only calls made are those of the
  store and of the bundle loader: nothing is started or mounted.\<close>

theorem create_correct:
  assumes "jansson_library J utf8" and "store_ok w" and "good_options utf8 opts" and "o_container_id opts = Some i"
  shows "wp (nk_container_create J opts) (\<lambda>r w'. (r = 0 \<or> r = -1) \<and> store_ok w'
    \<and> (r = 0 \<longrightarrow> entry J w i = None)
    \<and> (\<forall>k. plain_name k \<longrightarrow> entry J w' k = (if r = 0 \<and> k = i then Some (Some (created opts)) else entry J w k))
    \<and> calls_rel store_call w w') w"
proof -
  have "wp (nk_container_create J opts) (\<lambda>r w'. ((r = 0 \<or> r = -1) \<and> store_ok w'
    \<and> (r = 0 \<longrightarrow> entry J w i = None)
    \<and> (\<forall>k. plain_name k \<longrightarrow> entry J w' k = (if r = 0 \<and> k = i then Some (Some (created opts)) else entry J w k)))
    \<and> calls_rel store_call w w') w"
    by (intro wp_conj wp_obeys [OF store_calls_create]
        jansson_library.create_wp [OF assms(1) views_refl [OF assms(2)] assms(3,4)])
      (simp_all add: views_def)
  then show ?thesis by (rule wp_mono) simp
qed

theorem create_correct_witness:
  "wp (nk_container_create RefJ life_opts) (\<lambda>r w'.
     entry RefJ w' ''web'' = (if r = 0 then Some (Some (created life_opts)) else None)
     \<and> entry RefJ w' ''db'' = None) life_world"
  by (rule wp_mono [OF create_correct [OF RefJ_library life_store_ok life_good]]) (auto simp: life_empty)

text \<open>The part of a command that only reads: \<open>still w w'\<close>.\<close>

definition still :: "world \<Rightarrow> world \<Rightarrow> bool" where
  "still w w' \<longleftrightarrow> static_rel w w' \<and> w_fs w' = w_fs w"

lemma still_refl [simp]: "still w w"
  by (simp add: still_def static_rel_def)

lemma still_log [simp]: "still w w1 \<Longrightarrow> still w (w1\<lparr>w_log := l\<rparr>)"
  by (simp add: still_def static_rel_def)

lemma still_trans: "still w w1 \<Longrightarrow> static_rel w1 w2 \<Longrightarrow> w_fs w2 = w_fs w1 \<Longrightarrow> still w w2"
  by (auto simp: still_def intro: static.trans)

lemma still_reads:
  assumes "still w w1"
  shows "reliable w1 = reliable w" "lookup w1 = lookup w" "state_dir w1 = state_dir w"
    "stored_text w1 = stored_text w" "bundle_document J w1 b = bundle_document J w b"
proof -
  show l: "lookup w1 = lookup w" using assms by (auto simp: still_def lookup_static)
  show "reliable w1 = reliable w" "state_dir w1 = state_dir w" "stored_text w1 = stored_text w"
    using assms by (auto simp: still_def static_reliable state_dir_static stored_cong)
  show "bundle_document J w1 b = bundle_document J w b" by (simp only: bundle_document_def l)
qed

lemma wp_still_ensure:
  assumes "still w w1" and "reliable w" and "lookup w (state_dir w) = Inr Dir" and "\<And>w'. still w w' \<Longrightarrow> Q 0 w'"
  shows "wp ensure_state_dir Q w1"
  by (rule wp_ensure_there) (use assms still_reads [OF assms(1)] still_trans [OF assms(1)] in simp_all)

lemma wp_still_exists:
  assumes "still w w1" and "reliable w" and "\<And>w'. still w w' \<Longrightarrow> Q (stored_text w i \<noteq> None) w'"
  shows "wp (nk_state_exists (Some i)) Q w1"
proof -
  have "reliable w1" using assms(2) by (simp add: still_reads [OF assms(1)])
  then have "wp (nk_state_exists (Some i)) (\<lambda>a w'. (a = (stored_text w1 i \<noteq> None) \<and> w_fs w' = w_fs w1)
      \<and> static_rel w1 w') w1"
    by (intro wp_conj nk_state_exists_wp wp_obeys nk_state_exists_obeys)
  then show ?thesis
    by (rule wp_mono) (use assms(3) still_reads(4) [OF assms(1)] still_trans [OF assms(1)] in simp)
qed

lemma wp_still_load:
  assumes "still w w1" and "reliable w"
    and "\<And>w'. still w w' \<Longrightarrow> Q (map_option (spec_of J) (bundle_document J w b)) w'"
  shows "wp (nk_oci_spec_load J b) Q w1"
proof -
  have "reliable w1" using assms(2) by (simp add: still_reads [OF assms(1)])
  then have "wp (nk_oci_spec_load J b) (\<lambda>r w'. (r = bundle_spec J w1 b \<and> w_fs w' = w_fs w1) \<and> static_rel w1 w') w1"
    by (intro wp_conj spec_load_wp wp_obeys spec_load_obeys)
  then show ?thesis
    by (rule wp_mono)
      (use assms(3) still_reads(5) [OF assms(1), of J b] still_trans [OF assms(1)] in \<open>simp add: bundle_spec_def\<close>)
qed

lemma wp_still_validate:
  assumes "still w w1" and "\<And>w'. still w w' \<Longrightarrow> Q (valid_document J v) w'"
  shows "wp (nk_oci_spec_validate (Some (spec_of J v))) Q w1"
proof -
  obtain l where "post (nk_oci_spec_validate (Some (spec_of J v))) w1 = w1\<lparr>w_log := l\<rparr>"
    using only_log_validate unfolding only_log_def by blast
  then show ?thesis using assms by (simp add: wp_def validate_spec_of)
qed

text \<open>C20: when the state directory exists, creating succeeds exactly if the name is free and the
  bundle holds a valid document.\<close>

theorem create_accepts:
  assumes "jansson_library J utf8" and "store_ok w" and "good_options utf8 opts" and "o_container_id opts = Some i"
    and "lookup w (state_dir w) = Inr Dir"
  shows "wp (nk_container_create J opts) (\<lambda>r _. r = 0 \<longleftrightarrow> entry J w i = None
    \<and> (\<exists>v. bundle_document J w (o_bundle_path opts) = Some v \<and> valid_document J v)) w"
proof -
  note rel = store_okD(1) [OF assms(2)]
  have make: "wp (create_container J opts) Q w1" if "still w w1" "\<And>w'. Q 0 w'" for Q w1
    by (rule jansson_library.create_container_wp [OF assms(1) views_cong [OF views_refl [OF assms(2)]] assms(3,4)])
      (use that in \<open>auto simp: still_def\<close>)
  show ?thesis
  proof (cases "bundle_document J w (o_bundle_path opts)")
    case None
    show ?thesis
      unfolding nk_container_create_def assms(4)
      by (intro wp_bind wp_if wp_return wp_option wp_log_calls only_log_explain_main [THEN wp_only_log]
          wp_still_ensure [where w = w] wp_still_exists [where w = w] wp_still_load [where w = w])
        (use assms(5) rel in \<open>simp_all add: None\<close>)
  next
    case (Some v)
    show ?thesis
      unfolding nk_container_create_def assms(4)
      apply (intro wp_bind wp_if wp_return wp_log_calls only_log_explain_main [THEN wp_only_log]
          wp_still_ensure [where w = w] wp_still_exists [where w = w] wp_still_load [where w = w])
      apply (use assms(5) rel in \<open>simp_all add: Some entry_None\<close>)
      apply (intro wp_bind wp_if wp_return wp_log_calls wp_still_validate [where w = w] make)
      apply simp_all
      done
  qed
qed

theorem create_accepts_witness:
  "wp (nk_container_create RefJ life_opts) (\<lambda>r _. r = 0) life_world"
  by (rule wp_mono [OF create_accepts [OF RefJ_library life_store_ok life_good]])
    (simp_all add: life_state_dir life_lookup life_empty, simp add: life_opts_def life_document demo_valid)

section \<open>Start\<close>

lemma known_entry: "known utf8 (entry J w) \<longleftrightarrow>
  (\<forall>i c. plain_name i \<longrightarrow> entry J w i = Some (Some c) \<longrightarrow> c_id c = Some i \<and> writable utf8 c)"
proof -
  have "norm c = c" if "entry J w i = Some (Some c)" for i c
    using that by (auto simp: entry_def)
  then show ?thesis by (auto simp: known_def)
qed

text \<open>C4: every start of a container ends in one of five ways, whatever the kernel does: it is
  refused and no entry changes; it crashes on the configuration and no entry changes; detached,
  it succeeds and the entry, which was CREATED, is RUNNING with the pid of the clone; attached,
  it succeeds, the entry is STOPPED without a pid, and the exit code is that of a wait status;
  or, attached, waiting fails, -1 is returned and the entry stays RUNNING. Entries of other
  containers never change.\<close>

theorem start_correct:
  assumes "jansson_library J utf8" and "store_ok w" and "int_answers w" and "known utf8 (entry J w)"
    and "plain_name i"
  shows "wp (nk_container_start J (Some i) attach) (\<lambda>r w'. store_ok w' \<and>
    (\<exists>m'. start_outcome i attach (entry J w) r m' \<and> (\<forall>k. plain_name k \<longrightarrow> entry J w' k = m' k))) w"
  by (rule jansson_library.start_wp [OF assms(1) views_refl [OF assms(2)] assms(3,4,5)])
    (auto simp: views_def)

theorem start_correct_witness:
  "wp (nk_container_start RefJ (Some ''web'') True) (\<lambda>r w'. r = Some (-1, 0) \<and> entry RefJ w' ''web'' = None) life_world"
  by (rule wp_mono [OF start_correct [OF RefJ_library life_store_ok life_ints life_known plain_web(1)]])
    (auto simp: life_empty elim!: start_outcomeE)

section \<open>Delete\<close>

text \<open>C13: deleting returns 0 exactly when the container's state file can be read, and then its entry
  is gone, whatever became of its process and its cgroup; otherwise it returns -1 and changes
  nothing, so that a container whose state file is damaged can never be deleted.\<close>

theorem delete_correct:
  assumes "jansson_library J utf8" and "store_ok w" and "plain_name i"
  shows "wp (nk_container_delete J (Some i)) (\<lambda>r w'. store_ok w'
    \<and> r = (if \<exists>c. entry J w i = Some (Some c) then 0 else -1)
    \<and> (\<forall>k. plain_name k \<longrightarrow> entry J w' k = (if r = 0 \<and> k = i then None else entry J w k))) w"
  by (rule delete_wp [OF views_refl [OF assms(2)] assms(3)]) (auto simp: views_def elim!: delete_outcomeE)

theorem delete_correct_witness:
  "wp (nk_container_delete RefJ (Some ''web'')) (\<lambda>r w'. r = -1 \<and> entry RefJ w' ''web'' = None) life_world"
  by (rule wp_mono [OF delete_correct [OF RefJ_library life_store_ok plain_web(1)]]) (auto simp: life_empty)

section \<open>Run\<close>

text \<open>C15: an attached run with \<open>--rm\<close> leaves no container behind, if it returns at all: when the
  name was free it is free again, whether the run succeeded or failed; when the name was taken
  the run returns -1 and the existing container is untouched. Other entries never change.\<close>

theorem run_rm_leaves_nothing:
  assumes "jansson_library J utf8" and "store_ok w" and "int_answers w" and "known utf8 (entry J w)"
    and "good_options utf8 opts" and "o_container_id opts = Some i" and "o_rm opts"
  shows "wp (nk_container_run J (Some opts)) (\<lambda>r w'. r \<noteq> None \<longrightarrow>
    (\<forall>k. plain_name k \<longrightarrow> entry J w' k = entry J w k) \<and> (entry J w i \<noteq> None \<longrightarrow> r = Some (-1))) w"
proof (rule jansson_library.run_wp [OF assms(1) views_refl [OF assms(2)] assms(3-6)])
  fix r m' w'
  assume run: "run_outcome opts i (entry J w) r m'" and v: "views J w m' w'"
  have "m' = entry J w" if "r \<noteq> None"
    using run that assms(7) by (auto elim!: run_outcomeE start_outcomeE delete_outcomeE simp: fun_upd_idem)
  moreover have "r = Some (-1)" if "entry J w i \<noteq> None" using run that by (auto elim!: run_outcomeE)
  ultimately show "r \<noteq> None \<longrightarrow> (\<forall>k. plain_name k \<longrightarrow> entry J w' k = entry J w k) \<and> (entry J w i \<noteq> None \<longrightarrow> r = Some (-1))"
    using v by (auto simp: views_def)
qed

theorem run_rm_leaves_nothing_witness:
  "wp (nk_container_run RefJ (Some (life_opts\<lparr>o_attach := True, o_rm := True\<rparr>)))
    (\<lambda>r w'. case r of None \<Rightarrow> True | Some _ \<Rightarrow> entry RefJ w' ''web'' = None) life_world"
proof -
  have g: "good_options (\<lambda>_. True) (life_opts\<lparr>o_attach := True, o_rm := True\<rparr>)"
    "o_container_id (life_opts\<lparr>o_attach := True, o_rm := True\<rparr>) = Some ''web''"
    "o_rm (life_opts\<lparr>o_attach := True, o_rm := True\<rparr>)"
    by (simp_all add: good_options_def life_opts_def)
  show ?thesis
    by (rule wp_mono [OF run_rm_leaves_nothing [OF RefJ_library life_store_ok life_ints life_known g]])
      (simp add: life_empty split: option.split)
qed

text \<open>C16: without \<open>--rm\<close> a run that returns -1 may leave its container behind: either nothing
  changed, or the name was free and now belongs to the created container, which no process
  runs, or, attached, to one still recorded as running, whose end could not be waited for.\<close>

theorem run_failure_residue:
  assumes "jansson_library J utf8" and "store_ok w" and "int_answers w" and "known utf8 (entry J w)"
    and "good_options utf8 opts" and "o_container_id opts = Some i" and "\<not> o_rm opts"
  shows "wp (nk_container_run J (Some opts)) (\<lambda>r w'. r = Some (-1) \<longrightarrow>
    (\<forall>k. plain_name k \<longrightarrow> k \<noteq> i \<longrightarrow> entry J w' k = entry J w k) \<and>
    (entry J w' i = entry J w i
     \<or> entry J w i = None \<and> entry J w' i = Some (Some (created opts))
     \<or> entry J w i = None \<and> o_attach opts \<and> (\<exists>pid. entry J w' i = Some (Some (running (created opts) pid))))) w"
proof (rule jansson_library.run_wp [OF assms(1) views_refl [OF assms(2)] assms(3-6)])
  fix r m' w'
  assume run: "run_outcome opts i (entry J w) r m'" and v: "views J w m' w'"
  have i: "plain_name i" using assms(5,6) by (auto simp: good_options_def)
  have "(\<forall>k. k \<noteq> i \<longrightarrow> m' k = entry J w k) \<and> (m' i = entry J w i
     \<or> entry J w i = None \<and> m' i = Some (Some (created opts))
     \<or> entry J w i = None \<and> o_attach opts \<and> (\<exists>pid. m' i = Some (Some (running (created opts) pid))))"
    if "r = Some (-1)"
  proof -
    have e: "start_exit_code s \<noteq> -1" for s using start_exit_code_bounds(1) [of s] by simp
    then have e': "- 1 \<noteq> start_exit_code s" for s using e [of s] by argo
    show ?thesis
      using run that assms(7) by (auto elim!: run_outcomeE start_outcomeE split: if_splits simp: e e')
  qed
  then show "r = Some (-1) \<longrightarrow>
    (\<forall>k. plain_name k \<longrightarrow> k \<noteq> i \<longrightarrow> entry J w' k = entry J w k) \<and>
    (entry J w' i = entry J w i
     \<or> entry J w i = None \<and> entry J w' i = Some (Some (created opts))
     \<or> entry J w i = None \<and> o_attach opts \<and> (\<exists>pid. entry J w' i = Some (Some (running (created opts) pid))))"
    using v i by (auto simp: views_def)
qed

theorem run_failure_residue_witness:
  "wp (nk_container_run RefJ (Some life_opts)) (\<lambda>r w'. if r = Some (-1)
     then entry RefJ w' ''db'' = None \<and> (entry RefJ w' ''web'' = None \<or> entry RefJ w' ''web'' = Some (Some (created life_opts)))
     else True) life_world"
proof -
  have g: "\<not> o_rm life_opts" "\<not> o_attach life_opts" by (simp_all add: life_opts_def default_options_def)
  show ?thesis
    by (rule wp_mono [OF run_failure_residue [OF RefJ_library life_store_ok life_ints life_known life_good g(1)]])
      (use g(2) in \<open>simp add: life_empty\<close>)
qed

end
