(* ===== verification/StartProperties.thy ===== *)
theory StartProperties
  imports LifecycleProperties
begin

text \<open>
  When a start goes through, and when it crashes. \<open>start_spec\<close> is what a start needs to reach
  the launch of the process; a container that has it is launched exactly if every namespace
  that the length counts has a type, and is a crash otherwise.
\<close>

section \<open>What a start needs\<close>

definition start_spec :: "'j jansson \<Rightarrow> world \<Rightarrow> string \<Rightarrow> (nk_container \<times> nk_oci_spec) option" where
  "start_spec J w i = (case entry J w i of
     Some (Some c) \<Rightarrow>
       if c_state c = NK_STATE_CREATED \<and> c_mode c = NK_MODE_CONTAINER
       then (case bundle_spec J w (c_bundle_path c) of
          Some s \<Rightarrow> if s_process s = None \<or> s_root s = None then None else Some (c, s)
        | None \<Rightarrow> None)
       else None
   | _ \<Rightarrow> None)"

definition typed :: "nk_oci_namespace list \<Rightarrow> bool" where
  "typed ns \<longleftrightarrow> list_all (\<lambda>n. n_type n \<noteq> None) ns"

definition counted_namespaces :: "nk_oci_spec \<Rightarrow> nk_oci_namespace list" where
  "counted_namespaces s = (case s_linux_config s of None \<Rightarrow> []
   | Some l \<Rightarrow> (case lx_namespaces l of None \<Rightarrow> [] | Some ns \<Rightarrow> take (lx_namespaces_len l) ns))"

definition ns_config :: "nk_oci_namespace \<Rightarrow> nk_namespace_config" where
  "ns_config n = \<lparr>nc_type = ns_type_of (the (n_type n)), nc_path = n_path n, nc_enable = True\<rparr>"

definition ns_configs :: "nk_oci_spec \<Rightarrow> nk_namespace_config list option" where
  "ns_configs s = (case s_linux_config s of None \<Rightarrow> None
   | Some l \<Rightarrow> (case lx_namespaces l of None \<Rightarrow> None
     | Some ns \<Rightarrow> Some (map ns_config (take (lx_namespaces_len l) ns))))"

lemma build_namespaces_wp:
  "wp (build_namespaces ns) (\<lambda>r w'. r = (if typed ns then Some (map ns_config ns) else None) \<and> still w w') w"
proof (induction ns arbitrary: w)
  case (Cons n ns)
  show ?case
  proof (cases "n_type n")
    case (Some t)
    have "wp (build_namespaces ns) (\<lambda>r w'. r = (if typed ns then Some (map ns_config ns) else None) \<and> still w w')
        (w\<lparr>w_log := l\<rparr>)" for l
      by (rule wp_mono [OF Cons.IH]) (auto simp: still_def static_rel_def)
    note rest = this
    show ?thesis
      unfolding build_namespaces.simps Some option.case
      by (intro wp_bind wp_log_calls wp_mono [OF rest] wp_return)
        (auto simp: typed_def ns_config_def Some)
  qed (simp add: typed_def wp_return)
qed (simp add: typed_def wp_return)

lemma wp_build:
  assumes "still w w1" and "\<And>w'. still w w' \<Longrightarrow> Q (if typed ns then Some (map ns_config ns) else None) w'"
  shows "wp (build_namespaces ns) Q w1"
  by (rule wp_mono [OF build_namespaces_wp]) (use assms still_trans [OF assms(1)] in \<open>auto simp: still_def\<close>)

lemma wp_still_alloc:
  assumes "still w w1" and "reliable w" and "\<And>w'. still w w' \<Longrightarrow> Q True w'"
  shows "wp alloc Q w1"
  by (rule wp_alloc) (use assms still_reads(1) [OF assms(1)] in \<open>auto simp: still_def static_rel_def\<close>)

lemma ctx_namespaces_wp:
  assumes "still w w1" and "reliable w"
    and "\<And>w'. still w w' \<Longrightarrow> Q (if typed (counted_namespaces s) then Some (ns_configs s) else None) w'"
  shows "wp (ctx_namespaces s) Q w1"
  unfolding ctx_namespaces_def
  by (intro wp_option wp_bind wp_if wp_return wp_log_calls wp_build [where w = w]
      wp_still_alloc [where w = w])
    (use assms in \<open>auto simp: counted_namespaces_def ns_configs_def typed_def split: if_splits\<close>)

lemma wp_still_state:
  assumes "still w w1" and "reliable w" and "\<And>w'. still w w' \<Longrightarrow> Q (loaded w (entry J w) i) w'"
  shows "wp (nk_state_load J (Some i)) Q w1"
proof -
  have rel: "reliable w1" using assms(1,2) still_reads(1) by simp
  have eq: "stored J w1 i = loaded w (entry J w) i"
    using stored_loaded [of J w1 i] entry_cong [of w w1 J] state_path_static [of w w1] assms(1)
    by (simp add: still_def loaded_def)
  show ?thesis
    by (rule wp_mono [OF wp_conj [OF nk_state_load_wp [OF rel] wp_obeys [OF nk_state_load_obeys(1)]]])
      (use eq assms(3) still_trans [OF assms(1)] in auto)
qed

section \<open>Reaching the launch\<close>

text \<open>The context of the launch.\<close>

definition start_ctx :: "nk_container \<Rightarrow> nk_oci_spec \<Rightarrow> nk_container_ctx" where
  "start_ctx c s = make_ctx c (the (s_process s)) (the (s_root s)) (ns_configs s)"

lemma start_reaches:
  assumes "store_ok w"
    and "\<And>w'. start_spec J w i = None \<Longrightarrow> still w w' \<Longrightarrow> Q (Some (-1, 0)) w'"
    and "\<And>c s w'. start_spec J w i = Some (c, s) \<Longrightarrow> \<not> typed (counted_namespaces s) \<Longrightarrow> Q None w'"
    and "\<And>c s w'. start_spec J w i = Some (c, s) \<Longrightarrow> typed (counted_namespaces s) \<Longrightarrow> still w w' \<Longrightarrow>
      wp (launch J (c\<lparr>c_state_file := Some (state_path w i)\<rparr>)
        (start_ctx (c\<lparr>c_state_file := Some (state_path w i)\<rparr>) s) attach) (\<lambda>r. Q (Some r)) w'"
  shows "wp (nk_container_start J (Some i) attach) Q w"
proof (cases rule: loaded_cases [of "entry J w" i w])
  case none
  have "start_spec J w i = None" using none(1) by (auto simp: start_spec_def split: option.split)
  then show ?thesis
    unfolding nk_container_start_def
    by (intro wp_bind wp_log_calls only_log_explain_main [THEN wp_only_log]
        wp_still_state [where w = w and J = J])
      (use assms(2) store_okD(1) [OF assms(1)] none(2) in \<open>auto intro!: wp_bind wp_return wp_log_calls\<close>)
next
  case (some c)
  note rel = store_okD(1) [OF assms(1)]
  let ?c = "c\<lparr>c_state_file := Some (state_path w i)\<rparr>"
  have mode: "c_mode c = NK_MODE_CONTAINER \<longleftrightarrow> c_mode c \<noteq> NK_MODE_VM" by (cases "c_mode c") auto
  have spec: "start_spec J w i = (if c_state c = NK_STATE_CREATED \<and> c_mode c \<noteq> NK_MODE_VM
      then (case bundle_spec J w (c_bundle_path c) of
          Some s \<Rightarrow> if s_process s = None \<or> s_root s = None then None else Some (c, s)
        | None \<Rightarrow> None) else None)"
    by (simp add: start_spec_def some mode)
  have load: "wp (nk_oci_spec_load J (c_bundle_path ?c)) R w1"
    if "still w w1" "\<And>w'. still w w' \<Longrightarrow> R (bundle_spec J w (c_bundle_path c)) w'" for R w1
    by (rule wp_still_load [OF that(1) rel]) (simp add: that(2) bundle_spec_def [symmetric])
  have launch: "wp (launch J ?c (make_ctx ?c p r (ns_configs s)) attach) (\<lambda>a. wp (ret (Some a)) Q) w1"
    if "c_state c = NK_STATE_CREATED" "c_mode c \<noteq> NK_MODE_VM" "bundle_spec J w (c_bundle_path c) = Some s"
      "s_process s = Some p" "s_root s = Some r" "typed (counted_namespaces s)" "still w w1" for s p r w1
    using assms(4) [of c s w1] that by (auto simp: spec start_ctx_def intro!: wp_return elim!: wp_mono)
  have crash: "Q None w1"
    if "c_state c = NK_STATE_CREATED" "c_mode c \<noteq> NK_MODE_VM" "bundle_spec J w (c_bundle_path c) = Some s"
      "s_process s = Some p" "s_root s = Some r" "\<not> typed (counted_namespaces s)" for s p r w1
    using assms(3) [of c s w1] that by (simp add: spec)
  show ?thesis
    unfolding nk_container_start_def
    apply (intro wp_bind wp_log_calls only_log_explain_main [THEN wp_only_log]
        wp_still_state [where w = w and J = J])
    apply (simp, rule rel)
    unfolding loaded_Some [where m = "entry J w" and i = i, OF some] option.case
    apply (intro wp_bind wp_if wp_return wp_prod wp_option wp_log_calls only_log_summary [THEN wp_only_log]
        load ctx_namespaces_wp [where w = w] launch)
    apply (use assms(2) rel in \<open>simp_all add: spec split: if_splits\<close>)
    apply (erule (5) crash)
    apply hypsubst
    apply (erule (6) launch)
    done
qed

text \<open>C12: a start dereferences NULL, and the program crashes, exactly when the container is CREATED in
  the mode container, its configuration can be read and has a process and a root, and one of
  the namespaces that the recorded length counts has no type. The loader counts the namespaces
  that have a type but does not move them to the front, so one entry without a type before
  one with a type is enough.\<close>

theorem start_crashes:
  assumes "store_ok w"
  shows "wp (nk_container_start J (Some i) attach) (\<lambda>r _. r = None \<longleftrightarrow>
    (\<exists>c s. start_spec J w i = Some (c, s) \<and> \<not> typed (counted_namespaces s))) w"
  by (rule start_reaches [OF assms, where J = J and i = i]) (simp_all add: wp_any)

section \<open>Worlds with a container\<close>

definition world_with :: "nk_container \<Rightarrow> rj \<Rightarrow> world" where
  "world_with c doc = life_world\<lparr>w_fs := [([''b''], Dir), ([''b'', CONFIG_JSON], Reg (print_rj doc)),
     ([''run''], Dir), ([''run'', ''ns''], Dir), ([''run'', ''ns'', ''web''], Dir),
     ([''run'', ''ns'', ''web'', STATE_FILE], Reg (json_dumps RefJ (container_json RefJ c)))]\<rparr>"

abbreviation start_world :: "rj \<Rightarrow> world" where
  "start_world \<equiv> world_with (created life_opts)"

lemma node_start: "node_at (w_fs (world_with c d)) k =
    (if k \<in> {[], [''b''], [''run''], [''run'', ''ns''], [''run'', ''ns'', ''web'']} then Some Dir
    else if k = [''b'', CONFIG_JSON] then Some (Reg (print_rj d))
    else if k = [''run'', ''ns'', ''web'', STATE_FILE]
      then Some (Reg (json_dumps RefJ (container_json RefJ c))) else None)"
  by (simp add: world_with_def node_at_def)

lemma start_static: "static_rel life_world (world_with c d)"
  by (simp add: world_with_def static_rel_def)

lemmas start_statics = state_dir_static [OF start_static, unfolded life_state_dir]
  static_faultless [OF start_static] static_reliable [OF start_static] int_answers_static [OF start_static]

lemma start_store_ok: "store_ok (world_with c d)"
proof -
  have "fs_wf (w_fs (world_with c d))"
    unfolding fs_wf_def node_start by (auto simp: append_eq_Cons_conv)
  then show ?thesis
    by (simp add: store_ok_def start_statics life_reliable demo_comps free_way_def PATH_MAX_def
        base_key_def file_key_def start_of_def absolute_def node_start)
qed

lemma world_entry:
  assumes "known_container (\<lambda>_. True) ''web'' c"
  shows "entry RefJ (world_with c d) ''web'' = Some (Some c)"
proof -
  have key: "file_key (world_with c d) ''web'' = [''run'', ''ns'', ''web'', STATE_FILE]"
    by (simp add: file_key_def base_key_def start_statics demo_comps start_of_def absolute_def)
  have n: "norm c = c" "writable (\<lambda>_. True) c" using assms by (simp_all add: known_container_def)
  then have "c\<lparr>c_state_file := None\<rparr> = c" using norm_state_file [of c] by simp
  then obtain r where "json_loads RefJ (json_dumps RefJ (container_json RefJ c)) = Some r"
    "container_of_json RefJ r None = c"
    using jansson_library.container_text_roundtrip [OF RefJ_library n(2), of None] n(1) by auto
  then show ?thesis
    by (simp add: entry_def stored_text_node [OF start_store_ok] key node_start)
qed

lemmas start_entry = world_entry [OF known_created [OF life_good]]

lemma start_document:
  assumes "int (length (print_rj d)) < LONG_MAX"
  shows "bundle_document RefJ (world_with c d) (Some ''/b'') = rj_loads (c_string (print_rj d))"
proof -
  have path: "config_path ''/b'' = ''/b/config.json''"
    by (simp add: config_path_def snprintf_n_id PATH_MAX_def CONFIG_JSON_def)
  have "lookup (world_with c d) ''/b'' = Inr Dir" "lookup (world_with c d) ''/b/config.json'' = Inr (Reg (print_rj d))"
    by (simp_all add: lookup_def resolve_def start_of_def absolute_def comps_def node_start CONFIG_JSON_def)
  with assms show ?thesis by (simp add: bundle_document_def path RefJ_def del: print_rj.simps)
qed

lemma created_life: "c_bundle_path (created life_opts) = Some ''/b''" "c_mode (created life_opts) = NK_MODE_CONTAINER"
  by simp_all (simp_all add: created_def life_opts_def default_options_def)

lemma start_spec_world:
  assumes "rj_loads (c_string (print_rj d)) = Some d" and "int (length (print_rj d)) < LONG_MAX"
    and "s_process (spec_of RefJ d) \<noteq> None"
    and "s_root (spec_of RefJ d) \<noteq> None"
  shows "start_spec RefJ (start_world d) ''web'' = Some (created life_opts, spec_of RefJ d)"
  using assms by (simp add: start_spec_def start_entry created_life del: created_fields(4)) (simp add: bundle_spec_def start_document)

text \<open>A document whose first namespace has no type.\<close>

definition crash_doc :: rj where
  "crash_doc = RObj [(''process'', RObj [(''args'', RArr [RStr ''/bin/sh''])]),
     (''root'', RObj [(''path'', RStr ''rootfs'')]),
     (''linux'', RObj [(''namespaces'', RArr [RObj [], RObj [(''type'', RStr ''pid'')]])])]"

lemma crash_doc_facts:
  "rj_loads (c_string (print_rj crash_doc)) = Some crash_doc" "int (length (print_rj crash_doc)) < LONG_MAX"
  "s_process (spec_of RefJ crash_doc) \<noteq> None" "s_root (spec_of RefJ crash_doc) \<noteq> None"
  "\<not> typed (counted_namespaces (spec_of RefJ crash_doc))"
proof -
  show "rj_loads (c_string (print_rj crash_doc)) = Some crash_doc" "int (length (print_rj crash_doc)) < LONG_MAX"
    by code_simp+
  show "s_process (spec_of RefJ crash_doc) \<noteq> None" "s_root (spec_of RefJ crash_doc) \<noteq> None"
    "\<not> typed (counted_namespaces (spec_of RefJ crash_doc))"
    by (simp_all add: spec_of_def crash_doc_def process_of_def root_of_def member_defs counted_namespaces_def linux_of_def
        has_string_def typed_def namespace_of_def RefJ_def)
qed

theorem start_crashes_witness:
  "wp (nk_container_start RefJ (Some ''web'') False) (\<lambda>r _. r = None) (start_world crash_doc)"
  by (rule wp_mono [OF start_crashes [OF start_store_ok]])
    (use start_spec_world [OF crash_doc_facts(1-4)] crash_doc_facts(5) in simp)

section \<open>A start that nothing refuses\<close>

text \<open>
  The kernel of a successful start: it refuses nothing, \<open>clone\<close> answers with the pid \<open>pid\<close>, and
  waiting for it gives the wait status \<open>st\<close>.
\<close>

definition kind_kernel :: "world \<Rightarrow> int \<Rightarrow> 32 word \<Rightarrow> bool" where
  "kind_kernel w pid st \<longleftrightarrow> faultless w \<and> int_answers w
     \<and> (\<forall>n p f. a_val (w_oracle w n p (Clone f)) = pid)
     \<and> (\<forall>n p. word_of_int (a_val (w_oracle w n p (Waitpid pid))) = st)"

lemma kind_kernel_static: "static_rel w w' \<Longrightarrow> kind_kernel w' pid st = kind_kernel w pid st"
  by (simp add: kind_kernel_def static_faultless int_answers_static) (simp add: static_rel_def)

lemma kind_pid: "kind_kernel w pid st \<Longrightarrow> c_int pid \<and> 0 < pid"
  unfolding kind_kernel_def int_answers_def by metis

lemma kind_exec:
  assumes "runnable_ctx c" and "kind_kernel w pid st"
  shows "wp (nk_container_exec (Some c)) (\<lambda>p w'. p = pid) w"
  by (rule exec_ok [OF assms(1)]) (use assms(2) kind_pid [OF assms(2)] in \<open>auto simp: kind_kernel_def\<close>)

lemma kind_wait:
  "kind_kernel w pid st \<Longrightarrow> (\<And>v. word_of_int v = st \<Longrightarrow> Q (Inr v) (tick (Waitpid pid) None w))
    \<Longrightarrow> wp (kernel (Waitpid pid)) Q w"
  by (simp add: wp_def run_kernel kind_kernel_def faultless_def next_answer_def)

lemma views_kind: "views J w m w1 \<Longrightarrow> kind_kernel w pid st \<Longrightarrow> kind_kernel w1 pid st"
  unfolding views_def using kind_kernel_static by blast

lemma wp_kind_exec:
  assumes "views J w m w1" and "kind_kernel w pid st" and "runnable_ctx c"
    and "\<And>w'. views J w m w' \<Longrightarrow> Q pid w'"
  shows "wp (nk_container_exec (Some c)) Q w1"
proof -
  have "wp (nk_container_exec (Some c)) (\<lambda>p w'. p = pid \<and> views J w m w') w1"
    by (intro wp_conj kind_exec [OF assms(3) views_kind [OF assms(1,2)]] wp_frame [OF static_exec same_exec assms(1)])
  then show ?thesis by (rule wp_mono) (simp add: assms(4))
qed

lemma views_wait:
  assumes "views J w m w1" and "kind_kernel w pid st"
    and "\<And>v w'. word_of_int v = st \<Longrightarrow> views J w m w' \<Longrightarrow> Q (0, v) w'"
  shows "wp (nk_container_wait pid) Q w1"
  unfolding nk_container_wait_def
  by (intro wp_bind kind_wait [OF views_kind [OF assms(1,2)]] wp_sum wp_return wp_log_calls)
    (use assms in auto)

context jansson_library begin

lemma wait_ok:
  assumes "views J w m w1" and "kind_kernel w pid st" and "known_container utf8 i c"
    and "\<And>w'. views J w (m(i := Some (Some (stopped c)))) w' \<Longrightarrow> Q (0, start_exit_code st) w'"
  shows "wp (wait_attached J (c\<lparr>c_state_file := f, c_state := s, c_init_pid := p\<rparr>) pid) Q w1"
proof -
  have n: "norm c = c" using assms(3) by (simp add: known_container_def)
  have z: "c_int 0" by (simp add: c_int_def)
  have upd: "c\<lparr>c_state_file := f, c_state := s, c_init_pid := p\<rparr>\<lparr>c_state := NK_STATE_STOPPED, c_init_pid := 0\<rparr>
      = c\<lparr>c_state_file := f, c_state := NK_STATE_STOPPED, c_init_pid := 0\<rparr>"
    by simp
  show ?thesis
    unfolding wait_attached_def Let_def upd
    by (intro wp_bind wp_if wp_return wp_log_calls views_wait [OF _ assms(2), where J = J and m = m]
        wp_view_update [OF _ assms(3) z, where w = w and m = m])
      (use assms norm_loaded(2) [OF n z] in simp_all)
qed

lemma launch_ok:
  assumes "views J w m w1" and "kind_kernel w pid st" and "known_container utf8 i c" and "runnable_ctx ctx"
    and "\<And>w'. \<not> attach \<Longrightarrow> views J w (m(i := Some (Some (running c pid)))) w' \<Longrightarrow> Q (0, 0) w'"
    and "\<And>w'. attach \<Longrightarrow> views J w (m(i := Some (Some (stopped c)))) w' \<Longrightarrow> Q (0, start_exit_code st) w'"
  shows "wp (launch J (c\<lparr>c_state_file := f\<rparr>) ctx attach) Q w1"
proof -
  have n: "norm c = c" using assms(3) by (simp add: known_container_def)
  note pid = kind_pid [OF assms(2)]
  have wait: "wp (wait_attached J (c\<lparr>c_state_file := f, c_state := NK_STATE_RUNNING, c_init_pid := pid\<rparr>) pid) Q w2"
    if "views J w (m(i := Some (Some (running c pid)))) w2" "attach" for w2
    by (rule wait_ok [OF that(1) assms(2,3)]) (use assms(6) that(2) in simp)
  show ?thesis
    unfolding launch_def Let_def
    apply (intro wp_bind wp_if wp_return wp_log_calls only_log_explain_main [THEN wp_only_log]
        wp_kind_exec [OF _ assms(2,4), where J = J and m = m]
        wp_view_update [OF _ assms(3), where w = w and m = m])
    using assms(1,5) norm_loaded(1) [OF n, of pid] pid
    apply simp_all
    apply (rule wait)
    apply simp_all
    done
qed

end

lemma runnable_start:
  assumes "s_process s = Some p" and "p_args p \<noteq> None" and "p_args_len p \<noteq> 0"
  shows "runnable_ctx (start_ctx c s)"
  using assms by (simp add: runnable_ctx_def start_ctx_def make_ctx_def)

lemma start_ok:
  assumes "jansson_library J utf8" and "store_ok w" and "kind_kernel w pid st" and "known utf8 (entry J w)"
    and "plain_name i" and "start_spec J w i = Some (c, s)" and "typed (counted_namespaces s)"
    and "s_process s = Some p" and "p_args p \<noteq> None" and "p_args_len p \<noteq> 0"
    and Q: "\<And>w'. views J w ((entry J w)(i := Some (Some (if attach then stopped c else running c pid)))) w' \<Longrightarrow>
      Q (Some (0, if attach then start_exit_code st else 0)) w'"
  shows "wp (nk_container_start J (Some i) attach) Q w"
proof (rule start_reaches [OF assms(2), where J = J and i = i])
  fix c' s' w1
  assume s: "start_spec J w i = Some (c', s')" and v: "still w w1"
  have eq: "c' = c" "s' = s" using s assms(6) by simp_all
  have e: "entry J w i = Some (Some c)"
    using assms(6) by (auto simp: start_spec_def split: option.splits if_splits)
  have k: "known_container utf8 i c" by (rule knownD [OF assms(4,5) e])
  have v1: "views J w (entry J w) w1"
    by (rule views_cong [OF views_refl [OF assms(2)]]) (use v in \<open>simp_all add: still_def\<close>)
  show "wp (launch J (c'\<lparr>c_state_file := Some (state_path w i)\<rparr>)
      (start_ctx (c'\<lparr>c_state_file := Some (state_path w i)\<rparr>) s') attach) (\<lambda>r. Q (Some r)) w1"
    unfolding eq
    by (rule jansson_library.launch_ok [OF assms(1) v1 assms(3) k runnable_start [OF assms(8-10)]])
      (use Q in auto)
qed (use assms(6,7) in auto)

text \<open>C11: a start succeeds when nothing is refused: a CREATED container in the mode container whose
  configuration names a process with arguments, a root and typed namespaces. Detached, it
  returns 0 and the container is RUNNING with the pid of the clone; attached, it returns 0 when
  the process has ended, the exit code is that of its wait status, and the container is STOPPED.\<close>

theorem start_succeeds:
  assumes "jansson_library J utf8" and "store_ok w" and "kind_kernel w pid st" and "known utf8 (entry J w)"
    and "plain_name i" and "start_spec J w i = Some (c, s)" and "typed (counted_namespaces s)"
    and "s_process s = Some p" and "p_args p \<noteq> None" and "p_args_len p \<noteq> 0"
  shows "wp (nk_container_start J (Some i) attach) (\<lambda>r w'. r = Some (0, if attach then start_exit_code st else 0)
    \<and> entry J w' i = Some (Some (if attach then stopped c else running c pid))) w"
  by (rule start_ok [OF assms]) (auto simp: views_def assms(5))

lemma start_demo:
  "kind_kernel (start_world d) 42 42" "known (\<lambda>_. True) (entry RefJ (start_world d))"
proof -
  show "kind_kernel (start_world d) 42 42"
    by (simp add: kind_kernel_def start_statics life_faultless life_ints)
      (simp add: world_with_def life_world_def demo_world_def)
  show "known (\<lambda>_. True) (entry RefJ (start_world d))"
  proof -
    have "stored_text (start_world d) i = None" if "plain_name i" "i \<noteq> ''web''" for i
      using that by (simp add: stored_text_node start_store_ok file_key_def base_key_def start_statics demo_comps
          start_of_def absolute_def node_start)
    then have "i = ''web''" if "plain_name i" "entry RefJ (start_world d) i = Some (Some c)" for i c
      using that by (cases "i = ''web''") (auto simp: entry_def)
    then show ?thesis
      using known_created [OF life_good] by (force simp: known_def known_container_def start_entry)
  qed
qed

lemma demo_start_spec:
  "start_spec RefJ (start_world demo_doc) ''web'' = Some (created life_opts, spec_of RefJ demo_doc)"
  "typed (counted_namespaces (spec_of RefJ demo_doc))"
proof -
  have "s_process (spec_of RefJ demo_doc) \<noteq> None" "s_root (spec_of RefJ demo_doc) \<noteq> None"
    by (simp_all add: spec_of_def demo_doc_def process_of_def root_of_def member_defs RefJ_def)
  then show "start_spec RefJ (start_world demo_doc) ''web'' = Some (created life_opts, spec_of RefJ demo_doc)"
    by (rule start_spec_world [OF demo_doc_parses demo_doc_length])
  show "typed (counted_namespaces (spec_of RefJ demo_doc))"
    by (simp add: spec_of_def demo_doc_def member_defs counted_namespaces_def linux_of_def has_string_def typed_def
        namespace_of_def RefJ_def)
qed

lemma demo_process:
  obtains p where "s_process (spec_of RefJ demo_doc) = Some p" "p_args p \<noteq> None" "p_args_len p \<noteq> 0"
  using demo_valid by (auto simp: valid_document_def spec_of_def process_of_def texts_at_def count_at_def)

theorem start_succeeds_witness:
  "wp (nk_container_start RefJ (Some ''web'') True) (\<lambda>r w'. r = Some (0, 128 + 42)
     \<and> entry RefJ w' ''web'' = Some (Some (stopped (created life_opts)))) (start_world demo_doc)"
proof -
  obtain p where p: "s_process (spec_of RefJ demo_doc) = Some p" "p_args p \<noteq> None" "p_args_len p \<noteq> 0"
    by (rule demo_process)
  have "start_exit_code 42 = 128 + 42" by code_simp
  with start_succeeds [OF RefJ_library start_store_ok start_demo plain_web(1) demo_start_spec p, of True]
  show ?thesis by simp
qed

end
