(* ===== verification/MainProg.thy ===== *)
theory MainProg
  imports Lifecycle
begin

text \<open>
  The program: \<open>main\<close> of \<open>src/main.c\<close>, which dispatches on the command. Its result is
  the value it returns, or what \<open>exit\<close> was called with while the arguments were parsed;
  \<open>None\<close> is the crash that \<open>nk_container_start\<close> can run into. \<open>exit_status\<close> is the low
  byte of it, which is what a parent process sees.
\<close>

definition start_command :: "'j jansson \<Rightarrow> nk_options \<Rightarrow> int option prog" where
  "start_command J opts = do {
     s \<leftarrow> nk_container_start J (o_container_id opts) (o_attach opts);
     case s of
       None \<Rightarrow> ret None
     | Some (r, exit_code) \<Rightarrow> do {
         r \<leftarrow> (if r = 0 \<and> o_pid_file opts \<noteq> None \<and> o_detach opts
              then write_container_pid_file J (o_pid_file opts) (o_container_id opts) else ret r);
         ret (Some (if r = 0 \<and> o_attach opts then exit_code else r))
       }
   }"

definition run_command :: "'j jansson \<Rightarrow> nk_options \<Rightarrow> int option prog" where
  "run_command J opts = do {
     s \<leftarrow> nk_container_run J (Some opts);
     case s of
       None \<Rightarrow> ret None
     | Some r \<Rightarrow> do {
         r \<leftarrow> (if r = 0 \<and> o_pid_file opts \<noteq> None \<and> o_detach opts
              then write_container_pid_file J (o_pid_file opts) (o_container_id opts) else ret r);
         ret (Some r)
       }
   }"

text \<open>What the command \<open>state\<close> prints and returns.\<close>

definition state_str :: "nk_container_state_t \<Rightarrow> string" where
  "state_str state = (case state of
     NK_STATE_INVALID \<Rightarrow> ''unknown''
   | NK_STATE_CREATED \<Rightarrow> ''created''
   | NK_STATE_RUNNING \<Rightarrow> ''running''
   | NK_STATE_STOPPED \<Rightarrow> ''stopped''
   | NK_STATE_PAUSED \<Rightarrow> ''paused'')"

definition state_command :: "'j jansson \<Rightarrow> nk_options \<Rightarrow> int option prog" where
  "state_command J opts = do {
     state \<leftarrow> nk_container_state J (o_container_id opts);
     printf_line (state_str state @ [CHR 10]);
     ret (Some (if state = NK_STATE_INVALID then 1 else 0))
   }"

definition dispatch :: "'j jansson \<Rightarrow> nk_options \<Rightarrow> int option prog" where
  "dispatch J opts = (let cmd = o_command opts in
     if cmd = ''help'' then do { print_usage; ret (Some 0) }
     else if cmd = ''version'' then do { print_version; ret (Some 0) }
     else if cmd = ''create'' then do { r \<leftarrow> nk_container_create J opts; ret (Some r) }
     else if cmd = ''start'' then start_command J opts
     else if cmd = ''run'' then run_command J opts
     else if cmd = ''exec'' then do {
       r \<leftarrow> nk_container_resume J (o_container_id opts) (o_resume_exec opts);
       ret (Some r)
     }
     else if cmd = ''delete'' then do { r \<leftarrow> nk_container_delete J (o_container_id opts); ret (Some r) }
     else if cmd = ''state'' then state_command J opts
     else ret (Some 0))"

definition rename_resume :: "nk_options \<Rightarrow> nk_options prog" where
  "rename_resume opts =
     (if o_command opts = ''resume'' then do {
        mn_log NK_LOG_WARN 1027;
        ret (opts\<lparr>o_command := ''exec''\<rparr>)
      } else ret opts)"

definition main :: "'j jansson \<Rightarrow> string list \<Rightarrow> int option prog" where
  "main J argv = do {
     nk_log_set_role NK_LOG_ROLE_PARENT;
     p \<leftarrow> nk_parse_args argv;
     case p of
       ParseError \<Rightarrow> do { print_usage; ret (Some 1) }
     | Exit n \<Rightarrow> ret (Some n)
     | Parsed opts \<Rightarrow> do {
         opts \<leftarrow> rename_resume opts;
         dispatch J opts
       }
   }"

definition exit_status :: "int \<Rightarrow> int" where
  "exit_status r = r mod 256"

end
