(* ===== verification/Machine.thy ===== *)
theory Machine
  imports StartProperties MainProg
begin

text \<open>
  The program as a machine on the store. Each invocation of \<open>main\<close> is one step; a session is a
  sequence of invocations, each a fresh process, with any answers of the kernel. The containers
  in the store follow the abstract machine \<open>history\<close>, whose steps are the outcomes of the
  commands, and the invariants of the life cycle are proved on it by rule induction.
\<close>

section \<open>The front of main\<close>

text \<open>\<open>main\<close> up to the dispatch: the value to exit with, or the options of the command.\<close>

definition front :: "string list \<Rightarrow> (int + nk_options) prog" where
  "front argv = do {
     nk_log_set_role NK_LOG_ROLE_PARENT;
     p \<leftarrow> nk_parse_args argv;
     case p of
       ParseError \<Rightarrow> do { print_usage; ret (Inl 1) }
     | Exit n \<Rightarrow> ret (Inl n)
     | Parsed opts \<Rightarrow> do { opts \<leftarrow> rename_resume opts; ret (Inr opts) }
   }"

lemma bind_parse_result:
  "State_Monad.bind (case p of Parsed y \<Rightarrow> f y | ParseError \<Rightarrow> m | Exit n \<Rightarrow> g n) k =
   (case p of Parsed y \<Rightarrow> State_Monad.bind (f y) k | ParseError \<Rightarrow> State_Monad.bind m k | Exit n \<Rightarrow> State_Monad.bind (g n) k)"
  by (cases p) simp_all

lemma main_front:
  "main J argv = do { c \<leftarrow> front argv; case c of Inl n \<Rightarrow> ret (Some n) | Inr opts \<Rightarrow> dispatch J opts }"
  unfolding main_def front_def by (simp add: bind_parse_result cong: parse_result.case_cong)

lemma front_obeys: "obeys static_rel (front argv)" "obeys same_fs (front argv)"
  unfolding front_def rename_resume_def
  by (intro static_intros parse_args_obeys usage_rels obeys_parse_result,
      intro same_intros parse_args_obeys usage_rels obeys_parse_result)

lemma front_ok: "wp (front argv) (\<lambda>c _. case c of Inl n \<Rightarrow> n = 0 \<or> n = 1 | Inr opts \<Rightarrow> options_ok opts) w"
proof -
  have ren: "options_ok x \<Longrightarrow> wp (rename_resume x) (\<lambda>y _. options_ok y) w'" for x w'
    unfolding rename_resume_def
    by (intro wp_if wp_bind wp_return wp_log_calls) (auto simp: options_ok_def id_commands_def)
  have "wp (case p of ParseError \<Rightarrow> do { print_usage; ret (Inl 1) } | Exit n \<Rightarrow> ret (Inl n)
     | Parsed opts \<Rightarrow> do { opts \<leftarrow> rename_resume opts; ret (Inr opts) })
     (\<lambda>c _. case c of Inl n \<Rightarrow> n = 0 \<or> n = 1 | Inr opts \<Rightarrow> options_ok opts) w'"
    if "parsed (\<lambda>x. options_ok x \<and> P x) p" for p w' P
  proof (cases p)
    case (Parsed x)
    with that have ok: "options_ok x" by simp
    show ?thesis
      unfolding Parsed parse_result.case
      by (rule wp_bind, rule wp_mono [OF ren [OF ok]]) (simp add: wp_return)
  qed (use that in \<open>auto intro!: wp_bind wp_return only_log_usage [THEN wp_only_log]\<close>)
  note rest = this
  show ?thesis
    unfolding front_def
    by (intro wp_bind wp_log_calls) (rule wp_mono [OF parse_args_wp], rule rest)
qed

section \<open>One invocation\<close>

text \<open>
  The options of a step: the container's name is a plain name, name and bundle path are UTF-8,
  and a pid file that will be written is apart from the state directory, since the runtime
  writes that file wherever it is told, over a file of the store as well.
\<close>

definition tame :: "(string \<Rightarrow> bool) \<Rightarrow> world \<Rightarrow> int + nk_options \<Rightarrow> bool" where
  "tame utf8 w c = (case c of Inl n \<Rightarrow> True
   | Inr opts \<Rightarrow> (o_detach opts \<longrightarrow> pred_option (apart w) (o_pid_file opts))
       \<and> (o_container_id opts = None \<or> good_options utf8 opts))"

text \<open>A detached start or run that succeeded still fails if its pid file cannot be written.\<close>

definition pid_written :: "nk_options \<Rightarrow> int option \<Rightarrow> int option \<Rightarrow> bool" where
  "pid_written opts s r \<longleftrightarrow> r = s
     \<or> (o_detach opts \<and> o_pid_file opts \<noteq> None \<and> s = Some 0 \<and> r = Some (-1))"

text \<open>What an invocation does to the entries, for the front's answer \<open>c\<close> and the result \<open>r\<close>.\<close>

inductive step :: "int + nk_options \<Rightarrow> entries \<Rightarrow> int option \<Rightarrow> entries \<Rightarrow> bool"
  for c :: "int + nk_options" and m :: entries where
  left: "c = Inl n \<Longrightarrow> step c m (Some n) m"
| info: "c = Inr opts \<Longrightarrow> o_command opts \<notin> {''create'', ''start'', ''run'', ''exec'', ''delete'', ''state''}
    \<Longrightarrow> step c m (Some 0) m"
| not_created: "c = Inr opts \<Longrightarrow> o_command opts = ''create'' \<Longrightarrow> step c m (Some (-1)) m"
| created: "c = Inr opts \<Longrightarrow> o_command opts = ''create'' \<Longrightarrow> o_container_id opts = Some i \<Longrightarrow> m i = None
    \<Longrightarrow> step c m (Some 0) (m(i := Some (Some (created opts))))"
| started: "c = Inr opts \<Longrightarrow> o_command opts = ''start'' \<Longrightarrow> o_container_id opts = Some i
    \<Longrightarrow> start_outcome i (o_attach opts) m s m'
    \<Longrightarrow> pid_written opts (map_option (\<lambda>(r, e). if r = 0 \<and> o_attach opts then e else r) s) r
    \<Longrightarrow> step c m r m'"
| ran: "c = Inr opts \<Longrightarrow> o_command opts = ''run'' \<Longrightarrow> o_container_id opts = Some i
    \<Longrightarrow> run_outcome opts i m s m' \<Longrightarrow> pid_written opts s r \<Longrightarrow> step c m r m'"
| entered: "c = Inr opts \<Longrightarrow> o_command opts = ''exec'' \<Longrightarrow> o_container_id opts = Some i
    \<Longrightarrow> resume_outcome i m m' \<Longrightarrow> step c m (Some r) m'"
| deleted: "c = Inr opts \<Longrightarrow> o_command opts = ''delete'' \<Longrightarrow> o_container_id opts = Some i
    \<Longrightarrow> delete_outcome i m r m' \<Longrightarrow> step c m (Some r) m'"
| queried: "c = Inr opts \<Longrightarrow> o_command opts = ''state'' \<Longrightarrow> o_container_id opts = Some i
    \<Longrightarrow> r = (case m i of Some (Some x) \<Rightarrow> if c_state x = NK_STATE_INVALID then 1 else 0 | _ \<Rightarrow> 1)
    \<Longrightarrow> step c m (Some r) m"

inductive_cases stepE: "step c m r m'"

text \<open>The abstract machine: a history is a sequence of steps, each labelled with its command and result.\<close>

inductive history :: "entries \<Rightarrow> ((int + nk_options) \<times> int option) list \<Rightarrow> entries \<Rightarrow> bool"
  for m :: entries where
  begun: "history m [] m"
| went_on: "history m hs m1 \<Longrightarrow> step c m1 r m2 \<Longrightarrow> history m (hs @ [(c, r)]) m2"

inductive_cases history_snocE: "history m (hs @ [(c, r)]) m'"

text \<open>
  An invariant of the machine under the commands that satisfy \<open>ok\<close>: what every step keeps,
  every history keeps.
\<close>

locale machine_invariant =
  fixes ok :: "int + nk_options \<Rightarrow> bool" and I :: "entries \<Rightarrow> bool"
  assumes step_keeps: "step c m r m' \<Longrightarrow> ok c \<Longrightarrow> I m \<Longrightarrow> I m'"
begin

lemma history_keeps: "history m hs m' \<Longrightarrow> list_all (\<lambda>(c, _). ok c) hs \<Longrightarrow> I m \<Longrightarrow> I m'"
  by (induction rule: history.induct) (auto intro: step_keeps)

end

text \<open>What an invocation does to the store.\<close>

lemma views_stdout: "views J w m w1 \<Longrightarrow> views J w m (w1\<lparr>w_stdout := s\<rparr>)"
  by (erule views_cong) (simp_all add: static_rel_def)

lemma wp_printf: "(\<And>s. Q () (w\<lparr>w_stdout := s\<rparr>)) \<Longrightarrow> wp (printf_line t) Q w"
  by (simp add: printf_line_def wp_def)

context jansson_library begin

lemma state_command_wp:
  assumes "views J w m w1" and "o_container_id opts = Some i" and "plain_name i"
    and "\<And>w'. views J w m w' \<Longrightarrow>
      Q (Some (case m i of Some (Some x) \<Rightarrow> if c_state x = NK_STATE_INVALID then 1 else 0 | _ \<Rightarrow> 1)) w'"
  shows "wp (state_command J opts) Q w1"
proof -
  have eq: "(if (case m i of Some (Some c) \<Rightarrow> c_state c | _ \<Rightarrow> NK_STATE_INVALID) = NK_STATE_INVALID then 1 else 0)
     = (case m i of Some (Some x) \<Rightarrow> if c_state x = NK_STATE_INVALID then 1 else (0::int) | _ \<Rightarrow> 1)"
    by (auto split: option.split)
  show ?thesis
    unfolding state_command_def assms(2)
    by (intro wp_bind state_wp [OF assms(1,3)] wp_printf wp_return) (simp only: eq assms(4) views_stdout)
qed

lemma dispatch_wp:
  assumes "views J w m w1" and "int_answers w" and "known utf8 m" and "options_ok opts" and "tame utf8 w (Inr opts)"
    and Q: "\<And>r m' w'. step (Inr opts) m r m' \<Longrightarrow> views J w m' w' \<Longrightarrow> Q r w'"
  shows "wp (dispatch J opts) Q w1"
proof (cases "o_container_id opts")
  case None
  then have "o_command opts = ''help'' \<or> o_command opts = ''version''"
    using assms(4) by (simp add: options_ok_def)
  then show ?thesis
    by (auto simp: dispatch_def Let_def assms(1)
        intro!: wp_bind wp_return only_log_usage [THEN wp_only_log] Q [OF info])
next
  case (Some i)
  have g: "good_options utf8 opts" using assms(5) Some by (auto simp: tame_def)
  have pf: "apart w f" if "o_detach opts" "o_pid_file opts = Some f" for f
    using assms(5) that by (simp add: tame_def)
  have i: "plain_name i" using g Some by (auto simp: good_options_def)
  have start: "wp (start_command J opts) Q w1" if "o_command opts = ''start''"
    unfolding start_command_def Some
  proof (rule wp_bind, rule start_wp [OF assms(1,2,3) i])
    fix s m' w' assume "start_outcome i (o_attach opts) m s m'" "views J w m' w'"
    note v = this(2)
    have detached: "o_detach opts \<Longrightarrow> \<not> o_attach opts" using assms(4) that by (auto simp: options_ok_def)
    note q = Q [OF started [OF refl that Some \<open>start_outcome i (o_attach opts) m s m'\<close>]]
    show "wp (case s of None \<Rightarrow> ret None | Some (r, exit_code) \<Rightarrow> do {
         r \<leftarrow> (if r = 0 \<and> o_pid_file opts \<noteq> None \<and> o_detach opts
              then write_container_pid_file J (o_pid_file opts) (Some i) else ret r);
         ret (Some (if r = 0 \<and> o_attach opts then exit_code else r)) }) Q w'"
      using q [OF _ v]
      by (cases s)
        (auto simp: pid_written_def split_def detached intro!: wp_return wp_bind wp_view_container_pid [OF v i pf] q v)
  qed
  have run: "wp (run_command J opts) Q w1" if "o_command opts = ''run''"
    unfolding run_command_def
  proof (rule wp_bind, rule run_wp [OF assms(1,2,3) g Some])
    fix s m' w' assume "run_outcome opts i m s m'" "views J w m' w'"
    note v = this(2)
    note q = Q [OF ran [OF refl that Some \<open>run_outcome opts i m s m'\<close>]]
    show "wp (case s of None \<Rightarrow> ret None | Some r \<Rightarrow> do {
         r \<leftarrow> (if r = 0 \<and> o_pid_file opts \<noteq> None \<and> o_detach opts
              then write_container_pid_file J (o_pid_file opts) (o_container_id opts) else ret r);
         ret (Some r) }) Q w'"
      using q [OF _ v]
      by (cases s)
        (auto simp: pid_written_def Some intro!: wp_return wp_bind wp_view_container_pid [OF v i pf] q v)
  qed
  show ?thesis
    unfolding dispatch_def Let_def Some
    apply (intro wp_if wp_bind wp_return only_log_usage [THEN wp_only_log] start run
        create_wp [OF assms(1) g Some] resume_wp [OF assms(1,3) i] delete_wp [OF assms(1) i]
        state_command_wp [OF assms(1) Some i])
    apply (rule Q [OF info [OF refl]]; simp add: assms(1))
    apply (rule Q [OF info [OF refl]]; simp add: assms(1))
    apply (rule Q [OF created [OF refl _ Some]]; assumption)
    apply (rule Q [OF step.not_created [OF refl]]; assumption)
    apply assumption
    apply assumption
    apply (rule Q [OF entered [OF refl _ Some]]; assumption)
    apply (rule Q [OF deleted [OF refl _ Some]]; assumption)
    apply (rule Q [OF queried [OF refl _ Some refl]]; assumption)
    apply (rule Q [OF info [OF refl]]; simp add: assms(1))
    done
qed

lemma main_wp:
  assumes "views J w m w1" and "int_answers w" and "known utf8 m" and "tame utf8 w (res (front argv) w1)"
    and Q: "\<And>r m' w'. step (res (front argv) w1) m r m' \<Longrightarrow> views J w m' w' \<Longrightarrow> Q r w'"
  shows "wp (main J argv) Q w1"
proof -
  let ?w = "post (front argv) w1"
  have v: "views J w m ?w"
    using views_cong [OF assms(1)] front_obeys [of argv] by (simp add: obeys_def same_fs_def)
  have ok: "case res (front argv) w1 of Inl n \<Rightarrow> n = 0 \<or> n = 1 | Inr opts \<Rightarrow> options_ok opts"
    using front_ok [of argv w1] by (simp add: wp_def)
  have "wp (case res (front argv) w1 of Inl n \<Rightarrow> ret (Some n) | Inr opts \<Rightarrow> dispatch J opts) Q ?w"
  proof (cases "res (front argv) w1")
    case (Inl n)
    with Q [OF left v] show ?thesis by (simp add: wp_return)
  next
    case (Inr opts)
    with ok assms(4) have "options_ok opts" "tame utf8 w (Inr opts)" by simp_all
    from dispatch_wp [OF v assms(2,3) this] Q show ?thesis by (simp add: Inr)
  qed
  then show ?thesis
    unfolding main_front by (simp add: wp_bind_eq) (simp add: wp_def)
qed

end

section \<open>Invariants of the machine\<close>

text \<open>Every container the machine knows is in one of three states of its life.\<close>

fun alive_ok :: "nk_container \<Rightarrow> bool" where
  "alive_ok c = (case c_state c of
     NK_STATE_CREATED \<Rightarrow> c_init_pid c = 0
   | NK_STATE_RUNNING \<Rightarrow> 0 < c_init_pid c \<and> c_mode c = NK_MODE_CONTAINER
   | NK_STATE_STOPPED \<Rightarrow> c_init_pid c = 0 \<and> c_mode c = NK_MODE_CONTAINER
   | _ \<Rightarrow> False)"

definition lifecycle_ok :: "entries \<Rightarrow> bool" where
  "lifecycle_ok m \<longleftrightarrow> (\<forall>i c. plain_name i \<longrightarrow> m i = Some (Some c) \<longrightarrow> alive_ok c)"

lemma lifecycle_upd: "lifecycle_ok m \<Longrightarrow> (plain_name i \<Longrightarrow> alive_ok c) \<Longrightarrow> lifecycle_ok (m(i := Some (Some c)))"
  unfolding lifecycle_ok_def by (simp del: alive_ok.simps)

lemma lifecycle_del: "lifecycle_ok m \<Longrightarrow> lifecycle_ok (m(i := None))"
  unfolding lifecycle_ok_def by (simp del: alive_ok.simps)

lemma alive_states:
  "alive_ok (created opts)"
  "c_mode c = NK_MODE_CONTAINER \<Longrightarrow> 0 < pid \<Longrightarrow> alive_ok (running c pid)"
  "c_mode c = NK_MODE_CONTAINER \<Longrightarrow> alive_ok (stopped c)"
  by (simp_all add: running_def stopped_def)

lemmas lifecycle_rules = lifecycle_upd lifecycle_del alive_states

lemma running_mode:
  assumes "lifecycle_ok m" and "plain_name i" and "m i = Some (Some c)" and "c_state c = NK_STATE_RUNNING"
  shows "c_mode c = NK_MODE_CONTAINER"
proof -
  have "alive_ok c" using assms(1,2,3) unfolding lifecycle_ok_def by blast
  then show ?thesis by (simp add: assms(4))
qed

lemma start_lifecycle: "start_outcome i a m r m' \<Longrightarrow> lifecycle_ok m \<Longrightarrow> lifecycle_ok m'"
  by (erule start_outcome.cases) (auto intro!: lifecycle_rules simp del: alive_ok.simps)

lemma delete_lifecycle: "delete_outcome i m r m' \<Longrightarrow> lifecycle_ok m \<Longrightarrow> lifecycle_ok m'"
  by (erule delete_outcome.cases) (auto intro!: lifecycle_del)

lemma run_lifecycle: "run_outcome opts i m r m' \<Longrightarrow> lifecycle_ok m \<Longrightarrow> lifecycle_ok m'"
  by (erule run_outcome.cases)
    (auto elim!: start_lifecycle delete_lifecycle intro!: lifecycle_upd [OF _ alive_states(1)]
      simp del: alive_ok.simps)

lemma resume_lifecycle: "resume_outcome i m m' \<Longrightarrow> lifecycle_ok m \<Longrightarrow> lifecycle_ok m'"
  by (erule resume_outcome.cases)
    (auto intro!: lifecycle_upd alive_states(3) intro: running_mode simp del: alive_ok.simps)

lemmas outcome_lifecycle = start_lifecycle delete_lifecycle run_lifecycle resume_lifecycle

interpretation lifecycle: machine_invariant "\<lambda>_. True" lifecycle_ok
proof
  fix c m r m'
  assume "step c m r m'" "lifecycle_ok m"
  then show "lifecycle_ok m'"
    by (elim stepE)
      (auto elim!: outcome_lifecycle intro!: lifecycle_upd [OF _ alive_states(1)] simp del: alive_ok.simps)
qed

text \<open>What is known of the entries stays known.\<close>

lemma c_int_0 [simp]: "c_int 0"
  by (simp add: c_int_def)

lemma known_update:
  assumes "known utf8 m" and "m i = Some (Some c)" and "c_int pid"
  shows "known utf8 (m(i := Some (Some (running c pid))))" "known utf8 (m(i := Some (Some (stopped c))))"
proof -
  have k: "plain_name i \<Longrightarrow> known_container utf8 i c" by (rule knownD [OF assms(1) _ assms(2)])
  show "known utf8 (m(i := Some (Some (running c pid))))" "known utf8 (m(i := Some (Some (stopped c))))"
    by (rule known_upd [OF assms(1)]; rule known_running [OF k assms(3)]; assumption)+
qed

lemma start_known: "start_outcome i a m r m' \<Longrightarrow> known utf8 m \<Longrightarrow> known utf8 m'"
  by (erule start_outcome.cases) (simp_all add: known_update(1), simp add: known_update(2) [where pid = 0])

lemma delete_known: "delete_outcome i m r m' \<Longrightarrow> known utf8 m \<Longrightarrow> known utf8 m'"
  by (erule delete_outcome.cases) (simp_all add: known_del)

lemma resume_known: "resume_outcome i m m' \<Longrightarrow> known utf8 m \<Longrightarrow> known utf8 m'"
  by (erule resume_outcome.cases) (simp_all add: known_update(2) [where pid = 0])

lemma create_known:
  "good_options utf8 opts \<Longrightarrow> o_container_id opts = Some i \<Longrightarrow> known utf8 m
    \<Longrightarrow> known utf8 (m(i := Some (Some (created opts))))"
  by (blast intro: known_upd known_created)

lemma run_known:
  "run_outcome opts i m r m' \<Longrightarrow> good_options utf8 opts \<Longrightarrow> o_container_id opts = Some i
    \<Longrightarrow> known utf8 m \<Longrightarrow> known utf8 m'"
  by (erule run_outcome.cases) (auto elim!: start_known delete_known intro!: create_known)

interpretation known: machine_invariant "tame utf8 w" "known utf8" for utf8 w
proof
  fix c m r m'
  assume "step c m r m'" "tame utf8 w c" "known utf8 m"
  then show "known utf8 m'"
    by (elim stepE)
      (auto simp: tame_def elim!: start_known delete_known resume_known run_known intro!: create_known)
qed

section \<open>Sessions\<close>

text \<open>
  A session: invocations of \<open>main\<close> one after the other, each in a fresh process. The label of an
  invocation is what the front made of its command line, with the result.
\<close>

definition fresh :: "world \<Rightarrow> world" where
  "fresh w = w\<lparr>w_log := nk_log_init\<rparr>"

inductive session :: "'j jansson \<Rightarrow> (string \<Rightarrow> bool) \<Rightarrow> world
    \<Rightarrow> ((int + nk_options) \<times> int option) list \<Rightarrow> world \<Rightarrow> bool"
  for J :: "'j jansson" and utf8 :: "string \<Rightarrow> bool" and w :: world where
  idle: "session J utf8 w [] w"
| invoked: "session J utf8 w hs w1 \<Longrightarrow> tame utf8 w (res (front argv) (fresh w1))
    \<Longrightarrow> run_state (main J argv) (fresh w1) = (r, w2)
    \<Longrightarrow> session J utf8 w (hs @ [(res (front argv) (fresh w1), r)]) w2"

lemma session_views:
  assumes "jansson_library J utf8" and "store_ok w" and "int_answers w" and "known utf8 (entry J w)"
    and "session J utf8 w hs w'"
  shows "\<exists>m. history (entry J w) hs m \<and> views J w m w' \<and> known utf8 m"
  using assms(5)
proof induction
  case idle
  then show ?case using begun views_refl [OF assms(2)] assms(4) by blast
next
  case (invoked hs w1 argv r w2)
  then obtain m where m: "history (entry J w) hs m" "views J w m w1" "known utf8 m" by blast
  have v: "views J w m (fresh w1)" unfolding fresh_def by (rule views_log [OF m(2)])
  have "wp (main J argv) (\<lambda>r w'. \<exists>m'. step (res (front argv) (fresh w1)) m r m' \<and> views J w m' w') (fresh w1)"
    by (rule jansson_library.main_wp [OF assms(1) v assms(3) m(3) invoked(2)]) blast
  then obtain m' where m': "step (res (front argv) (fresh w1)) m r m'" "views J w m' w2"
    using invoked(3) by (auto simp: wp_def)
  show ?case
    using went_on [OF m(1) m'(1)] m'(2) known.step_keeps [OF m'(1) invoked(2) m(3)] by blast
qed

section \<open>Properties of sessions\<close>

text \<open>C1: the program refines the abstract machine: whatever tame command lines are run one after the
  other, the containers in the store go through a history of the machine, whose steps are the
  outcomes of the commands, and the store stays usable. A command line is tame if the
  container's name is a plain file name, name and bundle path are UTF-8, and a pid file that is
  written lies apart from the state directory: with a name that leaves the state directory, or
  with \<open>--pid-file\<close> naming a file of the store, the program changes other entries by no step of
  the machine. The kernel may refuse every call but those of the store (\<open>store_ok\<close>).\<close>

theorem sessions_refine:
  assumes "jansson_library J utf8" and "store_ok w" and "int_answers w" and "known utf8 (entry J w)"
    and "session J utf8 w hs w'"
  shows "store_ok w' \<and> (\<exists>m. history (entry J w) hs m \<and> (\<forall>k. plain_name k \<longrightarrow> entry J w' k = m k))"
  using session_views [OF assms] by (auto simp: views_def)

lemma lifecycle_views: "views J w m w' \<Longrightarrow> lifecycle_ok (entry J w') \<longleftrightarrow> lifecycle_ok m"
  by (simp add: lifecycle_ok_def views_def del: alive_ok.simps)

text \<open>C2: the life cycle is kept by every sequence of tame invocations, as in C1: every container in the store is
  CREATED without a process, or RUNNING with a positive pid, or STOPPED without a process, and
  only containers in the mode container leave the state CREATED.\<close>

theorem lifecycle_invariant:
  assumes "jansson_library J utf8" and "store_ok w" and "int_answers w" and "known utf8 (entry J w)"
    and "session J utf8 w hs w'" and "lifecycle_ok (entry J w)"
  shows "lifecycle_ok (entry J w')"
  using session_views [OF assms(1-5)] lifecycle.history_keeps [OF _ _ assms(6)]
  by (auto simp: lifecycle_views list_all_iff)

subsection \<open>What can still happen to a container\<close>

definition names :: "string \<Rightarrow> string \<Rightarrow> int + nk_options \<Rightarrow> bool" where
  "names cmd i c \<longleftrightarrow> (\<exists>opts. c = Inr opts \<and> o_command opts = cmd \<and> o_container_id opts = Some i)"

text \<open>\<open>spent\<close>: the name is taken and cannot be started any more. \<open>final\<close>: it cannot change any more.\<close>

definition spent :: "string \<Rightarrow> entries \<Rightarrow> bool" where
  "spent i m \<longleftrightarrow> (case m i of None \<Rightarrow> False | Some None \<Rightarrow> True | Some (Some c) \<Rightarrow> c_state c \<noteq> NK_STATE_CREATED)"

definition final :: "string \<Rightarrow> entries \<Rightarrow> bool" where
  "final i m \<longleftrightarrow> (case m i of None \<Rightarrow> False | Some None \<Rightarrow> True | Some (Some c) \<Rightarrow> c_state c = NK_STATE_STOPPED)"

lemma start_elsewhere: "start_outcome j a m r m' \<Longrightarrow> i \<noteq> j \<Longrightarrow> m' i = m i"
  by (erule start_outcome.cases) auto

lemma run_elsewhere: "run_outcome opts j m r m' \<Longrightarrow> i \<noteq> j \<Longrightarrow> m' i = m i"
  by (erule run_outcome.cases) (auto dest: start_elsewhere elim!: delete_outcomeE)

lemma start_spent:
  assumes "start_outcome i a m r m'" and "spent i m"
  shows "m' = m \<and> r = Some (-1, 0)"
  using assms by (auto simp: spent_def elim!: start_outcomeE)

lemma run_taken: "run_outcome opts i m r m' \<Longrightarrow> m i \<noteq> None \<Longrightarrow> m' = m \<and> r = Some (-1)"
  by (erule run_outcome.cases) auto

lemma spent_taken: "spent i m \<Longrightarrow> m i \<noteq> None"
  by (auto simp: spent_def split: option.splits)

lemma spent_resume: "resume_outcome j m m' \<Longrightarrow> spent i m \<Longrightarrow> spent i m'"
  by (erule resume_outcome.cases) (auto simp: spent_def stopped_def)

lemma step_spent:
  assumes "step c m r m'" and "spent i m" and "\<not> names ''delete'' i c"
  shows "spent i m'"
  using assms(1)
proof cases
  case (started opts j s)
  then show ?thesis
    using assms(2) start_elsewhere [OF started(4), of i] start_spent [of j _ m s m'] by (cases "i = j") (auto simp: spent_def)
next
  case (ran opts j)
  then show ?thesis
    using assms(2) run_elsewhere [OF ran(4), of i] run_taken [OF ran(4)] spent_taken [OF assms(2)]
    by (cases "i = j") (auto simp: spent_def)
next
  case (deleted opts j d)
  then have "i \<noteq> j" using assms(3) by (auto simp: names_def)
  with deleted assms(2) show ?thesis by (auto simp: spent_def elim!: delete_outcomeE)
next
  case (entered opts j)
  then show ?thesis using assms(2) spent_resume by blast
qed (use assms(2) in \<open>auto simp: spent_def\<close>)

interpretation spent: machine_invariant "\<lambda>c. \<not> names ''delete'' i c" "spent i" for i
  by unfold_locales (rule step_spent)

lemma step_final:
  assumes "step c m r m'" and "final i m" and "\<not> names ''delete'' i c \<or> m i = Some None"
  shows "m' i = m i"
proof -
  have sp: "spent i m" using assms(2) by (auto simp: spent_def final_def split: option.splits)
  show ?thesis
    using assms(1)
  proof cases
    case (started opts j s)
    then show ?thesis
      using start_elsewhere [OF started(4), of i] start_spent [of j _ m s m'] sp by (cases "i = j") auto
  next
    case (ran opts j)
    then show ?thesis
      using run_elsewhere [OF ran(4), of i] run_taken [OF ran(4)] spent_taken [OF sp] by (cases "i = j") auto
  next
    case (deleted opts j d)
    then show ?thesis using assms(3) by (auto simp: names_def elim!: delete_outcomeE)
  next
    case (entered opts j)
    then show ?thesis using assms(2) by (auto simp: final_def elim!: resume_outcomeE)
  qed (use spent_taken [OF sp] in auto)
qed

lemma history_append: "history m (hs @ ks) m' \<longleftrightarrow> (\<exists>m1. history m hs m1 \<and> history m1 ks m')"
proof (induction ks arbitrary: m' rule: rev_induct)
  case Nil
  then show ?case by (auto intro: begun elim: history.cases)
next
  case (snoc x ks)
  obtain c r where x: "x = (c, r)" by (cases x)
  show ?case
  proof
    assume "history m (hs @ ks @ [x]) m'"
    then have "history m ((hs @ ks) @ [(c, r)]) m'" by (simp add: x)
    then obtain m2 where "history m (hs @ ks) m2" "step c m2 r m'" by (rule history_snocE)
    with snoc show "\<exists>m1. history m hs m1 \<and> history m1 (ks @ [x]) m'" unfolding x by (blast intro: went_on)
  next
    assume "\<exists>m1. history m hs m1 \<and> history m1 (ks @ [x]) m'"
    then obtain m1 where m1: "history m hs m1" "history m1 (ks @ [(c, r)]) m'" unfolding x by blast
    from m1(2) obtain m2 where "history m1 ks m2" "step c m2 r m'" by (rule history_snocE)
    with snoc m1(1) have "history m ((hs @ ks) @ [(c, r)]) m'" by (blast intro: went_on)
    then show "history m (hs @ ks @ [x]) m'" by (simp add: x)
  qed
qed

lemma history_one: "history m [(c, r)] m' \<longleftrightarrow> step c m r m'"
proof
  assume "history m [(c, r)] m'"
  then have "history m ([] @ [(c, r)]) m'" by simp
  then show "step c m r m'" by (rule history_snocE) (auto elim: history.cases)
next
  assume "step c m r m'"
  from went_on [OF begun this] show "history m [(c, r)] m'" by simp
qed

lemma history_final:
  "history m hs m' \<Longrightarrow> final i m \<Longrightarrow> m i = Some None \<or> list_all (\<lambda>(c, _). \<not> names ''delete'' i c) hs \<Longrightarrow> m' i = m i"
proof (induction rule: history.induct)
  case (went_on hs m1 c r m2)
  then have m1: "m1 i = m i" by auto
  then have "final i m1" using went_on by (simp add: final_def)
  from step_final [OF went_on(2) this] m1 went_on show ?case by auto
qed simp

text \<open>A command that launches the container, and one that keeps it once it has run.\<close>

definition launches :: "string \<Rightarrow> int + nk_options \<Rightarrow> bool" where
  "launches i c \<longleftrightarrow> names ''start'' i c \<or> names ''run'' i c"

definition keeps_it :: "int + nk_options \<Rightarrow> bool" where
  "keeps_it c \<longleftrightarrow> (case c of Inl n \<Rightarrow> True | Inr opts \<Rightarrow> o_command opts = ''run'' \<longrightarrow> \<not> o_rm opts)"

lemma started_spent:
  "start_outcome i a m (Some (r, e)) m' \<Longrightarrow> r \<noteq> -1 \<Longrightarrow> spent i m'"
  by (auto simp: spent_def running_def stopped_def elim!: start_outcomeE)

lemma launch_success_spends:
  assumes "step c m r m'" and "launches i c" and "keeps_it c" and "r \<noteq> None" and "r \<noteq> Some (-1)"
  shows "spent i m'"
  using assms(1)
proof cases
  case (started opts j s)
  with assms(2) have j: "j = i" by (auto simp: launches_def names_def)
  obtain r' e where s: "s = Some (r', e)" using started(5) assms(4) by (cases s) (auto simp: pid_written_def)
  have "r' \<noteq> -1" using started(5) assms(5) by (auto simp: s pid_written_def)
  then show ?thesis using started_spent started(4) by (simp add: s j)
next
  case (ran opts j s)
  with assms(2) have j: "j = i" by (auto simp: launches_def names_def)
  have "s \<noteq> None" "s \<noteq> Some (-1)" "\<not> o_rm opts"
    using ran(1,2,5) assms(3-5) by (auto simp: pid_written_def keeps_it_def)
  with ran(4) show ?thesis
    by (auto simp: j elim!: run_outcomeE intro: started_spent)
qed (use assms(2) in \<open>auto simp: launches_def names_def\<close>)

lemma launch_spent_fails:
  assumes "step c m r m'" and "launches i c" and "spent i m"
  shows "r = Some (-1)"
  using assms(1)
proof cases
  case (started opts j s)
  then have "j = i" using assms(2) by (auto simp: launches_def names_def)
  with started(4) start_spent [OF _ assms(3)] have "s = Some (-1, 0)" by simp
  with started(5) show ?thesis by (simp add: pid_written_def)
next
  case (ran opts j s)
  then have "j = i" using assms(2) by (auto simp: launches_def names_def)
  with ran(4,5) run_taken [OF ran(4)] spent_taken [OF assms(3)] show ?thesis by (auto simp: pid_written_def)
qed (use assms(2) in \<open>auto simp: launches_def names_def\<close>)

lemma history_start_once:
  assumes "history m (hs @ [(c1, r1)] @ ks @ [(c2, r2)]) m'" and "launches i c1" and "keeps_it c1" and "launches i c2"
    and "r1 \<noteq> None" and "r1 \<noteq> Some (-1)" and "list_all (\<lambda>(c, _). \<not> names ''delete'' i c) ks"
  shows "r2 = Some (-1)"
  using assms(1) unfolding history_append history_one
  using launch_success_spends [OF _ assms(2,3,5,6)] spent.history_keeps [OF _ assms(7)] launch_spent_fails [OF _ assms(4)]
  by blast

text \<open>C5: a container is started at most once: after a start of it, or a run of it without \<open>--rm\<close>,
  that did not fail, whatever is run in between except for deleting the container, every further
  start or run of it returns -1; so the runtime never runs two processes for one container. The
  sessions are those of C1.\<close>

theorem start_once:
  assumes "jansson_library J utf8" and "store_ok w" and "int_answers w" and "known utf8 (entry J w)"
    and "session J utf8 w (hs @ [(c1, r1)] @ ks @ [(c2, r2)]) w'"
    and "launches i c1" and "keeps_it c1" and "launches i c2" and "r1 \<noteq> None" and "r1 \<noteq> Some (-1)"
    and "list_all (\<lambda>(c, _). \<not> names ''delete'' i c) ks"
  shows "r2 = Some (-1)"
  using session_views [OF assms(1-5)] history_start_once [OF _ assms(6-11)] by blast

text \<open>C14: in a session of tame invocations, as in C1, a STOPPED container never changes again until
  it is deleted, and one whose state file is damaged never changes again at all: no such command
  can start, enter, recreate or even delete it. The restriction is needed: a detached start of
  another container with \<open>--pid-file\<close> naming its state file would overwrite it.\<close>

theorem final_states:
  assumes "jansson_library J utf8" and "store_ok w" and "int_answers w" and "known utf8 (entry J w)"
    and "session J utf8 w hs w'" and "plain_name i" and "final i (entry J w)"
    and "entry J w i = Some None \<or> list_all (\<lambda>(c, _). \<not> names ''delete'' i c) hs"
  shows "entry J w' i = entry J w i"
proof -
  obtain m where m: "history (entry J w) hs m" "views J w m w'" using session_views [OF assms(1-5)] by blast
  show ?thesis using history_final [OF m(1) assms(7,8)] views_entry [OF m(2) assms(6)] by simp
qed

section \<open>Concrete sessions\<close>

definition start_argv :: "string list" where
  "start_argv = [''ns-runtime'', ''start'', ''web'']"

definition start_opts :: nk_options where
  "start_opts = default_options\<lparr>o_command := ''start'', o_container_id := Some ''web'', o_detach := True\<rparr>"

lemma start_scan: "getopt_long False [''web''] = ([], [''web''])"
  by code_simp

lemma start_opts_facts: "o_command start_opts = ''start''" "o_container_id start_opts = Some ''web''"
  "\<not> o_attach start_opts" "o_pid_file start_opts = None"
  by (simp_all add: start_opts_def default_options_def)

lemma tame_start: "tame (\<lambda>_. True) w (Inr start_opts)"
  by (simp add: tame_def good_options_def start_opts_def default_options_def)

definition start_here :: world where
  "start_here = start_world demo_doc"

lemma run_strdup: "reliable w \<Longrightarrow> run_state (strdup s) w = (s, tick Malloc None w)"
  by (simp add: strdup_def run_alloc)

lemma front_start:
  assumes "static_rel start_here w"
  shows "res (front start_argv) w = Inr start_opts"
proof -
  have env: "w_env w ''POSIXLY_CORRECT'' = None"
    using assms by (simp add: static_rel_def start_here_def world_with_def life_world_def demo_world_def)
  have rel: "reliable w"
    using store_okD(1) [OF start_store_ok] static_reliable [OF assms] by (simp add: start_here_def)
  have "wp (front start_argv) (\<lambda>c _. c = Inr start_opts) w"
    unfolding front_def start_argv_def
    by (rule wp_bind, rule wp_log_calls)
      (use env rel in \<open>simp add: wp_def nk_parse_args_def getenv_def run_strdup start_scan finish_args_def check_command_def
        id_commands_def fix_mode_def rename_resume_def start_opts_def default_options_def
        del: getopt_long.simps\<close>)
  then show ?thesis by (simp add: wp_def)
qed

lemma start_spec_still: "still w w' \<Longrightarrow> start_spec J w' = start_spec J w"
proof -
  assume st: "still w w'"
  have "bundle_spec J w' = bundle_spec J w" by (simp add: fun_eq_iff bundle_spec_def still_reads(5) [OF st])
  moreover have "entry J w' = entry J w" using st by (intro entry_cong) (simp_all add: still_def)
  ultimately show "start_spec J w' = start_spec J w" by (intro ext) (simp add: start_spec_def split: option.split)
qed

lemma fresh_rels [simp]: "still w (fresh w)" "static_rel w (fresh w)"
  by (simp_all add: still_def static_rel_def fresh_def)

lemma main_start:
  "res (main RefJ start_argv) (fresh start_here) = Some 0"
proof -
  let ?w = "fresh start_here"
  let ?v = "post (front start_argv) ?w"
  have st: "static_rel start_here ?v" and fs: "w_fs ?v = w_fs start_here"
    using front_obeys [of start_argv] static.trans [OF fresh_rels(2) [of start_here]] fresh_rels(1) [of start_here]
    by (auto simp: obeys_def same_fs_def still_def)
  then have still: "still start_here ?v" by (simp add: still_def)
  have f: "res (front start_argv) ?w = Inr start_opts" by (rule front_start) simp
  have ok: "store_ok ?v"
    using store_ok_static [OF st fs] start_store_ok [of _ demo_doc] by (simp add: start_here_def)
  have kind: "kind_kernel ?v 42 42"
    using kind_kernel_static [OF st, of 42 42] start_demo(1) [of demo_doc] by (simp add: start_here_def)
  have known: "known (\<lambda>_. True) (entry RefJ ?v)"
    using entry_cong [OF st fs, of RefJ] start_demo(2) [of demo_doc] by (simp add: start_here_def)
  have spec: "start_spec RefJ ?v ''web'' = Some (created life_opts, spec_of RefJ demo_doc)"
    using start_spec_still [OF still, of RefJ] demo_start_spec(1) by (simp add: start_here_def)
  obtain p where p: "s_process (spec_of RefJ demo_doc) = Some p" "p_args p \<noteq> None" "p_args_len p \<noteq> 0"
    by (rule demo_process)
  have "wp (dispatch RefJ start_opts) (\<lambda>r _. r = Some 0) ?v"
    unfolding dispatch_def Let_def start_opts_facts start_command_def
    by (simp add: start_opts_facts, rule wp_bind,
        rule start_ok [OF RefJ_library ok kind known plain_web(1) spec demo_start_spec(2) p])
      (simp add: wp_return wp_bind)
  then show ?thesis by (simp add: main_front wp_def split_def f)
qed

definition started_world :: world where
  "started_world = post (main RefJ start_argv) (fresh start_here)"

lemma start_here_ok: "store_ok start_here" "int_answers start_here" "known (\<lambda>_. True) (entry RefJ start_here)"
  "lifecycle_ok (entry RefJ start_here)"
proof -
  show ok: "store_ok start_here" "int_answers start_here" "known (\<lambda>_. True) (entry RefJ start_here)"
    using start_store_ok start_demo by (simp_all add: start_here_def kind_kernel_def)
  have "c = created life_opts" if "plain_name i" "entry RefJ start_here i = Some (Some c)" for i c
  proof -
    have "stored_text start_here i = None" if "i \<noteq> ''web''"
      using that \<open>plain_name i\<close> by (simp add: start_here_def stored_text_node start_store_ok file_key_def base_key_def start_statics
          demo_comps start_of_def absolute_def node_start)
    then have "i = ''web''" using that(2) by (cases "i = ''web''") (auto simp: entry_def)
    with that(2) show ?thesis by (simp add: start_here_def start_entry)
  qed
  then show "lifecycle_ok (entry RefJ start_here)"
    unfolding lifecycle_ok_def using alive_states(1) by blast
qed

lemma one_start: "session RefJ (\<lambda>_. True) start_here [(Inr start_opts, Some 0)] started_world"
proof -
  have f: "res (front start_argv) (fresh start_here) = Inr start_opts" by (rule front_start) simp
  have run: "run_state (main RefJ start_argv) (fresh start_here) = (Some 0, started_world)"
    using main_start by (simp add: started_world_def prod_eq_iff)
  have "session RefJ (\<lambda>_. True) start_here ([] @ [(res (front start_argv) (fresh start_here), Some 0)]) started_world"
    by (rule invoked [OF idle _ run]) (simp add: f tame_start)
  then show ?thesis by (simp add: f)
qed

lemma two_starts:
  "session RefJ (\<lambda>_. True) start_here ([] @ [(Inr start_opts, Some 0)] @ []
     @ [(Inr start_opts, res (main RefJ start_argv) (fresh started_world))])
     (post (main RefJ start_argv) (fresh started_world))"
proof -
  have "static_rel start_here started_world"
    using session_views [OF RefJ_library start_here_ok(1-3) one_start] by (auto simp: views_def)
  then have f: "res (front start_argv) (fresh started_world) = Inr start_opts"
    using static.trans [OF _ fresh_rels(2)] by (intro front_start) blast
  have "session RefJ (\<lambda>_. True) start_here ([(Inr start_opts, Some 0)]
      @ [(res (front start_argv) (fresh started_world), res (main RefJ start_argv) (fresh started_world))])
      (post (main RefJ start_argv) (fresh started_world))"
    by (rule invoked [OF one_start]) (simp_all add: f tame_start)
  then show ?thesis by (simp add: f)
qed

lemma names_start: "names ''start'' ''web'' (Inr start_opts)" "\<not> names ''delete'' i (Inr start_opts)"
  by (auto simp: names_def start_opts_facts)

theorem sessions_refine_witness:
  "store_ok started_world \<and> (\<exists>m. history (entry RefJ start_here) [(Inr start_opts, Some 0)] m
     \<and> entry RefJ started_world ''web'' = m ''web'')"
  using sessions_refine [OF RefJ_library start_here_ok(1-3) one_start] plain_web(1) by blast

theorem lifecycle_invariant_witness:
  "lifecycle_ok (entry RefJ started_world)"
  by (rule lifecycle_invariant [OF RefJ_library start_here_ok(1-3) one_start start_here_ok(4)])

theorem start_once_witness:
  "res (main RefJ start_argv) (fresh started_world) = Some (-1)"
  by (rule start_once [OF RefJ_library start_here_ok(1-3) two_starts, where i = "''web''"])
    (simp_all add: launches_def names_start(1), simp add: keeps_it_def start_opts_facts)

text \<open>The same container after an attached start.\<close>

definition ended_world :: world where
  "ended_world = post (nk_container_start RefJ (Some ''web'') True) start_here"

lemma ended_views:
  "views RefJ start_here ((entry RefJ start_here)(''web'' := Some (Some (stopped (created life_opts))))) ended_world"
proof -
  have kind: "kind_kernel start_here 42 42" using start_demo(1) by (simp add: start_here_def)
  obtain p where p: "s_process (spec_of RefJ demo_doc) = Some p" "p_args p \<noteq> None" "p_args_len p \<noteq> 0"
    by (rule demo_process)
  have "wp (nk_container_start RefJ (Some ''web'') True) (\<lambda>_ w'. views RefJ start_here
      ((entry RefJ start_here)(''web'' := Some (Some (stopped (created life_opts))))) w') start_here"
    by (rule start_ok [OF RefJ_library start_here_ok(1) kind start_here_ok(3) plain_web(1)
        demo_start_spec(1) [folded start_here_def] demo_start_spec(2) p]) simp
  then show ?thesis by (simp add: wp_def ended_world_def)
qed

lemma ended_ok: "store_ok ended_world" "int_answers ended_world" "known (\<lambda>_. True) (entry RefJ ended_world)"
  "entry RefJ ended_world ''web'' = Some (Some (stopped (created life_opts)))"
proof -
  show "store_ok ended_world" "int_answers ended_world"
    using ended_views start_here_ok(2) int_answers_static by (auto simp: views_def)
  show "entry RefJ ended_world ''web'' = Some (Some (stopped (created life_opts)))"
    using views_entry [OF ended_views plain_web(1)] by simp
  have "known (\<lambda>_. True) ((entry RefJ start_here)(''web'' := Some (Some (stopped (created life_opts)))))"
    by (rule known_upd [OF start_here_ok(3)], rule known_running(2) [OF known_created [OF life_good] c_int_0])
  then show "known (\<lambda>_. True) (entry RefJ ended_world)"
    using views_entry [OF ended_views] by (simp add: known_def)
qed

lemma ended_start:
  "session RefJ (\<lambda>_. True) ended_world [(Inr start_opts, res (main RefJ start_argv) (fresh ended_world))]
     (post (main RefJ start_argv) (fresh ended_world))"
proof -
  have "static_rel start_here ended_world" using ended_views by (simp add: views_def)
  then have f: "res (front start_argv) (fresh ended_world) = Inr start_opts"
    using static.trans [OF _ fresh_rels(2)] by (intro front_start) blast
  have "session RefJ (\<lambda>_. True) ended_world ([]
      @ [(res (front start_argv) (fresh ended_world), res (main RefJ start_argv) (fresh ended_world))])
      (post (main RefJ start_argv) (fresh ended_world))"
    by (rule invoked [OF idle]) (simp_all add: f tame_start)
  then show ?thesis by (simp add: f)
qed

theorem final_states_witness:
  "entry RefJ (post (main RefJ start_argv) (fresh ended_world)) ''web'' = Some (Some (stopped (created life_opts)))"
  using final_states [OF RefJ_library ended_ok(1-3) ended_start plain_web(1)]
  by (simp add: ended_ok(4) final_def stopped_def names_start(2))

end
