(* ===== verification/MainFacts.thy ===== *)
theory MainFacts
  imports MainProg StartProperties
begin

text \<open>
  What every invocation of the program keeps to, whatever the library, the kernel and the store
  do: the range of what it returns, which signals it sends, and when it enters a container.
\<close>

section \<open>Results\<close>

definition c_result :: "int \<Rightarrow> bool" where
  "c_result r \<longleftrightarrow> r = 0 \<or> r = -1"

lemma c_result_simps [simp]: "c_result 0" "c_result (-1)"
  by (simp_all add: c_result_def)

text \<open>What is returned up to the process's exit code.\<close>

definition in_range :: "int \<Rightarrow> bool" where
  "in_range v \<longleftrightarrow> -1 \<le> v \<and> v \<le> 255"

lemma in_range_simps [simp]: "in_range 0" "in_range (-1)" "in_range 1" "in_range (start_exit_code s)"
  "c_result r \<Longrightarrow> in_range r"
  using start_exit_code_bounds [of s] by (auto simp: in_range_def c_result_def)

lemma in_range_resume [simp]: "in_range (resume_exit_code s)"
  by (simp add: exit_code_spec(2))

lemmas wp_struct = wp_bind wp_if wp_return wp_option wp_sum wp_prod wp_let

lemma create_result: "wp (nk_container_create J opts) (\<lambda>r _. c_result r) w"
  unfolding nk_container_create_def create_container_def Let_def
  by (intro wp_struct wp_any) simp_all

lemma delete_result: "wp (nk_container_delete J i) (\<lambda>r _. c_result r) w"
  unfolding nk_container_delete_def by (intro wp_struct wp_any) simp_all

lemma pid_file_result: "wp (write_container_pid_file J f i) (\<lambda>r _. c_result r) w"
  unfolding write_container_pid_file_def write_pid_file_def
  by (intro wp_struct wp_any) simp_all

definition start_result :: "(int \<times> int) option \<Rightarrow> bool" where
  "start_result s \<longleftrightarrow> (case s of None \<Rightarrow> True | Some (r, e) \<Rightarrow> c_result r \<and> in_range e)"

lemma start_result_simps [simp]:
  "start_result None" "start_result (Some (r, e)) = (c_result r \<and> in_range e)"
  by (simp_all add: start_result_def)

lemma launch_result: "wp (launch J c x a) (\<lambda>r _. start_result (Some r)) w"
  unfolding launch_def wait_attached_def Let_def
  by (intro wp_struct wp_any) simp_all

lemma start_command_result: "wp (nk_container_start J i a) (\<lambda>s _. start_result s) w"
  unfolding nk_container_start_def
  by (intro wp_struct launch_result [THEN wp_mono] wp_any) simp_all

lemma run_result: "wp (nk_container_run J o') (\<lambda>r _. pred_option in_range r) w"
proof -
  have finish: "start_result s \<Longrightarrow> wp (finish_run J opts s) (\<lambda>r _. pred_option in_range r) w" for s opts w
    unfolding finish_run_def by (intro wp_struct wp_any) auto
  show ?thesis
    unfolding nk_container_run_def
    by (intro wp_struct start_command_result [THEN wp_mono] finish wp_any) simp_all
qed

lemma resume_result: "wp (nk_container_resume J i cmd) (\<lambda>r _. in_range r) w"
  unfolding nk_container_resume_def enter_namespaces_def Let_def
  by (intro wp_struct wp_any) simp_all

lemma wp_pid_file: "(\<And>r w'. c_result r \<Longrightarrow> Q r w') \<Longrightarrow> wp (write_container_pid_file J f i) Q w"
  by (rule wp_mono [OF pid_file_result])

lemma start_main_result: "wp (start_command J opts) (\<lambda>r _. pred_option in_range r) w"
  unfolding start_command_def
  by (intro wp_struct start_command_result [THEN wp_mono] wp_pid_file)
    (auto simp: start_result_def)

lemma run_main_result: "wp (run_command J opts) (\<lambda>r _. pred_option in_range r) w"
  unfolding run_command_def
  by (intro wp_struct run_result [THEN wp_mono] wp_pid_file) auto

lemma dispatch_result: "wp (dispatch J opts) (\<lambda>r _. pred_option in_range r) w"
  unfolding dispatch_def Let_def state_command_def
  by (intro wp_struct start_main_result run_main_result create_result [THEN wp_mono] resume_result [THEN wp_mono]
      delete_result [THEN wp_mono] wp_any) simp_all

lemma main_result: "wp (main J argv) (\<lambda>r _. pred_option in_range r) w"
proof -
  have rest: "wp (case p of ParseError \<Rightarrow> do { print_usage; ret (Some 1) } | Exit n \<Rightarrow> ret (Some n)
      | Parsed opts \<Rightarrow> do { opts \<leftarrow> rename_resume opts; dispatch J opts }) (\<lambda>r _. pred_option in_range r) w'"
    if "parsed options_ok p" for p w'
  proof (cases p)
    case (Parsed opts)
    show ?thesis
      unfolding Parsed parse_result.case by (rule wp_bind, rule wp_any, rule dispatch_result)
  qed (use that in \<open>simp_all add: wp_bind_eq wp_any wp_return\<close>)
  show ?thesis
    unfolding main_def by (rule wp_bind, rule wp_any, rule wp_bind, rule wp_mono [OF parse_args_wp])
      (auto intro: rest elim: parsed_mono)
qed

text \<open>C24: whatever the command line, the kernel and the store do, the program crashes, or returns a value
  from -1 to 255. A failure, -1, reaches the caller as the exit status 255; every other result
  reaches it unchanged, so that a process that exited with 255 cannot be told from a failure.\<close>

theorem main_exit_status:
  "wp (main J argv) (\<lambda>r _. case r of None \<Rightarrow> True
     | Some v \<Rightarrow> v = -1 \<and> exit_status v = 255 \<or> 0 \<le> v \<and> v \<le> 255 \<and> exit_status v = v) w"
proof (rule wp_mono [OF main_result])
  fix r
  assume r: "pred_option in_range r"
  have "v = -1 \<and> exit_status v = 255 \<or> 0 \<le> v \<and> v \<le> 255 \<and> exit_status v = v" if "in_range v" for v
  proof (cases "v = -1")
    case False
    then show ?thesis using that by (simp add: in_range_def exit_status_def)
  qed (simp add: exit_status_def)
  with r show "case r of None \<Rightarrow> True
     | Some v \<Rightarrow> v = -1 \<and> exit_status v = 255 \<or> 0 \<le> v \<and> v \<le> 255 \<and> exit_status v = v"
    by (cases r) simp_all
qed

section \<open>The pid file\<close>

lemma wp_write_pid:
  assumes "reliable v" and "w_fs v = w_fs w" and "w_cwd v = w_cwd w" and "f \<noteq> []" and "resolve w f = Inr k" and "k \<noteq> []"
    and "node_at (w_fs w) k = None \<or> (\<exists>s. node_at (w_fs w) k = Some (Reg s))"
  shows "wp (write_pid_file (Some f) pid) (\<lambda>r w'. r = 0
    \<and> (\<forall>k'. node_at (w_fs w') k' = (if k' = k then Some (Reg (dec_int pid @ [CHR 10])) else node_at (w_fs w) k'))) v"
proof -
  have r: "resolve v f = Inr k" using lookup_cong(2) [OF assms(2,3)] assms(5) by simp
  show ?thesis
    unfolding write_pid_file_def
    by (intro wp_if wp_bind wp_return wp_sum wp_log_calls wp_fopen_w wp_fwrite wp_fclose_w)
      (use assms r in \<open>auto simp: node_append_file\<close>)
qed

text \<open>C33: asking for the pid file of a container writes the pid that the store records, in decimal with a
  line end, into exactly the named file, when the kernel refuses nothing and the path leads to
  no directory; a container without a process is refused and nothing is written. The path is
  not checked in any other way: it may be a file of the store.\<close>

theorem pid_file_written:
  assumes "store_ok w" and "entry J w i = Some (Some c)" and "f \<noteq> []" and "resolve w f = Inr k" and "k \<noteq> []"
    and "node_at (w_fs w) k = None \<or> (\<exists>s. node_at (w_fs w) k = Some (Reg s))"
  shows "wp (write_container_pid_file J (Some f) (Some i)) (\<lambda>r w'.
    if 0 < c_init_pid c
    then r = 0 \<and> (\<forall>k'. node_at (w_fs w') k' =
      (if k' = k then Some (Reg (dec_int (c_init_pid c) @ [CHR 10])) else node_at (w_fs w) k'))
    else r = -1 \<and> w_fs w' = w_fs w) w"
proof -
  note rel = store_okD(1) [OF assms(1)]
  have wr: "wp (write_pid_file (Some f) pid) Q v" 
    if "still w v" "\<And>w'. \<forall>k'. node_at (w_fs w') k' = (if k' = k then Some (Reg (dec_int pid @ [CHR 10])) else node_at (w_fs w) k')
      \<Longrightarrow> Q 0 w'" for pid Q v
    by (rule wp_mono [OF wp_write_pid [OF _ _ _ assms(3-6)]])
      (use that still_reads(1) [OF that(1)] rel in \<open>auto simp: still_def static_rel_def\<close>)
  show ?thesis
    unfolding write_container_pid_file_def option.case
    apply (intro wp_bind wp_still_state [where w = w and J = J])
    apply (simp, rule rel)
    unfolding loaded_Some [where m = "entry J w" and i = i, OF assms(2)] option.case
    apply (intro wp_if wp_bind wp_return wp_log_calls wr)
    apply (auto simp: still_def)
    done
qed


definition running_world :: world where
  "running_world = world_with (running (created life_opts) 42) demo_doc"

lemma running_world_ok: "store_ok running_world"
  "entry RefJ running_world ''web'' = Some (Some (running (created life_opts) 42))"
proof -
  have k: "known_container (\<lambda>_. True) ''web'' (running (created life_opts) 42)"
    by (rule known_running [OF known_created [OF life_good]]) (simp add: c_int_def)
  show "store_ok running_world" "entry RefJ running_world ''web'' = Some (Some (running (created life_opts) 42))"
    by (simp_all add: running_world_def start_store_ok world_entry [OF k])
qed

theorem pid_file_written_witness:
  "wp (write_container_pid_file RefJ (Some ''/pid'') (Some ''web'')) (\<lambda>r w'. r = 0
     \<and> node_at (w_fs w') [''pid''] = Some (Reg (''42'' @ [CHR 10]))) running_world"
proof -
  have res: "resolve running_world ''/pid'' = Inr [''pid'']"
    by (simp add: resolve_def start_of_def absolute_def comps_def running_world_def node_start)
  have dec: "dec_int 42 = ''42''" by code_simp
  show ?thesis
    by (rule wp_mono [OF pid_file_written [OF running_world_ok _ res]])
      (simp_all add: running_world_def node_start, simp add: running_def dec)
qed

section \<open>Signals and helpers\<close>

text \<open>The calls on processes among the events.\<close>

fun watched :: "call \<Rightarrow> bool" where
  "watched (Kill p s) = True" | "watched (Usleep n) = True" | "watched (Access p) = True"
| "watched Fork = True" | "watched (Execvp f a) = True" | "watched (Waitpid p) = True"
| "watched (Clone f) = True" | "watched _ = False"

definition seen :: "world \<Rightarrow> world \<Rightarrow> (call \<times> errno option) list" where
  "seen w w' = filter (\<lambda>(c, _). watched c) (events w w')"

lemma seen_simps [simp]:
  "seen w w = []" "seen w (w1\<lparr>w_log := l\<rparr>) = seen w w1"
  "extends w w1 \<Longrightarrow> seen w (tick c e w1) = seen w w1 @ (if watched c then [(c, e)] else [])"
  by (simp_all add: seen_def)

lemma store_not_watched: "store_call c \<Longrightarrow> \<not> watched c"
  by (cases c) simp_all

lemma cleanup_not_watched: "cleanup_call i c \<Longrightarrow> \<not> watched c"
  by (cases c) simp_all

lemma wp_quiet:
  assumes "obeys (calls_rel C) m" and "\<And>c. C c \<Longrightarrow> \<not> watched c" and "extends u w"
    and "\<And>a w'. extends u w' \<Longrightarrow> seen u w' = seen u w \<Longrightarrow> Q a w'"
  shows "wp m Q w"
proof (rule wp_events_in [OF assms(1,3)])
  fix a w' es
  assume e: "extends u w'" "events u w' = events u w @ es" "events_in C es"
  have "filter (\<lambda>(c, _). watched c) es = []"
    using e(3) assms(2) by (auto simp: events_in_def list_all_iff filter_empty_conv)
  then show "Q a w'" by (intro assms(4) [OF e(1)]) (simp add: seen_def e(2))
qed

lemma wp_seen_load:
  assumes "reliable w" and "\<And>w'. extends w w' \<Longrightarrow> w_oracle w' = w_oracle w \<Longrightarrow> seen w w' = [] \<Longrightarrow> Q (loaded w (entry J w) i) w'"
  shows "wp (nk_state_load J (Some i)) Q (w\<lparr>w_log := l\<rparr>)"
proof -
  have st: "still w (w\<lparr>w_log := l\<rparr>)" by simp
  have same_oracle: "wp (nk_state_load J (Some i)) (\<lambda>r w'. w_oracle w' = w_oracle w) (w\<lparr>w_log := l\<rparr>)"
    by (rule wp_mono [OF wp_obeys [OF nk_state_load_obeys(1)]]) (simp add: static_rel_def)
  have "wp (nk_state_load J (Some i)) (\<lambda>r w'. r = loaded w (entry J w) i \<and> w_oracle w' = w_oracle w
      \<and> extends w w' \<and> seen w w' = []) (w\<lparr>w_log := l\<rparr>)"
    by (intro wp_conj wp_still_state [OF st assms(1)] refl same_oracle
        wp_quiet [OF nk_state_load_obeys(3) store_not_watched, where u = w]) simp_all
  then show ?thesis by (rule wp_mono) (simp add: assms(2))
qed

text \<open>
  The escalation of a deletion: SIGTERM; if it was delivered, 0.1 s of waiting and a probe; if
  the process is still there, SIGKILL.
\<close>

inductive escalation :: "int \<Rightarrow> (call \<times> errno option) list \<Rightarrow> bool" for p :: int where
  undelivered: "escalation p [(Kill p SIGTERM, Some e)]"
| gone: "escalation p [(Kill p SIGTERM, None), (Usleep 100000, u), (Kill p SIG0, Some e)]"
| forced: "escalation p [(Kill p SIGTERM, None), (Usleep 100000, u), (Kill p SIG0, None), (Kill p SIGKILL, k)]"

lemma stop_init_seen:
  assumes "extends u w" and "seen u w = []"
    and "\<And>w'. extends u w' \<Longrightarrow> (if c_state c = NK_STATE_RUNNING \<and> 0 < c_init_pid c
      then escalation (c_init_pid c) (seen u w') else seen u w' = []) \<Longrightarrow> Q () w'"
  shows "wp (stop_init c) Q w"
proof (cases "c_state c = NK_STATE_RUNNING \<and> 0 < c_init_pid c")
  case True
  have Q: "extends u w' \<Longrightarrow> escalation (c_init_pid c) (seen u w') \<Longrightarrow> Q () w'" for w'
    using assms(3) True by simp
  show ?thesis
    unfolding stop_init_def nk_container_signal_def
    by (intro wp_struct wp_log_calls wp_kernel)
      (use assms(1,2) True in \<open>auto simp: failed_def intro!: Q intro: escalation.intros\<close>)
next
  case False
  then show ?thesis using assms by (auto simp: stop_init_def intro: wp_return)
qed

text \<open>C22: deleting a container signals its process only if the container is recorded as running with a
  positive pid, and then by the escalation SIGTERM, a wait of 0.1 s (the documentation says
  5 s), a probe, SIGKILL; a SIGKILL is sent only to a process that outlived the SIGTERM.\<close>

theorem delete_signals:
  assumes "store_ok w" and "plain_name i"
  shows "wp (nk_container_delete J (Some i)) (\<lambda>_ w'. case entry J w i of
     Some (Some c) \<Rightarrow> if c_state c = NK_STATE_RUNNING \<and> 0 < c_init_pid c
       then escalation (c_init_pid c) (seen w w') else seen w w' = []
   | _ \<Rightarrow> seen w w' = []) w"
proof -
  note rel = store_okD(1) [OF assms(1)]
  show ?thesis
  proof (cases rule: loaded_cases [of "entry J w" i w])
    case none
    have "(case entry J w i of Some (Some c) \<Rightarrow> X c | _ \<Rightarrow> Y) = Y" for X :: "nk_container \<Rightarrow> bool" and Y
      using none(1) by (auto split: option.split)
    note this [where Y = "seen w w' = []" for w', simp]
    show ?thesis
      unfolding nk_container_delete_def
      by (intro wp_bind wp_log_calls wp_seen_load [OF rel]) (auto simp: none(2) intro!: wp_bind wp_return wp_log_calls)
  next
    case (some c)
    note quiet = wp_quiet [OF cgroup_cleanup_obeys cleanup_not_watched, where u = w]
      wp_quiet [OF nk_state_delete_obeys(3) store_not_watched, where u = w]
    show ?thesis
      unfolding nk_container_delete_def some option.case
      apply (intro wp_bind wp_log_calls wp_seen_load [OF rel])
      unfolding loaded_Some [where m = "entry J w" and i = i, OF some] option.case
      apply (intro wp_struct wp_log_calls stop_init_seen [where u = w] quiet)
      apply (auto split: if_splits)
      done
  qed
qed

theorem delete_signals_witness:
  "wp (nk_container_delete RefJ (Some ''web'')) (\<lambda>_ w'. escalation 42 (seen running_world w')) running_world"
  by (rule wp_mono [OF delete_signals [OF running_world_ok(1) plain_web(1), where J = RefJ]])
    (simp add: running_world_ok(2) running_def)

text \<open>
  The calls of entering a container: the probes, the fork, the helper that becomes nsenter, the
  wait for it, and the probe that looks whether the container's process has ended meanwhile.
\<close>

definition handles_path :: "int \<Rightarrow> string" where
  "handles_path p = snprintf_n 64 (''/proc/'' @ dec_int p @ ''/ns/pid'')"

definition alive_answer :: "errno option \<Rightarrow> bool" where
  "alive_answer k \<longleftrightarrow> k = None \<or> k = Some EPERM"

definition probes :: "int \<Rightarrow> (call \<times> errno option) list \<Rightarrow> bool" where
  "probes p es \<longleftrightarrow> (\<exists>k h. alive_answer k \<and> es = [(Kill p SIG0, k),
     (Access ''/proc/self/ns/pid'', None), (Access (handles_path p), h)])"

text \<open>The pids a kernel gives to forks.\<close>

definition forked :: "world \<Rightarrow> int \<Rightarrow> bool" where
  "forked w child \<longleftrightarrow> (\<exists>n q. child = a_val (w_oracle w n q Fork))"

definition helper :: "world \<Rightarrow> int \<Rightarrow> cptr \<Rightarrow> (call \<times> errno option) list \<Rightarrow> bool" where
  "helper w p cmd es \<longleftrightarrow> (\<exists>f. es = [(Fork, f)]) \<or> (\<exists>x child s after. forked w child \<and>
     es = [(Fork, None), (Execvp ''nsenter'' (nsenter_argv (snprintf_n 32 (dec_int p)) cmd), x), (Waitpid child, s)] @ after
     \<and> (after = [] \<or> (\<exists>k. after = [(Kill p SIG0, k)])))"

definition entering :: "world \<Rightarrow> nk_container \<Rightarrow> cptr \<Rightarrow> (call \<times> errno option) list \<Rightarrow> bool" where
  "entering w c cmd es \<longleftrightarrow> c_state c = NK_STATE_RUNNING \<and> 0 < c_init_pid c
     \<and> (\<exists>a b. es = a @ b \<and> probes (c_init_pid c) a \<and> helper w (c_init_pid c) cmd b)"

text \<open>The calls of a refusal: probes only.\<close>

fun probe_call :: "call \<Rightarrow> bool" where
  "probe_call (Kill p s) = (s = SIG0)" | "probe_call (Access p) = True" | "probe_call _ = False"

lemma wp_alive:
  assumes "extends u w" and "0 < p"
    and "\<And>w'. extends u w' \<Longrightarrow> w_oracle w' = w_oracle w \<Longrightarrow> seen u w' = seen u w @ [(Kill p SIG0, None)] \<Longrightarrow> Q True w'"
    and "\<And>e w'. extends u w' \<Longrightarrow> w_oracle w' = w_oracle w \<Longrightarrow> seen u w' = seen u w @ [(Kill p SIG0, Some e)] \<Longrightarrow> Q (e = EPERM) w'"
  shows "wp (is_pid_alive p) Q w"
  unfolding is_pid_alive_def
  by (intro wp_struct wp_kernel) (use assms in auto)

lemma wp_update_stopped:
  assumes "extends u w" and "c_state c = NK_STATE_RUNNING" and "0 < c_init_pid c"
    and "\<And>k w'. extends u w' \<Longrightarrow> seen u w' = seen u w @ [(Kill (c_init_pid c) SIG0, k)] \<Longrightarrow> Q () w'"
  shows "wp (update_stopped_state_if_dead J (Some c)) Q w"
  unfolding update_stopped_state_if_dead_def option.case
  by (intro wp_struct wp_log_calls wp_alive [where u = u]
      wp_quiet [OF nk_state_save_obeys(3) store_not_watched, where u = u])
    (use assms in auto)

lemma wp_nsenter:
  assumes "extends u w"
    and "\<And>a x w'. extends u w' \<Longrightarrow> seen u w' = seen u w @ [(Execvp ''nsenter'' argv, x)] \<Longrightarrow> Q a w'"
  shows "wp (in_child Helper (exec_nsenter argv)) Q w"
proof (rule wp_in_child [where P = "\<lambda>_ es. \<exists>x. es = [(Execvp ''nsenter'' argv, x)]", OF _ assms(1)])
  show "wp (exec_nsenter argv) (\<lambda>a w'. extends v w' \<and> (\<exists>x. events v w' = [(Execvp ''nsenter'' argv, x)])) v" for v
    unfolding exec_nsenter_def by (intro wp_struct wp_log_calls wp_kernel) auto
qed (use assms(2) in \<open>auto simp: seen_def\<close>)

lemma enter_wp:
  assumes "extends u w" and "c_state c = NK_STATE_RUNNING" and "0 < c_init_pid c"
    and "alive_answer k" and "w_oracle w = w_oracle u"
    and "seen u w = [(Kill (c_init_pid c) SIG0, k), (Access ''/proc/self/ns/pid'', None)]"
  shows "wp (enter_namespaces J c cmd) (\<lambda>_ w'. entering u c cmd (seen u w')) w"
proof -
  have entering: "entering u c cmd ((Kill (c_init_pid c) SIG0, k) # (Access ''/proc/self/ns/pid'', None)
      # (Access (handles_path (c_init_pid c)), h) # es)"
    if "helper u (c_init_pid c) cmd es" for h es
  proof -
    let ?a = "[(Kill (c_init_pid c) SIG0, k), (Access ''/proc/self/ns/pid'', None), (Access (handles_path (c_init_pid c)), h)]"
    have "probes (c_init_pid c) ?a" using assms(4) unfolding probes_def by blast
    with that assms(2,3) show ?thesis unfolding entering_def by (intro conjI exI [of _ ?a] exI [of _ es]) auto
  qed
  have h: "helper u p cmd [(Fork, f)]"
    "forked u v \<Longrightarrow> helper u p cmd [(Fork, None), (Execvp ''nsenter'' (nsenter_argv (snprintf_n 32 (dec_int p)) cmd), x), (Waitpid v, s)]"
    "forked u v \<Longrightarrow> helper u p cmd [(Fork, None), (Execvp ''nsenter'' (nsenter_argv (snprintf_n 32 (dec_int p)) cmd), x), (Waitpid v, s),
       (Kill p SIG0, k')]"
    for p f x v s k'
    by (simp_all add: helper_def)
  have fork: "forked u (a_val (next_answer Fork w'))" if "w_oracle w' = w_oracle u" for w'
    using that by (auto simp: forked_def next_answer_def)
  have path: "has_pid_namespace_handles (c_init_pid c) = do {
      r \<leftarrow> kernel (Access (handles_path (c_init_pid c))); ret (\<not> failed r) }"
    using assms(3) by (simp add: has_pid_namespace_handles_def handles_path_def)
  show ?thesis
    unfolding enter_namespaces_def path Let_def
    by (intro wp_struct wp_log_calls wp_kernel_val [where c = Fork] wp_kernel wp_nsenter [where u = u]
        wp_update_stopped [where u = u])
      (simp_all add: assms(1-3,5,6) entering h fork)
qed

text \<open>C21: \<open>exec\<close> forks and runs a helper only for a container recorded as running whose process
  answers a probe (with success or EPERM) while \<open>/proc\<close> is there; the helper only becomes
  nsenter on that pid with the given command, and the pid that the fork gave is waited for. In every other case -1 is
  returned after probes alone.\<close>

theorem exec_guarded:
  assumes "store_ok w"
  shows "wp (nk_container_resume J (Some i) cmd) (\<lambda>r w'.
     r = -1 \<and> events_in probe_call (seen w w')
     \<or> (\<exists>c f. entry J w i = Some (Some c) \<and> entering w (c\<lparr>c_state_file := f\<rparr>) cmd (seen w w'))) w"
proof (cases rule: loaded_cases [of "entry J w" i w])
  case none
  show ?thesis
    unfolding nk_container_resume_def
    by (intro wp_bind wp_log_calls wp_seen_load [OF store_okD(1) [OF assms]])
      (auto simp: none(2) events_in_def intro!: wp_bind wp_return wp_log_calls)
next
  case (some c)
  note enter = wp_mono [OF enter_wp [where u = w]]
  show ?thesis
    unfolding nk_container_resume_def is_procfs_available_def
    apply (intro wp_bind wp_log_calls wp_seen_load [OF store_okD(1) [OF assms]])
    unfolding loaded_Some [where m = "entry J w" and i = i, OF some] option.case
    apply (intro wp_struct wp_log_calls wp_kernel wp_alive [where u = w] wp_update_stopped [where u = w] enter)
    apply (simp_all add: events_in_def some failed_def alive_answer_def)
    apply fastforce+
    done
qed

theorem exec_guarded_witness:
  "wp (nk_container_resume RefJ (Some ''web'') None) (\<lambda>r w'. r = -1 \<and> events_in probe_call (seen (start_world demo_doc) w'))
     (start_world demo_doc)"
  by (rule wp_mono [OF exec_guarded [OF start_store_ok]]) (auto simp: start_entry entering_def)

end
