(* ===== verification/SyncPipe.thy ===== *)
theory SyncPipe
  imports ProcessFacts
begin

text \<open>
  The synchronisation of \<open>nk_container_exec\<close> with its child, as two processes that run at the
  same time. \<open>Process\<close> runs the child to its end before the parent goes on, and takes every
  \<open>waitpid\<close> to return; here the steps of the two on the pipe interleave freely: the parent closes
  its copy of the write end, reads one byte and, unless the byte says READY, waits for the child;
  the child closes its copy of the read end, sets up, writes its byte, closes the write end, and
  either becomes the program or ends. Reading blocks while the pipe is empty and a write end is
  open; writing without a reader kills the writer; waiting blocks until the child has ended. When
  the program ends is not up to the code: it is a step of its own. The theorems show that every
  interleaving that gives the parent an answer gives the one that \<open>clone_and_wait\<close> computes, and
  in which one case the parent is left waiting for the program.
\<close>

section \<open>The protocol\<close>

datatype parent_pc = P_cloned | P_reading | P_reaping | P_returned bool

datatype child_pc = C_started | C_setup | C_closing | C_program | C_ended

record chan =
  c_parent :: parent_pc
  c_child :: child_pc
  c_buf :: "char list"
  c_pr :: bool
  c_pw :: bool
  c_cr :: bool
  c_cw :: bool

text \<open>After \<open>clone\<close>: both processes hold both ends.\<close>

definition sync_init :: chan where
  "sync_init = \<lparr>c_parent = P_cloned, c_child = C_started, c_buf = [], c_pr = True, c_pw = True,
     c_cr = True, c_cw = True\<rparr>"

text \<open>The steps of the parent; \<open>rd\<close> says that its \<open>read\<close> is not refused.\<close>

inductive parent_step :: "bool \<Rightarrow> chan \<Rightarrow> chan \<Rightarrow> bool" for rd :: bool and s :: chan where
  parent_close: "c_parent s = P_cloned \<Longrightarrow> parent_step rd s (s\<lparr>c_pw := False, c_parent := P_reading\<rparr>)"
| parent_refused: "c_parent s = P_reading \<Longrightarrow> \<not> rd \<Longrightarrow>
    parent_step rd s (s\<lparr>c_pr := False, c_parent := P_reaping\<rparr>)"
| parent_ready: "c_parent s = P_reading \<Longrightarrow> rd \<Longrightarrow> c_buf s = CHILD_SYNC_READY # bs \<Longrightarrow>
    parent_step rd s (s\<lparr>c_buf := bs, c_pr := False, c_parent := P_returned True\<rparr>)"
| parent_error: "c_parent s = P_reading \<Longrightarrow> rd \<Longrightarrow> c_buf s = b # bs \<Longrightarrow> b \<noteq> CHILD_SYNC_READY \<Longrightarrow>
    parent_step rd s (s\<lparr>c_buf := bs, c_pr := False, c_parent := P_reaping\<rparr>)"
| parent_eof: "c_parent s = P_reading \<Longrightarrow> rd \<Longrightarrow> c_buf s = [] \<Longrightarrow> \<not> c_pw s \<Longrightarrow> \<not> c_cw s \<Longrightarrow>
    parent_step rd s (s\<lparr>c_pr := False, c_parent := P_reaping\<rparr>)"
| parent_reap: "c_parent s = P_reaping \<Longrightarrow> c_child s = C_ended \<Longrightarrow>
    parent_step rd s (s\<lparr>c_parent := P_returned False\<rparr>)"

text \<open>
  The steps of the child: \<open>bytes\<close> is what its \<open>write\<close> puts into the pipe (nothing if it is
  refused), and \<open>runs\<close> says that \<open>execve\<close> replaces it by the program; otherwise it exits with 1.
\<close>

inductive child_step :: "char list \<Rightarrow> bool \<Rightarrow> chan \<Rightarrow> chan \<Rightarrow> bool"
  for bytes :: "char list" and runs :: bool and s :: chan where
  child_close: "c_child s = C_started \<Longrightarrow> child_step bytes runs s (s\<lparr>c_cr := False, c_child := C_setup\<rparr>)"
| child_write: "c_child s = C_setup \<Longrightarrow> c_pr s \<or> c_cr s \<Longrightarrow>
    child_step bytes runs s (s\<lparr>c_buf := c_buf s @ bytes, c_child := C_closing\<rparr>)"
| child_killed: "c_child s = C_setup \<Longrightarrow> \<not> c_pr s \<Longrightarrow> \<not> c_cr s \<Longrightarrow>
    child_step bytes runs s (s\<lparr>c_cw := False, c_child := C_ended\<rparr>)"
| child_executes: "c_child s = C_closing \<Longrightarrow> runs \<Longrightarrow>
    child_step bytes runs s (s\<lparr>c_cw := False, c_child := C_program\<rparr>)"
| child_exits: "c_child s = C_closing \<Longrightarrow> \<not> runs \<Longrightarrow>
    child_step bytes runs s (s\<lparr>c_cw := False, c_child := C_ended\<rparr>)"

text \<open>The program, which is none of the code's, may end at any time or never.\<close>

inductive program_ends :: "chan \<Rightarrow> chan \<Rightarrow> bool" for s :: chan where
  program_ends: "c_child s = C_program \<Longrightarrow> program_ends s (s\<lparr>c_child := C_ended\<rparr>)"

definition code_step :: "char list \<Rightarrow> bool \<Rightarrow> bool \<Rightarrow> chan \<Rightarrow> chan \<Rightarrow> bool" where
  "code_step bytes rd runs s s' \<longleftrightarrow> parent_step rd s s' \<or> child_step bytes runs s s'"

definition sync_step :: "char list \<Rightarrow> bool \<Rightarrow> bool \<Rightarrow> chan \<Rightarrow> chan \<Rightarrow> bool" where
  "sync_step bytes rd runs s s' \<longleftrightarrow> code_step bytes rd runs s s' \<or> program_ends s s'"

abbreviation code_run :: "char list \<Rightarrow> bool \<Rightarrow> bool \<Rightarrow> chan \<Rightarrow> chan \<Rightarrow> bool" where
  "code_run bytes rd runs \<equiv> (code_step bytes rd runs)\<^sup>*\<^sup>*"

abbreviation sync_run :: "char list \<Rightarrow> bool \<Rightarrow> bool \<Rightarrow> chan \<Rightarrow> chan \<Rightarrow> bool" where
  "sync_run bytes rd runs \<equiv> (sync_step bytes rd runs)\<^sup>*\<^sup>*"

definition sync_answer :: "char list \<Rightarrow> bool \<Rightarrow> bool" where
  "sync_answer bytes rd \<longleftrightarrow> rd \<and> bytes = [CHILD_SYNC_READY]"

text \<open>The parent waits for a program that runs.\<close>

definition blocked :: "chan \<Rightarrow> bool" where
  "blocked s \<longleftrightarrow> c_parent s = P_reaping \<and> c_child s = C_program"

lemma code_stepI:
  "parent_step rd s s' \<Longrightarrow> code_step bytes rd runs s s'" "child_step bytes runs s s' \<Longrightarrow> code_step bytes rd runs s s'"
  by (simp_all add: code_step_def)

lemmas code_steps = parent_step.intros [THEN code_stepI(1)] child_step.intros [THEN code_stepI(2)]

section \<open>How many steps the code makes\<close>

fun parent_rank :: "parent_pc \<Rightarrow> nat" where
  "parent_rank P_cloned = 3" | "parent_rank P_reading = 2" | "parent_rank P_reaping = 1"
| "parent_rank (P_returned b) = 0"

fun child_rank :: "child_pc \<Rightarrow> nat" where
  "child_rank C_started = 3" | "child_rank C_setup = 2" | "child_rank C_closing = 1"
| "child_rank C_program = 0" | "child_rank C_ended = 0"

definition sync_rank :: "chan \<Rightarrow> nat" where
  "sync_rank s = parent_rank (c_parent s) + child_rank (c_child s)"

lemma code_step_rank: "code_step bytes rd runs s s' \<Longrightarrow> sync_rank s' < sync_rank s"
  by (auto simp: code_step_def sync_rank_def elim!: parent_step.cases child_step.cases)

lemma sync_step_rank: "sync_step bytes rd runs s s' \<Longrightarrow> sync_rank s' \<le> sync_rank s"
  by (auto simp: sync_step_def dest: code_step_rank elim!: program_ends.cases) (simp add: sync_rank_def)

lemma sync_rank_init: "sync_rank sync_init = 6"
  by (simp add: sync_rank_def sync_init_def)

lemma code_steps_rank: "(code_step bytes rd runs ^^ n) s s' \<Longrightarrow> sync_rank s' + n \<le> sync_rank s"
proof (induction n arbitrary: s')
  case (Suc n)
  then obtain t where t: "(code_step bytes rd runs ^^ n) s t" "code_step bytes rd runs t s'" by auto
  with Suc.IH [OF t(1)] code_step_rank [OF t(2)] show ?case by simp
qed simp

section \<open>What every interleaving keeps\<close>

definition sync_inv :: "char list \<Rightarrow> bool \<Rightarrow> bool \<Rightarrow> chan \<Rightarrow> bool" where
  "sync_inv bytes rd runs s \<longleftrightarrow>
     (case c_parent s of
        P_cloned \<Rightarrow> c_pr s
      | P_reading \<Rightarrow> c_pr s \<and> \<not> c_pw s
      | P_reaping \<Rightarrow> \<not> sync_answer bytes rd
      | P_returned b \<Rightarrow> b = sync_answer bytes rd)
   \<and> (c_child s = C_program \<longrightarrow> runs)
   \<and> (c_parent s = P_cloned \<or> c_parent s = P_reading \<longrightarrow>
      (case c_child s of
         C_started \<Rightarrow> c_buf s = [] \<and> c_cw s | C_setup \<Rightarrow> c_buf s = [] \<and> c_cw s | C_closing \<Rightarrow> c_buf s = bytes
       | C_program \<Rightarrow> c_buf s = bytes \<and> \<not> c_cw s | C_ended \<Rightarrow> c_buf s = bytes \<and> \<not> c_cw s))"

lemma sync_inv_init: "sync_inv bytes rd runs sync_init"
  by (simp add: sync_inv_def sync_init_def)

lemma sync_inv_parent:
  assumes "length bytes \<le> 1" and "parent_step rd s s'" and "sync_inv bytes rd runs s"
  shows "sync_inv bytes rd runs s'"
proof -
  obtain x where bytes: "bytes = [] \<or> bytes = [x]" using assms(1) by (cases bytes) auto
  note inv = assms(3) [unfolded sync_inv_def]
  from assms(2) show ?thesis
  proof cases
    case parent_close
    with inv show ?thesis by (cases "c_child s") (simp_all add: sync_inv_def)
  next
    case parent_refused
    with inv show ?thesis by (simp add: sync_inv_def sync_answer_def)
  next
    case (parent_ready bs)
    with inv bytes show ?thesis by (cases "c_child s") (auto simp: sync_inv_def sync_answer_def)
  next
    case (parent_error b bs)
    with inv bytes show ?thesis by (cases "c_child s") (auto simp: sync_inv_def sync_answer_def)
  next
    case parent_eof
    with inv bytes show ?thesis by (cases "c_child s") (auto simp: sync_inv_def sync_answer_def)
  next
    case parent_reap
    with inv show ?thesis by (simp add: sync_inv_def)
  qed
qed

lemma sync_inv_child:
  assumes "child_step bytes runs s s'" and "sync_inv bytes rd runs s"
  shows "sync_inv bytes rd runs s'"
  using assms by cases (cases "c_parent s"; auto simp: sync_inv_def)+

lemma sync_inv_program: "program_ends s s' \<Longrightarrow> sync_inv bytes rd runs s \<Longrightarrow> sync_inv bytes rd runs s'"
  by (erule program_ends.cases) (cases "c_parent s"; auto simp: sync_inv_def)

lemma sync_inv_step:
  "length bytes \<le> 1 \<Longrightarrow> sync_step bytes rd runs s s' \<Longrightarrow> sync_inv bytes rd runs s \<Longrightarrow> sync_inv bytes rd runs s'"
  unfolding sync_step_def code_step_def
  by (blast intro: sync_inv_parent sync_inv_child sync_inv_program)

lemma sync_inv_run:
  assumes "length bytes \<le> 1" and "sync_run bytes rd runs s s'" and "sync_inv bytes rd runs s"
  shows "sync_inv bytes rd runs s'"
  using assms(2,3) by (induction rule: rtranclp_induct) (auto intro: sync_inv_step [OF assms(1)])

text \<open>Where the code can make no step, the parent has its answer, or waits for the program.\<close>

lemma code_stuck:
  assumes "sync_inv bytes rd runs s" and "\<nexists>s'. code_step bytes rd runs s s'"
  shows "(c_parent s = P_returned (sync_answer bytes rd) \<and> c_child s \<in> {C_program, C_ended}) \<or> blocked s"
proof -
  have no: "code_step bytes rd runs s s' \<Longrightarrow> False" for s' using assms(2) by blast
  have child: "c_child s \<in> {C_program, C_ended}"
    using no [OF code_steps(7)] no [OF code_steps(8)] no [OF code_steps(9)] no [OF code_steps(10)] no [OF code_steps(11)]
    by (cases "c_child s"; cases runs) auto
  have "c_parent s \<noteq> P_cloned" using no [OF code_steps(1)] by auto
  moreover have "blocked s" if "c_parent s = P_reaping"
    using that child no [OF code_steps(6)] by (auto simp: blocked_def)
  moreover have "c_parent s \<noteq> P_reading"
  proof
    assume p: "c_parent s = P_reading"
    then have "\<not> c_pw s" "\<not> c_cw s" using assms(1) child by (auto simp: sync_inv_def)
    then show False
      using no [OF code_steps(2) [OF p]] no [OF code_steps(3) [OF p]] no [OF code_steps(4) [OF p]]
        no [OF code_steps(5) [OF p]] by (cases "c_buf s") auto
  qed
  moreover have "b = sync_answer bytes rd" if "c_parent s = P_returned b" for b
    using assms(1) that by (simp add: sync_inv_def)
  ultimately show ?thesis using child by (cases "c_parent s") auto
qed

lemma blocked_facts:
  assumes "sync_inv bytes rd runs s" and "blocked s"
  shows "runs" "\<not> sync_answer bytes rd" "sync_step bytes rd runs s t \<Longrightarrow> program_ends s t"
    "program_ends s t \<Longrightarrow> \<exists>u. parent_step rd t u \<and> c_parent u = P_returned False"
proof -
  show "runs" "\<not> sync_answer bytes rd" using assms by (auto simp: sync_inv_def blocked_def)
  show "sync_step bytes rd runs s t \<Longrightarrow> program_ends s t"
    using assms(2) by (auto simp: sync_step_def code_step_def blocked_def elim: parent_step.cases child_step.cases)
  show "\<exists>u. parent_step rd t u \<and> c_parent u = P_returned False" if "program_ends s t"
    using that assms(2) by (auto simp: blocked_def elim!: program_ends.cases intro!: exI [of _ "t\<lparr>c_parent := P_returned False\<rparr>"]
      parent_step.parent_reap)
qed

lemma code_completes:
  assumes "length bytes \<le> 1" and "sync_answer bytes rd \<or> \<not> runs" and "sync_inv bytes rd runs s"
  shows "\<exists>s'. code_run bytes rd runs s s' \<and> c_parent s' = P_returned (sync_answer bytes rd)"
  using assms(3)
proof (induction s rule: measure_induct_rule [of sync_rank])
  case (less s)
  show ?case
  proof (cases "\<exists>t. code_step bytes rd runs s t")
    case True
    then obtain t where t: "code_step bytes rd runs s t" by blast
    then have "sync_inv bytes rd runs t" by (intro sync_inv_step [OF assms(1) _ less.prems]) (simp add: sync_step_def)
    with less.IH [OF code_step_rank [OF t]] t show ?thesis by (blast intro: converse_rtranclp_into_rtranclp)
  next
    case False
    with code_stuck [OF less.prems] blocked_facts(1,2) [OF less.prems] assms(2) show ?thesis by blast
  qed
qed

text \<open>The parent can really be left waiting.\<close>

lemma code_blocks:
  assumes "length bytes \<le> 1" and "runs" and "\<not> sync_answer bytes rd"
  shows "\<exists>t. code_run bytes rd runs sync_init t \<and> blocked t"
proof -
  let ?step = "code_step bytes rd runs"
  define s1 where "s1 = sync_init\<lparr>c_pw := False, c_parent := P_reading\<rparr>"
  define s2 where "s2 = s1\<lparr>c_cr := False, c_child := C_setup\<rparr>"
  define s3 where "s3 = s2\<lparr>c_buf := c_buf s2 @ bytes, c_child := C_closing\<rparr>"
  define s4 where "s4 = s3\<lparr>c_cw := False, c_child := C_program\<rparr>"
  have "?step sync_init s1" unfolding s1_def by (rule code_steps(1)) (simp add: sync_init_def)
  moreover have "?step s1 s2" unfolding s2_def by (rule code_steps(7)) (simp add: s1_def sync_init_def)
  moreover have "?step s2 s3" unfolding s3_def by (rule code_steps(8)) (simp_all add: s2_def s1_def sync_init_def)
  moreover have "?step s3 s4" unfolding s4_def by (rule code_steps(10)) (simp_all add: s3_def assms(2))
  ultimately have s4: "code_run bytes rd runs sync_init s4"
    by (meson converse_rtranclp_into_rtranclp rtranclp.rtrancl_refl)
  have f: "c_parent s4 = P_reading" "c_child s4 = C_program" "c_buf s4 = bytes" "\<not> c_pw s4" "\<not> c_cw s4"
    by (simp_all add: s4_def s3_def s2_def s1_def sync_init_def)
  obtain t where "?step s4 t" "blocked t"
  proof (cases rd)
    case False
    show ?thesis by (rule that [OF code_steps(2) [OF f(1) False]]) (simp add: blocked_def f(2))
  next
    case rd: True
    show ?thesis
    proof (cases bytes)
      case Nil
      show ?thesis
        by (rule that [OF code_steps(5) [OF f(1) rd]]) (use f Nil in \<open>simp_all add: blocked_def\<close>)
    next
      case (Cons b bs)
      then have "b \<noteq> CHILD_SYNC_READY" using assms(1,3) rd by (auto simp: sync_answer_def)
      then show ?thesis
        by (intro that [OF code_steps(4) [OF f(1) rd]]) (use f Cons in \<open>simp_all add: blocked_def\<close>)
    qed
  qed
  with s4 show ?thesis by (blast intro: rtranclp.rtrancl_into_rtrancl)
qed

text \<open>C10: how the synchronisation of a start ends. Wherever the two processes are, the code has at
  most six steps left. When it can make none, the parent has returned its answer, success
  exactly if the byte READY was delivered, or it is blocked in \<open>waitpid\<close> on the program, which
  only the end of the program resolves, and then with a failure. Blocking needs both that the
  byte was not delivered and that the program runs nevertheless: in every other case the answer
  is reached by the code's steps alone, and in that one case some interleaving does block.\<close>

theorem sync_terminates:
  assumes "length bytes \<le> 1" and "sync_run bytes rd runs sync_init s"
  shows "((code_step bytes rd runs ^^ n) s s' \<longrightarrow> n \<le> 6)
    \<and> ((\<nexists>t. code_step bytes rd runs s t) \<longrightarrow>
         (c_parent s = P_returned (sync_answer bytes rd) \<and> c_child s \<in> {C_program, C_ended}) \<or> blocked s)
    \<and> (blocked s \<longrightarrow> runs \<and> \<not> sync_answer bytes rd \<and> (\<forall>t. sync_step bytes rd runs s t \<longrightarrow> program_ends s t)
         \<and> (\<forall>t. program_ends s t \<longrightarrow> (\<exists>u. parent_step rd t u \<and> c_parent u = P_returned False)))
    \<and> (sync_answer bytes rd \<or> \<not> runs \<longrightarrow>
         (\<exists>t. code_run bytes rd runs s t \<and> c_parent t = P_returned (sync_answer bytes rd)))
    \<and> (runs \<and> \<not> sync_answer bytes rd \<longrightarrow> (\<exists>t. code_run bytes rd runs sync_init t \<and> blocked t))"
proof -
  have inv: "sync_inv bytes rd runs s" by (rule sync_inv_run [OF assms sync_inv_init])
  have "sync_rank s \<le> sync_rank sync_init"
    using assms(2) by (induction rule: rtranclp_induct) (auto dest: sync_step_rank)
  then have "(code_step bytes rd runs ^^ n) s s' \<longrightarrow> n \<le> 6"
    using code_steps_rank [of n bytes rd runs s s'] by (auto simp: sync_rank_init)
  then show ?thesis
    using code_stuck [OF inv] blocked_facts [OF inv] code_completes [OF assms(1) _ inv] code_blocks [OF assms(1)]
    by blast
qed

theorem sync_terminates_witness:
  "(\<exists>t. code_run [CHILD_SYNC_READY] True True sync_init t \<and> c_parent t = P_returned True)
   \<and> (\<exists>t. code_run [] True True sync_init t \<and> blocked t)"
  using sync_terminates [of "[CHILD_SYNC_READY]" True True sync_init] sync_terminates [of "[]" True True sync_init]
  by (simp add: sync_answer_def)

section \<open>The sequential model gives the same answer\<close>

text \<open>
  What \<open>clone_and_wait\<close> meets: the pid that \<open>clone\<close> returned, what the child wrote, whether
  the read was let through, and whether the child became the program.
\<close>

definition sync_outcome :: "nk_container_ctx \<Rightarrow> world \<Rightarrow> (int \<times> char list \<times> bool \<times> bool) option" where
  "sync_outcome c w = (case run_state (kernel (Clone (clone_flags_of c))) (post (nk_log_set_role NK_LOG_ROLE_PARENT) w) of
     (Inl _, _) \<Rightarrow> None
   | (Inr pid, w1) \<Rightarrow>
       if pid = -1 then None
       else (case run_state (in_child Init (container_child_fn (make_exec_ctx c))) w1 of
         (child, w2) \<Rightarrow> Some (pid, fst child, \<not> failed (res (kernel PipeRead) w2), snd child = None)))"

lemma child_bytes: "length (fst (res (in_child p (container_child_fn x)) w)) \<le> 1"
proof -
  have any: "(\<And>a w'. Q a w') \<Longrightarrow> wp m Q w" for m :: "'a prog" and Q w by (simp add: wp_def)
  have "wp (container_child_fn x) (\<lambda>(b, _) _. length b \<le> 1) w" for w
    unfolding container_child_fn_def pipe_write_def
    by (intro wp_bind wp_if wp_return any) simp_all
  then show ?thesis by (simp add: in_child_def wp_def split_def)
qed

lemma clone_and_wait_outcome:
  assumes "sync_outcome c w = Some (pid, bytes, rd, runs)"
  shows "res (clone_and_wait c) w = (if sync_answer bytes rd then pid else -1) \<and> length bytes \<le> 1"
proof -
  have e: "e_container_id (make_exec_ctx c) = None" by (simp add: make_exec_ctx_def)
  show ?thesis
    using assms child_bytes [of Init "make_exec_ctx c"]
    unfolding clone_and_wait_def Let_def e option.case
    by (auto simp: sync_outcome_def sync_answer_def split_def split: sum.splits if_splits prod.splits)
qed

text \<open>C9: the parent's answer does not depend on how its steps interleave with the child's: whenever
  the protocol, with the byte that the child writes and the read that the kernel grants or
  refuses, has come to an end for the parent, its answer is the one that the sequential model of
  \<open>nk_container_exec\<close> computes.\<close>

theorem interleaving_irrelevant:
  assumes "sync_outcome c w = Some (pid, bytes, rd, runs)" and "sync_run bytes rd runs sync_init s"
    and "c_parent s = P_returned b"
  shows "res (clone_and_wait c) w = (if b then pid else -1)"
proof -
  note o = clone_and_wait_outcome [OF assms(1)]
  have "sync_inv bytes rd runs s" using o by (intro sync_inv_run [OF _ assms(2) sync_inv_init]) simp
  with o assms(3) show ?thesis by (simp add: sync_inv_def)
qed

lemma demo_outcome: "\<exists>runs. sync_outcome demo_ctx log_demo_world = Some (0, [CHILD_SYNC_READY], True, runs)"
proof -
  obtain l where l: "post (nk_log_set_role NK_LOG_ROLE_PARENT) log_demo_world = log_demo_world\<lparr>w_log := l\<rparr>"
    using only_log_config(4) unfolding only_log_def by blast
  let ?w = "tick (Clone (clone_flags_of demo_ctx)) None (log_demo_world\<lparr>w_log := l\<rparr>)"
  have clone: "run_state (kernel (Clone (clone_flags_of demo_ctx))) (log_demo_world\<lparr>w_log := l\<rparr>) = (Inr 0, ?w)"
    by (simp add: run_kernel next_answer_def log_demo_world_def)
  have f: "faultless ?w" using log_demo_faultless by (simp add: faultless_def)
  have "wp (container_child_fn (make_exec_ctx demo_ctx)) (\<lambda>a _. fst a = [CHILD_SYNC_READY]) v" if "faultless v" for v
    by (rule wp_mono [OF child_ok [OF demo_runnable that]]) auto
  then have "wp (in_child Init (container_child_fn (make_exec_ctx demo_ctx)))
      (\<lambda>a w'. fst a = [CHILD_SYNC_READY] \<and> faultless w') ?w"
    by (rule in_child_ok [where P = "\<lambda>a. fst a = [CHILD_SYNC_READY]", OF _ static_child f]) simp_all
  moreover have "\<not> failed (res (kernel PipeRead) v)" if "faultless v" for v
    using that by (simp add: run_kernel failed_def)
  ultimately show ?thesis
    by (simp add: sync_outcome_def l clone split_def wp_def)
qed

theorem interleaving_irrelevant_witness:
  "res (clone_and_wait demo_ctx) log_demo_world = 0"
proof -
  obtain runs where o: "sync_outcome demo_ctx log_demo_world = Some (0, [CHILD_SYNC_READY], True, runs)"
    using demo_outcome by blast
  obtain s where s: "code_run [CHILD_SYNC_READY] True runs sync_init s" "c_parent s = P_returned True"
    using code_completes [of "[CHILD_SYNC_READY]" True runs sync_init] sync_inv_init by (auto simp: sync_answer_def)
  have "sync_run [CHILD_SYNC_READY] True runs sync_init s"
    by (rule rtranclp_mono [THEN predicate2D, OF _ s(1)]) (auto simp: sync_step_def)
  from interleaving_irrelevant [OF o this s(2)] show ?thesis by simp
qed

end
