(* ===== verification/Spec2Isabelle.thy ===== *)
theory Spec2Isabelle
  imports StoreProperties StoreLoss Machine MainFacts SyncPipe
begin

text \<open>
  A verification library for nano-sandbox, an OCI container runtime in C.

  \<^bold>\<open>The program.\<close> \<open>src/main.c\<close> parses a command line and runs one command on one container:
  create, start, run, exec, delete or state. A container is a JSON file in a state directory
  (\<open>src/common/state.c\<close>), made from a bundle whose \<open>config.json\<close> is loaded by \<open>src/oci/spec.c\<close>.
  Starting it clones a process (\<open>src/container/process.c\<close>) into new namespaces
  (\<open>namespaces.c\<close>); the child sets up and pivots into its root file system (\<open>mounts.c\<close>),
  drops privileges, tells the parent through a pipe that it is ready, and executes the
  program. Control groups (\<open>cgroups.c\<close>) are set up and removed; everything logs
  (\<open>src/common/log.c\<close>).

  \<^bold>\<open>How it is modelled.\<close> A C function is a program of the state monad over one record, the world
  (\<open>World\<close>): the host's file system, the environment, the standard streams, the logging
  globals and the kernel. A NULL pointer is \<open>None\<close>, an \<open>int\<close> result keeps its values, a struct is
  a record and an enum a datatype; flags, ids and wait statuses are 32-bit words. The calls of
  the state store and of the bundle loader act on a concrete file system; every other call is
  answered by the kernel. Every call, also of the first kind, may be refused: the \<open>n\<close>-th call
  asks an oracle about which nothing is assumed, so that a theorem holds for every failure of
  every call unless a hypothesis (\<open>reliable\<close>, \<open>faultless\<close>, \<open>int_answers\<close>, \<open>kind_kernel\<close>) says
  otherwise. Each call is recorded in a trace with its process and its error. The library
  jansson is a record of functions (\<open>Jansson\<close>) with its documented laws as a locale, which
  \<open>RefJson\<close> interprets by a JSON printer and parser of its own, so that the witnesses run.
  Every program is a total function and \<open>wp\<close> is total correctness; the loops are structural
  recursions over strings and lists, so no fuel is needed.

  \<^bold>\<open>The theories.\<close>
  \<^item> \<open>Prelude\<close>: weakest preconditions, programs that respect a relation (locale \<open>step_rel\<close>), C
    strings, decimal numbers, paths. \<open>World\<close>: the world, system calls, file system and their laws.
  \<^item> \<open>NkLog\<close>: \<open>log.c\<close> and \<open>nk_log.h\<close>; logging changes nothing but the logging state
    (\<open>only_log\<close>), and when a message is printed.
  \<^item> \<open>StateStore\<close>: \<open>state.c\<close>; \<open>StoreFacts\<close>, \<open>StoreDirs\<close>: text of a state file, directories;
    \<open>StoreContract\<close>: the store as a map from names to containers, stated as the locale
    \<open>container_store\<close>, which is interpreted on the model of \<open>state.c\<close>; the lifecycle commands are
    proved from its laws. \<open>StoreProperties\<close>: round trip, refinement, deletion, \<open>mkdir_p\<close>.
  \<^item> \<open>OciSpec\<close>: \<open>spec.c\<close>; \<open>OciFacts\<close>: \<open>spec_of\<close>, the configuration that a document denotes, and that
    the loader computes it.
  \<^item> \<open>Namespaces\<close>, \<open>Cgroups\<close>, \<open>Mounts\<close>, \<open>Process\<close>: the files of \<open>src/container\<close>, with the
    properties of each; \<open>ProcessFacts\<close>: what a start that reports a pid has done, in which order.
    \<open>SyncPipe\<close>: parent and child as two interleaved processes. \<open>Process\<close> runs the child to its
    end before the parent goes on; \<open>SyncPipe\<close> shows that every interleaving ends, after at most
    seven steps on the pipe, with the same answer.
  \<^item> \<open>Options\<close>: \<open>nk_parse_args\<close> over a model of \<open>getopt_long\<close> with permutation, abbreviations and
    clusters. \<open>Lifecycle\<close>: the commands of \<open>main.c\<close>. \<open>MainProg\<close>: \<open>main\<close>.
  \<^item> \<open>LifecycleFacts\<close>: what each command does to the entries of the store, as inductive relations
    (\<open>start_outcome\<close>, \<open>run_outcome\<close>, \<open>delete_outcome\<close>, \<open>resume_outcome\<close>). \<open>LifecycleProperties\<close>,
    \<open>StartProperties\<close>: the properties of the commands; a start crashes exactly on a
    configuration with an untyped namespace and succeeds when nothing is refused.
  \<^item> \<open>Machine\<close>: sequences of invocations of \<open>main\<close> refine an abstract machine on the entries, from
    which follow the invariant of the life cycle and that a container is started once; its
    invariants are interpretations of the locale \<open>machine_invariant\<close>.
    \<open>MainFacts\<close>: range of the results, signals, when exec forks a helper.

  \<^bold>\<open>Hypotheses.\<close> \<open>store_ok\<close>: the path of the state directory leads through directories, is
  short enough and its calls are not refused. \<open>known\<close>: the entries carry their own names, as
  the ones the program writes do (every invocation keeps it, an interpretation of
  \<open>machine_invariant\<close> in \<open>Machine\<close>). \<open>plain_name\<close>: the
  container's name is one path component; the program does not check this, and a name with a
  slash or \<open>..\<close> leaves the state directory.

  \<^bold>\<open>Not modelled.\<close> Freeing memory and closing descriptors, except for the ends of the pipe in
  \<open>SyncPipe\<close>; permission bits, symbolic links and the times of files; flushing of the streams and
  the texts of log messages beyond what decides whether they are printed; the messages that
  \<open>getopt_long\<close> prints itself; the child's own view of the file system after the pivot; the
  contents of the cgroup and proc file systems, which the kernel's answers stand for; other
  processes that change the store during a command. \<open>nk_vm.h\<close> declares a VM mode of which no
  function exists; start refuses it. Scripts, tests, bundles and documents are not C.
\<close>

end
